theory Spec2Isabelle
  imports Complex_Main "HOL-Library.AList"
begin

section \<open>JavaScript strings\<close>

text \<open>
  A JavaScript string is modelled as a \<open>string\<close> (a list of 8-bit characters). The case
  conversions and the whitespace test below act on the ASCII range only; characters
  outside it are left as they are. Currency codes, dates and the host names of the
  search engines the code looks for are ASCII.
\<close>

definition isDigit :: "char \<Rightarrow> bool" where
  "isDigit c = (48 \<le> (of_char c :: nat) \<and> (of_char c :: nat) \<le> 57)"

definition digitValue :: "char \<Rightarrow> nat" where
  "digitValue c = of_char c - 48"

definition digitChar :: "nat \<Rightarrow> char" where
  "digitChar n = ''0123456789'' ! n"

definition lowerChar :: "char \<Rightarrow> char" where
  "lowerChar c = (if 65 \<le> (of_char c :: nat) \<and> (of_char c :: nat) \<le> 90
                  then char_of ((of_char c :: nat) + 32) else c)"

definition upperChar :: "char \<Rightarrow> char" where
  "upperChar c = (if 97 \<le> (of_char c :: nat) \<and> (of_char c :: nat) \<le> 122
                  then char_of ((of_char c :: nat) - 32) else c)"

definition toLowerCase :: "string \<Rightarrow> string" where
  "toLowerCase s = map lowerChar s"

definition toUpperCase :: "string \<Rightarrow> string" where
  "toUpperCase s = map upperChar s"

text \<open>\<open>Number(str)\<close> on a string of decimal digits.\<close>

definition digitsToNat :: "string \<Rightarrow> nat" where
  "digitsToNat s = foldl (\<lambda>acc c. 10 * acc + digitValue c) 0 s"

text \<open>The decimal digits of a natural number, as \<open>String(n)\<close> prints an integer.\<close>

fun natToString :: "nat \<Rightarrow> string" where
  "natToString n = (if n < 10 then [digitChar n]
                    else natToString (n div 10) @ [digitChar (n mod 10)])"

declare natToString.simps [simp del]

definition intToString :: "int \<Rightarrow> string" where
  "intToString i = (if i < 0 then CHR ''-'' # natToString (nat (- i)) else natToString (nat i))"

text \<open>\<open>String(n).padStart(w, '0')\<close>.\<close>

definition padStart0 :: "nat \<Rightarrow> nat \<Rightarrow> string" where
  "padStart0 w n = replicate (w - length (natToString n)) (CHR ''0'') @ natToString n"

text \<open>
  \<open>xs.slice(0, n)\<close>, of a string or an array: a negative \<open>n\<close> counts from the end.
\<close>

definition slice0 :: "int \<Rightarrow> 'a list \<Rightarrow> 'a list" where
  "slice0 n xs = (if n < 0 then take (nat (int (length xs) + n)) xs else take (nat n) xs)"

section \<open>The ECMAScript calendar (time values are milliseconds since the epoch, UTC)\<close>

text \<open>
  A \<open>Date\<close> holding a valid time value is modelled as that value, an \<open>int\<close>. The
  definitions are the abstract operations of ECMA-262, section 21.4.1, with the year of
  a day computed by an estimate and one correction step.
\<close>

definition msPerDay :: int where
  "msPerDay = 86400000"

definition Day :: "int \<Rightarrow> int" where
  "Day t = t div msPerDay"

definition TimeWithinDay :: "int \<Rightarrow> int" where
  "TimeWithinDay t = t mod msPerDay"

definition DaysInYear :: "int \<Rightarrow> int" where
  "DaysInYear y = (if y mod 4 \<noteq> 0 then 365 else if y mod 100 \<noteq> 0 then 366
                   else if y mod 400 \<noteq> 0 then 365 else 366)"

definition DayFromYear :: "int \<Rightarrow> int" where
  "DayFromYear y = 365 * (y - 1970) + (y - 1969) div 4 - (y - 1901) div 100 + (y - 1601) div 400"

definition YearFromDay :: "int \<Rightarrow> int" where
  "YearFromDay d = (let y0 = 1970 + (400 * d) div 146097 in
     if DayFromYear (y0 + 1) \<le> d then y0 + 1
     else if d < DayFromYear y0 then y0 - 1 else y0)"

definition YearFromTime :: "int \<Rightarrow> int" where
  "YearFromTime t = YearFromDay (Day t)"

definition InLeapYear :: "int \<Rightarrow> bool" where
  "InLeapYear t = (DaysInYear (YearFromTime t) = 366)"

definition DayWithinYear :: "int \<Rightarrow> int" where
  "DayWithinYear t = Day t - DayFromYear (YearFromTime t)"

text \<open>The number of days of a year that precede its month \<open>m\<close> (0 = January).\<close>

definition monthStart :: "bool \<Rightarrow> int \<Rightarrow> int" where
  "monthStart leap m = (let l = (if leap then 1 else 0) in
     if m = 0 then 0 else if m = 1 then 31 else if m = 2 then 59 + l
     else if m = 3 then 90 + l else if m = 4 then 120 + l else if m = 5 then 151 + l
     else if m = 6 then 181 + l else if m = 7 then 212 + l else if m = 8 then 243 + l
     else if m = 9 then 273 + l else if m = 10 then 304 + l else 334 + l)"

definition MonthFromTime :: "int \<Rightarrow> int" where
  "MonthFromTime t = (let d = DayWithinYear t; l = (if InLeapYear t then 1 else 0) in
     if d < 31 then 0 else if d < 59 + l then 1 else if d < 90 + l then 2
     else if d < 120 + l then 3 else if d < 151 + l then 4 else if d < 181 + l then 5
     else if d < 212 + l then 6 else if d < 243 + l then 7 else if d < 273 + l then 8
     else if d < 304 + l then 9 else if d < 334 + l then 10 else 11)"

definition DateFromTime :: "int \<Rightarrow> int" where
  "DateFromTime t = DayWithinYear t - monthStart (InLeapYear t) (MonthFromTime t) + 1"

definition MakeDay :: "int \<Rightarrow> int \<Rightarrow> int \<Rightarrow> int" where
  "MakeDay year month date = (let ym = year + month div 12; mn = month mod 12 in
     DayFromYear ym + monthStart (DaysInYear ym = 366) mn + date - 1)"

definition MakeTime :: "int \<Rightarrow> int \<Rightarrow> int \<Rightarrow> int \<Rightarrow> int" where
  "MakeTime h m s ms = h * 3600000 + m * 60000 + s * 1000 + ms"

definition MakeDate :: "int \<Rightarrow> int \<Rightarrow> int" where
  "MakeDate day time = day * msPerDay + time"

text \<open>
  \<open>Date.UTC(year, month, date, h, m, s, ms)\<close>: a year from 0 to 99 means 1900 + year.
  (The time values reached from four-digit years lie inside the range of \<open>TimeClip\<close>.)
\<close>

definition Date_UTC :: "int \<Rightarrow> int \<Rightarrow> int \<Rightarrow> int \<Rightarrow> int \<Rightarrow> int \<Rightarrow> int \<Rightarrow> int" where
  "Date_UTC year month date h m s ms =
     (let yr = (if 0 \<le> year \<and> year \<le> 99 then 1900 + year else year)
      in MakeDate (MakeDay yr month date) (MakeTime h m s ms))"

definition getUTCFullYear :: "int \<Rightarrow> int" where
  "getUTCFullYear t = YearFromTime t"

definition getUTCMonth :: "int \<Rightarrow> int" where
  "getUTCMonth t = MonthFromTime t"

definition getUTCDate :: "int \<Rightarrow> int" where
  "getUTCDate t = DateFromTime t"

definition setUTCDate :: "int \<Rightarrow> int \<Rightarrow> int" where
  "setUTCDate t dt = MakeDate (MakeDay (YearFromTime t) (MonthFromTime t) dt) (TimeWithinDay t)"

text \<open>
  \<open>date.toISOString()\<close>: \<open>YYYY-MM-DDTHH:mm:ss.sssZ\<close>, with the year written as a sign
  and six digits when it is outside 0..9999.
\<close>

definition isoYear :: "int \<Rightarrow> string" where
  "isoYear y = (if 0 \<le> y \<and> y \<le> 9999 then padStart0 4 (nat y)
                else (if y < 0 then CHR ''-'' else CHR ''+'') # padStart0 6 (nat \<bar>y\<bar>))"

definition toISOString :: "int \<Rightarrow> string" where
  "toISOString t = (let tw = TimeWithinDay t in
     isoYear (YearFromTime t) @ ''-'' @ padStart0 2 (nat (MonthFromTime t + 1)) @ ''-'' @
     padStart0 2 (nat (DateFromTime t)) @ ''T'' @
     padStart0 2 (nat (tw div 3600000)) @ '':'' @
     padStart0 2 (nat ((tw div 60000) mod 60)) @ '':'' @
     padStart0 2 (nat ((tw div 1000) mod 60)) @ ''.'' @
     padStart0 3 (nat (tw mod 1000)) @ ''Z'')"

text \<open>
  \<open>Date.parse\<close> on a string of the shape \<open>YYYY-MM-DDTHH:mm:ss.sssZ\<close>, the only shape
  the code below hands to it once its own regular expression has matched; \<open>None\<close> is
  \<open>NaN\<close>. As in V8 (Node.js), the month must be 01..12 and the day 01..31; a day beyond
  the end of its month rolls over into the next month.
\<close>

definition Date_parse :: "string \<Rightarrow> int option" where
  "Date_parse s =
     (if length s = 24 \<and> list_all isDigit (take 4 s) \<and> s ! 4 = CHR ''-'' \<and>
         list_all isDigit (take 2 (drop 5 s)) \<and> s ! 7 = CHR ''-'' \<and>
         list_all isDigit (take 2 (drop 8 s)) \<and> s ! 10 = CHR ''T'' \<and>
         list_all isDigit (take 2 (drop 11 s)) \<and> s ! 13 = CHR '':'' \<and>
         list_all isDigit (take 2 (drop 14 s)) \<and> s ! 16 = CHR '':'' \<and>
         list_all isDigit (take 2 (drop 17 s)) \<and> s ! 19 = CHR ''.'' \<and>
         list_all isDigit (take 3 (drop 20 s)) \<and> s ! 23 = CHR ''Z''
      then
        (let y = int (digitsToNat (take 4 s)); mo = int (digitsToNat (take 2 (drop 5 s)));
             d = int (digitsToNat (take 2 (drop 8 s)));
             h = int (digitsToNat (take 2 (drop 11 s)));
             mi = int (digitsToNat (take 2 (drop 14 s)));
             sec = int (digitsToNat (take 2 (drop 17 s)));
             ms = int (digitsToNat (take 3 (drop 20 s)))
         in if 1 \<le> mo \<and> mo \<le> 12 \<and> 1 \<le> d \<and> d \<le> 31 \<and> mi \<le> 59 \<and> sec \<le> 59 \<and>
               (h \<le> 23 \<or> (h = 24 \<and> mi = 0 \<and> sec = 0 \<and> ms = 0))
            then Some (MakeDate (MakeDay y (mo - 1) d) (MakeTime h mi sec ms))
            else None)
      else None)"

section \<open>The date range resolver (analytics workflow)\<close>

text \<open>A thrown \<open>Error\<close>, with its message.\<close>

datatype error = Error string

record DateRange =
  startDate :: string
  endDate :: string

text \<open>\<open>ISO_DATE_REGEX = /^\d{4}-\d{2}-\d{2}$/\<close>.\<close>

definition ISO_DATE_REGEX_test :: "string \<Rightarrow> bool" where
  "ISO_DATE_REGEX_test s =
     (length s = 10 \<and> list_all isDigit (take 4 s) \<and> s ! 4 = CHR ''-'' \<and>
      list_all isDigit (take 2 (drop 5 s)) \<and> s ! 7 = CHR ''-'' \<and>
      list_all isDigit (drop 8 s))"

definition parseISODate :: "string \<Rightarrow> string \<Rightarrow> error + int" where
  "parseISODate v field =
     (if \<not> ISO_DATE_REGEX_test v
      then Inl (Error (''Invalid '' @ field @ ''. Expected format YYYY-MM-DD, received: '' @ v))
      else case Date_parse (v @ ''T00:00:00.000Z'') of
             None \<Rightarrow> Inl (Error (''Invalid '' @ field @ ''. Unable to parse date: '' @ v))
           | Some timestamp \<Rightarrow> Inr timestamp)"

definition formatISODate :: "int \<Rightarrow> string" where
  "formatISODate date = slice0 10 (toISOString date)"

definition addDays :: "int \<Rightarrow> int \<Rightarrow> int" where
  "addDays date days = setUTCDate date (getUTCDate date + days)"

definition ensureChronology :: "int \<Rightarrow> int \<Rightarrow> error + unit" where
  "ensureChronology start en =
     (if en < start then Inl (Error ''endDate must be on or after startDate.'') else Inr ())"

definition ensureNotFuture :: "int \<Rightarrow> int \<Rightarrow> string \<Rightarrow> error + unit" where
  "ensureNotFuture date today field =
     (if date > today then Inl (Error (field @ '' cannot be in the future.'')) else Inr ())"

definition startOfUTCDate :: "int \<Rightarrow> int" where
  "startOfUTCDate date =
     Date_UTC (getUTCFullYear date) (getUTCMonth date) (getUTCDate date) 0 0 0 0"

text \<open>
  An optional string argument is \<open>string option\<close>. The code tests it with \<open>&&\<close> and
  \<open>!\<close>, so the empty string counts as absent.
\<close>

definition truthy :: "string option \<Rightarrow> bool" where
  "truthy v = (case v of None \<Rightarrow> False | Some s \<Rightarrow> s \<noteq> [])"

definition computeDateRange :: "string option \<Rightarrow> string option \<Rightarrow> int \<Rightarrow> error + DateRange" where
  "computeDateRange startDateArg endDateArg today =
     (let todayStart = startOfUTCDate today in
      if truthy startDateArg \<and> truthy endDateArg then
        (case parseISODate (the startDateArg) ''startDate'' of Inl e \<Rightarrow> Inl e | Inr start \<Rightarrow>
         case parseISODate (the endDateArg) ''endDate'' of Inl e \<Rightarrow> Inl e | Inr en \<Rightarrow>
         case ensureChronology start en of Inl e \<Rightarrow> Inl e | Inr _ \<Rightarrow>
         case ensureNotFuture start todayStart ''startDate'' of Inl e \<Rightarrow> Inl e | Inr _ \<Rightarrow>
         case ensureNotFuture en todayStart ''endDate'' of Inl e \<Rightarrow> Inl e | Inr _ \<Rightarrow>
           Inr \<lparr>startDate = formatISODate start, endDate = formatISODate en\<rparr>)
      else if truthy startDateArg \<and> \<not> truthy endDateArg then
        (case parseISODate (the startDateArg) ''startDate'' of Inl e \<Rightarrow> Inl e | Inr start \<Rightarrow>
         case ensureNotFuture start todayStart ''startDate'' of Inl e \<Rightarrow> Inl e | Inr _ \<Rightarrow>
           (let tentativeEnd = addDays start 6;
                en = (if tentativeEnd > todayStart then todayStart else tentativeEnd)
            in case ensureChronology start en of Inl e \<Rightarrow> Inl e | Inr _ \<Rightarrow>
                 Inr \<lparr>startDate = formatISODate start, endDate = formatISODate en\<rparr>))
      else if \<not> truthy startDateArg \<and> truthy endDateArg then
        (case parseISODate (the endDateArg) ''endDate'' of Inl e \<Rightarrow> Inl e | Inr en \<Rightarrow>
         case ensureNotFuture en todayStart ''endDate'' of Inl e \<Rightarrow> Inl e | Inr _ \<Rightarrow>
           (let start = addDays en (- 6)
            in Inr \<lparr>startDate = formatISODate start, endDate = formatISODate en\<rparr>))
      else
        (let en = todayStart; start = addDays en (- 6)
         in Inr \<lparr>startDate = formatISODate start, endDate = formatISODate en\<rparr>))"

text \<open>
  The strings the resolver accepts, written out: the pattern \<open>YYYY-MM-DD\<close> with a month
  from 01 to 12 and a day from 01 to 31, and the time value such a string denotes.
\<close>

definition validMonthDay :: "string \<Rightarrow> bool" where
  "validMonthDay v = (let mo = digitsToNat (take 2 (drop 5 v)); d = digitsToNat (drop 8 v)
                       in 1 \<le> mo \<and> mo \<le> 12 \<and> 1 \<le> d \<and> d \<le> 31)"

definition wellFormedDate :: "string \<Rightarrow> bool" where
  "wellFormedDate v = (ISO_DATE_REGEX_test v \<and> validMonthDay v)"

definition dateOfString :: "string \<Rightarrow> int" where
  "dateOfString v =
     MakeDay (int (digitsToNat (take 4 v))) (int (digitsToNat (take 2 (drop 5 v))) - 1)
       (int (digitsToNat (drop 8 v))) * msPerDay"

section \<open>Pagination of the purchase-session tool\<close>

definition MAX_ROWS :: int where "MAX_ROWS = 5000"
definition DEFAULT_LIMIT :: int where "DEFAULT_LIMIT = 500"
definition DEFAULT_PAGE :: int where "DEFAULT_PAGE = 1"

record FetchOptions =
  fo_startDate :: "string option"
  fo_endDate :: "string option"
  fo_limit :: "int option"
  fo_page :: "int option"
  fo_pageSize :: "int option"
  fo_truncateStrings :: "bool option"

definition fetchPurchaseSessions ::
  "(string option \<Rightarrow> string option \<Rightarrow> int \<Rightarrow> int \<Rightarrow> error + 'r list) \<Rightarrow> (bool \<Rightarrow> 'r \<Rightarrow> 'o) \<Rightarrow>
   FetchOptions \<Rightarrow> error + 'o list" where
  "fetchPurchaseSessions runQuery project opts =
     (let truncateStrings = (case fo_truncateStrings opts of None \<Rightarrow> True | Some b \<Rightarrow> b);
          effectivePageSize = (case fo_pageSize opts of
             Some ps \<Rightarrow> if ps > 0 then min ps MAX_ROWS else DEFAULT_LIMIT
           | None \<Rightarrow> DEFAULT_LIMIT);
          effectivePage = (case fo_page opts of
             Some pg \<Rightarrow> if pg > 0 then pg else DEFAULT_PAGE
           | None \<Rightarrow> DEFAULT_PAGE);
          effectiveLimit = (case fo_limit opts of
             Some l \<Rightarrow> if l > 0 then min l MAX_ROWS else effectivePageSize
           | None \<Rightarrow> effectivePageSize);
          offset = (effectivePage - 1) * effectivePageSize
      in case runQuery (fo_startDate opts) (fo_endDate opts) effectiveLimit offset of
           Inl e \<Rightarrow> Inl e
         | Inr rows \<Rightarrow> Inr (map (project truncateStrings) rows))"

definition tableQuery :: "'r list \<Rightarrow> string option \<Rightarrow> string option \<Rightarrow> int \<Rightarrow> int \<Rightarrow> error + 'r list" where
  "tableQuery avail sd ed rowLimit offset = Inr (take (nat rowLimit) (drop (nat offset) avail))"

function accumulatePages ::
  "(int \<Rightarrow> error + 'o list) \<Rightarrow> int \<Rightarrow> int \<Rightarrow> 'o list \<Rightarrow> int \<Rightarrow> error + ('o list \<times> (int \<times> 'o list) list)" where
  "accumulatePages fetchPage target perPage rows currentPage =
     (if int (length rows) < target then
        (case fetchPage currentPage of
           Inl e \<Rightarrow> Inl e
         | Inr batch \<Rightarrow>
             if batch = [] then Inr (rows, [(currentPage, batch)])
             else if int (length batch) < perPage then Inr (rows @ batch, [(currentPage, batch)])
             else (case accumulatePages fetchPage target perPage (rows @ batch) (currentPage + 1) of
                     Inl e \<Rightarrow> Inl e
                   | Inr (rows', calls) \<Rightarrow> Inr (rows', (currentPage, batch) # calls)))
      else Inr (rows, []))"
  by pat_completeness auto
termination
  by (relation "measure (\<lambda>(fetchPage, target, perPage, rows, currentPage). nat (target - int (length rows)))")
     auto

declare accumulatePages.simps [simp del]

record ToolContext =
  tc_startDate :: "string option"
  tc_endDate :: "string option"
  tc_limit :: "int option"
  tc_page :: "int option"
  tc_pageSize :: "int option"
  tc_fetchAllPages :: bool
  tc_truncateStrings :: "bool option"

definition pageFetcher :: "(FetchOptions \<Rightarrow> error + 'o list) \<Rightarrow> ToolContext \<Rightarrow> int \<Rightarrow> int \<Rightarrow> error + 'o list" where
  "pageFetcher fetcher ctx perPage currentPage =
     fetcher \<lparr>fo_startDate = tc_startDate ctx, fo_endDate = tc_endDate ctx,
              fo_limit = Some perPage, fo_page = Some currentPage, fo_pageSize = Some perPage,
              fo_truncateStrings = tc_truncateStrings ctx\<rparr>"

definition executeTrace ::
  "(FetchOptions \<Rightarrow> error + 'o list) \<Rightarrow> ToolContext \<Rightarrow> error + ('o list \<times> (int \<times> 'o list) list)" where
  "executeTrace fetcher ctx =
     (let currentPage = (case tc_page ctx of None \<Rightarrow> 1 | Some p \<Rightarrow> p);
          target = (case tc_limit ctx of None \<Rightarrow> 100 | Some l \<Rightarrow> l);
          perPage = (case tc_pageSize ctx of None \<Rightarrow> 100 | Some ps \<Rightarrow> ps)
      in case accumulatePages (pageFetcher fetcher ctx perPage) target perPage [] currentPage of
           Inl e \<Rightarrow> Inl e
         | Inr (rows, calls) \<Rightarrow> Inr (slice0 target rows, calls))"

definition execute :: "(FetchOptions \<Rightarrow> error + 'o list) \<Rightarrow> ToolContext \<Rightarrow> error + 'o list" where
  "execute fetcher ctx =
     (if \<not> tc_fetchAllPages ctx then
        fetcher \<lparr>fo_startDate = tc_startDate ctx, fo_endDate = tc_endDate ctx,
                 fo_limit = tc_limit ctx, fo_page = tc_page ctx, fo_pageSize = tc_pageSize ctx,
                 fo_truncateStrings = tc_truncateStrings ctx\<rparr>
      else map_sum id fst (executeTrace fetcher ctx))"


definition ctxPage :: "ToolContext \<Rightarrow> int" where
  "ctxPage ctx = (case tc_page ctx of None \<Rightarrow> 1 | Some p \<Rightarrow> p)"

definition ctxTarget :: "ToolContext \<Rightarrow> int" where
  "ctxTarget ctx = (case tc_limit ctx of None \<Rightarrow> 100 | Some l \<Rightarrow> l)"

definition ctxPerPage :: "ToolContext \<Rightarrow> int" where
  "ctxPerPage ctx = (case tc_pageSize ctx of None \<Rightarrow> 100 | Some ps \<Rightarrow> ps)"

section \<open>JavaScript numbers\<close>

text \<open>
  A JavaScript number is an IEEE double; the model computes with exact rationals. Minor-unit
  amounts are integers, and for an integer \<open>a\<close> the double \<open>a / 100\<close> is the one nearest
  to the exact quotient, which is the value the model gives.

  \<open>Number(x.toFixed(2))\<close>: the nearest multiple of 1/100, a tie going away from zero.
\<close>

definition toFixed2 :: "rat \<Rightarrow> rat" where
  "toFixed2 x = (if x < 0 then - (of_int \<lfloor>(- x) * 100 + 1 / 2\<rfloor> / 100)
                 else of_int \<lfloor>x * 100 + 1 / 2\<rfloor> / 100)"

section \<open>Minor and major currency units (Stripe analytics tools)\<close>

definition ZERO_DECIMAL_CURRENCIES :: "string list" where
  "ZERO_DECIMAL_CURRENCIES =
     [''bif'', ''clp'', ''djf'', ''gnf'', ''jpy'', ''kmf'', ''krw'', ''mga'', ''pyg'', ''rwf'',
      ''ugx'', ''vnd'', ''vuv'', ''xaf'', ''xof'', ''xpf'']"

definition convertToMajorUnits :: "rat \<Rightarrow> string \<Rightarrow> rat" where
  "convertToMajorUnits amount currency =
     (let divisor = (if toLowerCase currency \<in> set ZERO_DECIMAL_CURRENCIES then 1 else 100)
      in toFixed2 (amount / divisor))"

section \<open>More string operations\<close>

text \<open>\<open>s.startsWith(p)\<close>, \<open>s.endsWith(p)\<close> and \<open>s.includes(p)\<close>.\<close>

definition startsWith :: "string \<Rightarrow> string \<Rightarrow> bool" where
  "startsWith s p = (take (length p) s = p)"

definition endsWith :: "string \<Rightarrow> string \<Rightarrow> bool" where
  "endsWith s p = (length p \<le> length s \<and> drop (length s - length p) s = p)"

fun strIncludes :: "string \<Rightarrow> string \<Rightarrow> bool" where
  "strIncludes [] p = (p = [])"
| "strIncludes (c # s) p = (startsWith (c # s) p \<or> strIncludes s p)"

text \<open>\<open>s.trim()\<close>, for the ASCII white space and line terminators.\<close>

definition isSpace :: "char \<Rightarrow> bool" where
  "isSpace c = (c \<in> set [CHR 0x09, CHR 0x0A, CHR 0x0B, CHR 0x0C, CHR 0x0D, CHR 0x20])"

definition trim :: "string \<Rightarrow> string" where
  "trim s = rev (dropWhile isSpace (rev (dropWhile isSpace s)))"

text \<open>
  \<open>Number.parseFloat(s)\<close>, as far as the code looks at its result: \<open>None\<close> when the
  result is not finite (\<open>NaN\<close>, or an infinity: the literal \<open>Infinity\<close> or a decimal
  beyond the range of a double), else the value of the longest prefix that is a decimal
  literal.
\<close>

definition exponentPart :: "string \<Rightarrow> int" where
  "exponentPart r =
     (case r of
        [] \<Rightarrow> 0
      | c # r1 \<Rightarrow>
          if c = CHR ''e'' \<or> c = CHR ''E'' then
            (let neg = (r1 \<noteq> [] \<and> hd r1 = CHR ''-'');
                 r2 = (if r1 \<noteq> [] \<and> (hd r1 = CHR ''-'' \<or> hd r1 = CHR ''+'') then tl r1 else r1);
                 ds = takeWhile isDigit r2
             in if ds = [] then 0
                else if neg then - int (digitsToNat ds) else int (digitsToNat ds))
          else 0)"

definition scale10 :: "rat \<Rightarrow> int \<Rightarrow> rat" where
  "scale10 m e = (if 0 \<le> e then m * 10 ^ nat e else m / 10 ^ nat (- e))"

definition parseFloat :: "string \<Rightarrow> rat option" where
  "parseFloat s =
     (let t = dropWhile isSpace s;
          neg = (t \<noteq> [] \<and> hd t = CHR ''-'');
          u = (if t \<noteq> [] \<and> (hd t = CHR ''-'' \<or> hd t = CHR ''+'') then tl t else t)
      in if startsWith u ''Infinity'' then None
         else
           (let ip = takeWhile isDigit u;
                r1 = dropWhile isDigit u;
                hasDot = (r1 \<noteq> [] \<and> hd r1 = CHR ''.'');
                fp = (if hasDot then takeWhile isDigit (tl r1) else []);
                r2 = (if hasDot then dropWhile isDigit (tl r1) else r1)
            in if ip = [] \<and> fp = [] then None
               else
                 (let m = of_nat (digitsToNat ip) + of_nat (digitsToNat fp) / 10 ^ length fp;
                      v = scale10 m (exponentPart r2)
                  in if v \<ge> 2 ^ 1024 - 2 ^ 970 then None
                     else Some (if neg then - v else v))))"

section \<open>The PayPal charge tool (wallet ledger adapter)\<close>

text \<open>
  The transaction details as the PayPal reporting API returns them. Every field may be
  absent or \<open>null\<close>; only the fields the adapter reads are kept.
\<close>

record PaypalPhone =
  national_number :: "string option"
  extension_number :: "string option"

record PaypalAddress =
  addr_city :: "string option"
  addr_country_code :: "string option"
  addr_admin_area_2 :: "string option"

record PaypalAmount =
  currency_code :: "string option"
  amount_value :: "string option"

record TransactionInfo =
  transaction_id :: "string option"
  transaction_event_code :: "string option"
  transaction_event_code_description :: "string option"
  transaction_status :: "string option"
  transaction_initiation_date :: "string option"
  transaction_amount :: "PaypalAmount option"
  invoice_id :: "string option"
  custom_field :: "string option"

record PayerInfo =
  email_address :: "string option"
  phone :: "string option"
  phone_number :: "PaypalPhone option"
  payer_country_code :: "string option"
  payer_address :: "PaypalAddress option"

record ShippingInfo =
  shipping_address :: "PaypalAddress option"

record PaypalTransactionDetail =
  transaction_info :: "TransactionInfo option"
  payer_info :: "PayerInfo option"
  shipping_info :: "ShippingInfo option"

text \<open>
  \<open>CardInfoRecord\<close>. The fields \<open>provider\<close> (always \<open>'paypal'\<close>) and the card fields that
  are always \<open>null\<close> are kept; \<open>orderId\<close> and \<open>transactionId\<close> are strings, not nullable.
\<close>

record CardInfoRecord =
  provider :: string
  orderId :: string
  transactionId :: string
  amountMinor :: int
  amountMajor :: rat
  createdAtUtc :: string
  recordStatus :: "string option"
  recordCurrency :: "string option"
  customerEmail :: "string option"
  customerPhone :: "string option"
  city :: "string option"
  addressCountry :: "string option"
  issueCountry :: "string option"
  cardBrand :: "string option"
  cardFunding :: "string option"
  cardTokenization :: "string option"
  cardLast4 :: "string option"
  avsLine1 :: "string option"
  avsZip :: "string option"
  cvcStatus :: "string option"

definition EXPRESS_CHECKOUT_EVENT_CODES :: "string list" where
  "EXPRESS_CHECKOUT_EVENT_CODES = [''T0006'', ''T1106'', ''T1006'']"

definition toNullableString :: "string option \<Rightarrow> string option" where
  "toNullableString v =
     (case v of None \<Rightarrow> None
      | Some s \<Rightarrow> if s = [] then None
                  else (let trimmed = trim s in if length trimmed > 0 then Some trimmed else None))"

definition toUpper :: "string option \<Rightarrow> string option" where
  "toUpper v = (case toNullableString v of None \<Rightarrow> None | Some s \<Rightarrow> Some (toUpperCase s))"

text \<open>\<open>a ?? b\<close> on nullable values.\<close>

definition orElse :: "'a option \<Rightarrow> 'a option \<Rightarrow> 'a option" where
  "orElse a b = (case a of None \<Rightarrow> b | Some x \<Rightarrow> Some x)"

text \<open>\<open>normalizePhone\<close> on the \<open>phone_number\<close> object and on the \<open>phone\<close> string.\<close>

definition normalizePhoneObject :: "PaypalPhone option \<Rightarrow> string option" where
  "normalizePhoneObject ph =
     (case ph of None \<Rightarrow> None
      | Some p \<Rightarrow>
          (let national = toNullableString (national_number p);
               extension = toNullableString (extension_number p)
           in case (national, extension) of
                (Some n, Some e) \<Rightarrow> Some (n @ '' ext '' @ e)
              | _ \<Rightarrow> orElse national extension))"

definition normalizePhoneString :: "string option \<Rightarrow> string option" where
  "normalizePhoneString ph =
     (case ph of None \<Rightarrow> None | Some s \<Rightarrow> if s = [] then None else toNullableString (Some s))"

definition isExpressCheckoutPayment :: "PaypalTransactionDetail \<Rightarrow> bool" where
  "isExpressCheckoutPayment detail =
     (let codeRaw = (case transaction_info detail of None \<Rightarrow> None
                     | Some i \<Rightarrow> transaction_event_code i);
          description = (case transaction_info detail of None \<Rightarrow> None
                     | Some i \<Rightarrow> transaction_event_code_description i)
      in if (case codeRaw of None \<Rightarrow> False
             | Some c \<Rightarrow> c \<noteq> [] \<and> toUpperCase c \<in> set EXPRESS_CHECKOUT_EVENT_CODES)
         then True
         else (case description of None \<Rightarrow> False
               | Some d \<Rightarrow> strIncludes (toLowerCase d) ''express checkout payment''))"

definition normalizeAmount :: "PaypalAmount option \<Rightarrow> int \<times> rat" where
  "normalizeAmount transactionAmount =
     (let valueRaw = (case transactionAmount of None \<Rightarrow> None | Some a \<Rightarrow> amount_value a);
          currency = (case transactionAmount of None \<Rightarrow> None | Some a \<Rightarrow> currency_code a);
          numeric = (case valueRaw of None \<Rightarrow> None | Some v \<Rightarrow> parseFloat v);
          normalizedCurrency = (case toUpper currency of None \<Rightarrow> ''USD'' | Some c \<Rightarrow> c)
      in case numeric of
           None \<Rightarrow> (0, 0)
         | Some n \<Rightarrow>
             if n < 0 then (0, 0)
             else
               (let divisor = (if toLowerCase normalizedCurrency \<in> set ZERO_DECIMAL_CURRENCIES
                               then 1 else 100);
                    minor = \<lfloor>n * of_int divisor + 1 / 2\<rfloor>;
                    major = toFixed2 (of_int minor / of_int divisor)
                in (minor, major)))"

text \<open>
  \<open>mapPaypalTransactionToCardInfo\<close>. \<open>parseDate\<close> is the \<open>Date\<close> constructor on a string
  (\<open>None\<close> for an invalid date, on which \<open>toISOString\<close> throws a \<open>RangeError\<close>) and \<open>now\<close>
  the current time.
\<close>

definition mapPaypalTransactionToCardInfo ::
  "(string \<Rightarrow> int option) \<Rightarrow> int \<Rightarrow> PaypalTransactionDetail \<Rightarrow> error + CardInfoRecord option" where
  "mapPaypalTransactionToCardInfo parseDate now detail =
     (if \<not> isExpressCheckoutPayment detail then Inr None
      else
        (let info = transaction_info detail;
             payer = payer_info detail;
             shipping = shipping_info detail;
             amt = normalizeAmount (case info of None \<Rightarrow> None | Some i \<Rightarrow> transaction_amount i)
         in case toNullableString (case info of None \<Rightarrow> None | Some i \<Rightarrow> transaction_id i) of
              None \<Rightarrow> Inr None
            | Some txId \<Rightarrow>
               (case orElse (toNullableString (case info of None \<Rightarrow> None | Some i \<Rightarrow> invoice_id i))
                            (toNullableString (case info of None \<Rightarrow> None | Some i \<Rightarrow> custom_field i)) of
                  None \<Rightarrow> Inr None
                | Some ordId \<Rightarrow>
                   (let initiationDate =
                          (case (case info of None \<Rightarrow> None | Some i \<Rightarrow> transaction_initiation_date i) of
                             None \<Rightarrow> Some now
                           | Some d \<Rightarrow> if d = [] then Some now else parseDate d);
                        shippingAddress =
                          orElse (case shipping of None \<Rightarrow> None | Some s \<Rightarrow> shipping_address s)
                                 (case payer of None \<Rightarrow> None | Some p \<Rightarrow> payer_address p)
                    in case initiationDate of
                         None \<Rightarrow> Inl (Error ''RangeError: Invalid time value'')
                       | Some t \<Rightarrow>
                           Inr (Some
                             \<lparr>provider = ''paypal'',
                              orderId = ordId,
                              transactionId = txId,
                              amountMinor = fst amt,
                              amountMajor = snd amt,
                              createdAtUtc = toISOString t,
                              recordStatus = toNullableString
                                (case info of None \<Rightarrow> None | Some i \<Rightarrow> transaction_status i),
                              recordCurrency = toUpper
                                (case info of None \<Rightarrow> None
                                 | Some i \<Rightarrow> (case transaction_amount i of None \<Rightarrow> None
                                             | Some a \<Rightarrow> currency_code a)),
                              customerEmail = toNullableString
                                (case payer of None \<Rightarrow> None | Some p \<Rightarrow> email_address p),
                              customerPhone = orElse
                                (normalizePhoneObject
                                   (case payer of None \<Rightarrow> None | Some p \<Rightarrow> phone_number p))
                                (normalizePhoneString
                                   (case payer of None \<Rightarrow> None | Some p \<Rightarrow> phone p)),
                              city = orElse
                                (toNullableString
                                   (case shippingAddress of None \<Rightarrow> None | Some a \<Rightarrow> addr_city a))
                                (toNullableString
                                   (case shippingAddress of None \<Rightarrow> None
                                    | Some a \<Rightarrow> addr_admin_area_2 a)),
                              addressCountry = orElse
                                (toUpper
                                   (case shippingAddress of None \<Rightarrow> None
                                    | Some a \<Rightarrow> addr_country_code a))
                                (toUpper
                                   (case payer of None \<Rightarrow> None | Some p \<Rightarrow> payer_country_code p)),
                              issueCountry = None, cardBrand = None, cardFunding = None,
                              cardTokenization = None, cardLast4 = None, avsLine1 = None,
                              avsZip = None, cvcStatus = None\<rparr>)))))"

text \<open>
  \<open>transactions.map(mapPaypalTransactionToCardInfo).filter(record => record !== null)\<close>:
  the first throw ends the map.
\<close>

fun mapRecords ::
  "(string \<Rightarrow> int option) \<Rightarrow> int \<Rightarrow> PaypalTransactionDetail list \<Rightarrow> error + CardInfoRecord list" where
  "mapRecords parseDate now [] = Inr []"
| "mapRecords parseDate now (d # ds) =
     (case mapPaypalTransactionToCardInfo parseDate now d of
        Inl e \<Rightarrow> Inl e
      | Inr r \<Rightarrow>
          (case mapRecords parseDate now ds of
             Inl e \<Rightarrow> Inl e
           | Inr rs \<Rightarrow> Inr (case r of None \<Rightarrow> rs | Some x \<Rightarrow> x # rs)))"

text \<open>
  \<open>fetchPaypalCardInfo\<close>. The HTTP client \<open>fetchPaypalTransactions(start, end)\<close> is the
  parameter \<open>fetchTransactions\<close>: it returns the transaction details of the window or
  throws.
\<close>

definition fetchPaypalCardInfo ::
  "(int \<Rightarrow> int \<Rightarrow> error + PaypalTransactionDetail list) \<Rightarrow> (string \<Rightarrow> int option) \<Rightarrow> int \<Rightarrow>
   int \<Rightarrow> int \<Rightarrow> error + CardInfoRecord list" where
  "fetchPaypalCardInfo fetchTransactions parseDate now start en =
     (case fetchTransactions start en of
        Inl e \<Rightarrow> Inl e
      | Inr transactions \<Rightarrow> mapRecords parseDate now transactions)"

text \<open>\<open>/^(\d{4})-(\d{2})-(\d{2})$/\<close> and \<open>parseDate(date, field, isStart)\<close>.\<close>

definition parseDate :: "string \<Rightarrow> string \<Rightarrow> bool \<Rightarrow> error + int" where
  "parseDate date field isStart =
     (if \<not> ISO_DATE_REGEX_test date
      then Inl (Error (''Invalid '' @ field @ '' supplied. Expected format YYYY-MM-DD, received: '' @ date))
      else
        (let year = int (digitsToNat (take 4 date));
             monthIndex = int (digitsToNat (take 2 (drop 5 date))) - 1;
             day = int (digitsToNat (drop 8 date))
         in Inr (if isStart then Date_UTC year monthIndex day 0 0 0 0
                 else Date_UTC year monthIndex day 23 59 59 999)))"

definition parseDateRange :: "string \<Rightarrow> string \<Rightarrow> error + (int \<times> int)" where
  "parseDateRange startDateArg endDateArg =
     (case parseDate startDateArg ''startDate'' True of Inl e \<Rightarrow> Inl e | Inr start \<Rightarrow>
      case parseDate endDateArg ''endDate'' False of Inl e \<Rightarrow> Inl e | Inr en \<Rightarrow>
        if en < start then Inl (Error ''endDate must be after startDate'') else Inr (start, en))"

text \<open>\<open>paypalChargeTool.execute\<close>: the body of the \<open>try\<close>, and the \<open>catch\<close> around it.\<close>

definition paypalChargeTool_try ::
  "(int \<Rightarrow> int \<Rightarrow> error + PaypalTransactionDetail list) \<Rightarrow> (string \<Rightarrow> int option) \<Rightarrow> int \<Rightarrow>
   string \<Rightarrow> string \<Rightarrow> error + CardInfoRecord list" where
  "paypalChargeTool_try fetchTransactions parseDateJS now startDateArg endDateArg =
     (case parseDateRange startDateArg endDateArg of
        Inl e \<Rightarrow> Inl e
      | Inr (start, en) \<Rightarrow> fetchPaypalCardInfo fetchTransactions parseDateJS now start en)"

definition paypalChargeTool_execute ::
  "(int \<Rightarrow> int \<Rightarrow> error + PaypalTransactionDetail list) \<Rightarrow> (string \<Rightarrow> int option) \<Rightarrow> int \<Rightarrow>
   string \<Rightarrow> string \<Rightarrow> error + CardInfoRecord list" where
  "paypalChargeTool_execute fetchTransactions parseDateJS now startDateArg endDateArg =
     (case paypalChargeTool_try fetchTransactions parseDateJS now startDateArg endDateArg of
        Inl e \<Rightarrow> Inr []
      | Inr records \<Rightarrow> Inr records)"
text \<open>A field of \<open>detail.transaction_info\<close>, absent when the object is.\<close>

definition infoOf :: "PaypalTransactionDetail \<Rightarrow> (TransactionInfo \<Rightarrow> 'a option) \<Rightarrow> 'a option" where
  "infoOf d f = (case transaction_info d of None \<Rightarrow> None | Some i \<Rightarrow> f i)"

section \<open>The Stripe charge tool (card ledger adapter)\<close>

record CardSummary =
  brand :: "string option"
  country :: "string option"
  exp_month :: "int option"
  exp_year :: "int option"
  last4 :: "string option"
  funding :: "string option"

text \<open>
  A charge as the Stripe API lists it (the fields the adapter reads). \<open>customer\<close> is an
  identifier, an expanded object carrying one, or \<open>null\<close>.
\<close>

datatype CustomerRef = CustomerId string | CustomerObject string

record StripeCharge =
  sc_id :: string
  sc_amount :: int
  sc_currency :: string
  sc_status :: string
  sc_description :: "string option"
  sc_customer :: "CustomerRef option"
  sc_created :: int
  sc_refunded :: "bool option"
  sc_receipt_url :: "string option"
  sc_card :: "CardSummary option"
  sc_metadata :: "(string \<times> string) list"

text \<open>
  \<open>ChargeSummary\<close>, without the opaque \<open>paymentMethodDetails\<close> object that is passed
  through; \<open>chargeId\<close> is its \<open>id\<close>.
\<close>

record ChargeSummary =
  chargeId :: string
  amount :: int
  currency :: string
  status :: "string option"
  description :: "string option"
  customerId :: "string option"
  created :: int
  refunded :: bool
  receiptUrl :: "string option"
  card :: "CardSummary option"
  metadata :: "(string \<times> string) list"
  metadataAmounts :: "(string \<times> rat) list"

definition parseDateToUnix :: "string \<Rightarrow> string \<Rightarrow> error + int" where
  "parseDateToUnix date field =
     (if \<not> ISO_DATE_REGEX_test date
      then Inl (Error (''Invalid '' @ field @ '' supplied. Expected format YYYY-MM-DD, received: '' @ date))
      else
        (let year = int (digitsToNat (take 4 date));
             monthIndex = int (digitsToNat (take 2 (drop 5 date))) - 1;
             day = int (digitsToNat (drop 8 date));
             utcMs = (if field = ''startDate'' then Date_UTC year monthIndex day 0 0 0 0
                      else Date_UTC year monthIndex day 23 59 59 999)
         in Inr (utcMs div 1000)))"

definition toCardSummary :: "CardSummary option \<Rightarrow> CardSummary option" where
  "toCardSummary c =
     (case c of None \<Rightarrow> None
      | Some k \<Rightarrow> Some \<lparr>brand = brand k, country = country k, exp_month = exp_month k,
                        exp_year = exp_year k, last4 = last4 k, funding = funding k\<rparr>)"

definition CENT_VALUE_KEYS :: "string list" where
  "CENT_VALUE_KEYS =
     [''gross'', ''net'', ''product_gross'', ''product_net'', ''product_total'',
      ''total_additions'', ''total_cuts'', ''price'', ''amount'', ''subtotal'', ''tax'', ''fee'']"

definition CENT_SUFFIXES :: "string list" where
  "CENT_SUFFIXES =
     [''_gross'', ''_net'', ''_total'', ''_amount'', ''_price'', ''_subtotal'', ''_tax'', ''_fee'']"

definition isCentKey :: "string \<Rightarrow> bool" where
  "isCentKey k =
     (let normalized = toLowerCase k
      in if normalized \<in> set CENT_VALUE_KEYS then True
         else list_ex (\<lambda>suffix. endsWith normalized suffix) CENT_SUFFIXES)"

text \<open>
  \<open>extractMetadataAmounts\<close>. \<open>toNumber\<close> is \<open>Number(value)\<close> on a string, \<open>None\<close> for
  \<open>NaN\<close>. An assignment \<open>amounts[key] = v\<close> replaces the entry of the key or appends one.
\<close>

definition extractMetadataAmounts ::
  "(string \<Rightarrow> rat option) \<Rightarrow> (string \<times> string) list \<Rightarrow> (string \<times> rat) list" where
  "extractMetadataAmounts toNumber md =
     foldl (\<lambda>amounts (k, v).
              if v = [] then amounts
              else if \<not> isCentKey k then amounts
              else (case toNumber v of
                      None \<Rightarrow> amounts
                    | Some numeric \<Rightarrow> AList.update k (numeric / 100) amounts))
       [] md"

definition toChargeSummary :: "(string \<Rightarrow> rat option) \<Rightarrow> StripeCharge \<Rightarrow> ChargeSummary" where
  "toChargeSummary toNumber charge =
     \<lparr>chargeId = sc_id charge,
      amount = sc_amount charge,
      currency = sc_currency charge,
      status = Some (sc_status charge),
      description = sc_description charge,
      customerId = (case sc_customer charge of
                      None \<Rightarrow> None
                    | Some (CustomerId s) \<Rightarrow> Some s
                    | Some (CustomerObject s) \<Rightarrow> Some s),
      created = sc_created charge,
      refunded = (case sc_refunded charge of None \<Rightarrow> False | Some b \<Rightarrow> b),
      receiptUrl = sc_receipt_url charge,
      card = toCardSummary (sc_card charge),
      metadata = sc_metadata charge,
      metadataAmounts = extractMetadataAmounts toNumber (sc_metadata charge)\<rparr>"

text \<open>
  \<open>getStripeCharges\<close>: the body of its \<open>try\<close>, and the \<open>catch\<close> around it, which logs the
  error and returns the empty list. \<open>listCharges\<close> is the Stripe client,
  \<open>stripe.charges.list\<close> over the window, iterated to its end: it returns the charges or
  throws.
\<close>

definition getStripeCharges_try ::
  "(int \<Rightarrow> int \<Rightarrow> error + StripeCharge list) \<Rightarrow> (string \<Rightarrow> rat option) \<Rightarrow> string \<Rightarrow> string \<Rightarrow>
   error + ChargeSummary list" where
  "getStripeCharges_try listCharges toNumber startDateArg endDateArg =
     (case parseDateToUnix startDateArg ''startDate'' of Inl e \<Rightarrow> Inl e | Inr startTimestamp \<Rightarrow>
      case parseDateToUnix endDateArg ''endDate'' of Inl e \<Rightarrow> Inl e | Inr endTimestamp \<Rightarrow>
        if endTimestamp < startTimestamp then Inl (Error ''endDate must be after startDate'')
        else (case listCharges startTimestamp endTimestamp of
                Inl e \<Rightarrow> Inl e
              | Inr raw \<Rightarrow>
                  Inr (map (toChargeSummary toNumber)
                         (filter (\<lambda>charge. sc_status charge = ''succeeded'') raw))))"

definition getStripeCharges ::
  "(int \<Rightarrow> int \<Rightarrow> error + StripeCharge list) \<Rightarrow> (string \<Rightarrow> rat option) \<Rightarrow> string \<Rightarrow> string \<Rightarrow>
   error + ChargeSummary list" where
  "getStripeCharges listCharges toNumber startDateArg endDateArg =
     (case getStripeCharges_try listCharges toNumber startDateArg endDateArg of
        Inl e \<Rightarrow> Inr []
      | Inr charges \<Rightarrow> Inr charges)"

text \<open>\<open>stripeChargeTool.execute\<close> returns what \<open>getStripeCharges\<close> returns.\<close>

definition stripeChargeTool_execute ::
  "(int \<Rightarrow> int \<Rightarrow> error + StripeCharge list) \<Rightarrow> (string \<Rightarrow> rat option) \<Rightarrow> string \<Rightarrow> string \<Rightarrow>
   error + ChargeSummary list" where
  "stripeChargeTool_execute listCharges toNumber startDateArg endDateArg =
     getStripeCharges listCharges toNumber startDateArg endDateArg"

section \<open>Formatting\<close>

text \<open>
  \<open>array.sort((a, b) => key(b) - key(a))\<close>: a stable sort, descending in the key.
\<close>

definition sortDesc :: "('a \<Rightarrow> rat) \<Rightarrow> 'a list \<Rightarrow> 'a list" where
  "sortDesc k xs = sort_key (\<lambda>x. - k x) xs"

text \<open>
  \<open>value.toLocaleString('en-US', {minimumFractionDigits: 2, maximumFractionDigits: 2})\<close>:
  two fraction digits, a tie rounded away from zero, the integer part grouped by
  thousands.
\<close>

fun group3 :: "string \<Rightarrow> string" where
  "group3 (a # b # c # d # rest) = a # b # c # CHR '','' # group3 (d # rest)"
| "group3 ds = ds"

definition groupThousands :: "string \<Rightarrow> string" where
  "groupThousands ds = rev (group3 (rev ds))"

definition formatMajor :: "rat \<Rightarrow> string" where
  "formatMajor x =
     (let n = nat \<lfloor>\<bar>x\<bar> * 100 + 1 / 2\<rfloor>
      in (if x < 0 then ''-'' else '''') @ groupThousands (natToString (n div 100)) @ ''.'' @
         padStart0 2 (n mod 100))"

text \<open>\<open>parts.join(', ')\<close>.\<close>

fun joinComma :: "string list \<Rightarrow> string" where
  "joinComma [] = []"
| "joinComma [s] = s"
| "joinComma (s # t # ss) = s @ '', '' @ joinComma (t # ss)"

section \<open>Revenue rollups of the Stripe analytics tools\<close>

text \<open>
  Both analytics modules declare functions and fields of the same names; the Stripe ones
  keep the names of the source with a short prefix on the fields, the PayPal ones carry
  \<open>paypal\<close> in their names. A \<open>Map\<close> is an association list in insertion order:
  \<open>map.get(k)\<close> is \<open>map_of m k\<close> and \<open>map.set(k, v)\<close> is \<open>AList.update k v m\<close>.
\<close>

record CurrencyEntry =
  ce_chargeCount :: nat
  ce_refundedCount :: nat
  ce_grossAmountMinor :: int

record CurrencyBreakdown =
  cb_currency :: string
  cb_chargeCount :: nat
  cb_refundedCount :: nat
  cb_grossAmountMinor :: int
  cb_grossAmountMajor :: rat
  cb_averageTicketMajor :: "rat option"

definition currencyStep :: "(string \<times> CurrencyEntry) list \<Rightarrow> ChargeSummary \<Rightarrow> (string \<times> CurrencyEntry) list" where
  "currencyStep m charge =
     (let cur = toLowerCase (currency charge);
          entry = (case map_of m cur of
                     None \<Rightarrow> \<lparr>ce_chargeCount = 0, ce_refundedCount = 0, ce_grossAmountMinor = 0\<rparr>
                   | Some e \<Rightarrow> e)
      in AList.update cur
           \<lparr>ce_chargeCount = ce_chargeCount entry + 1,
            ce_refundedCount = ce_refundedCount entry + (if refunded charge then 1 else 0),
            ce_grossAmountMinor = ce_grossAmountMinor entry + amount charge\<rparr> m)"

definition toBreakdown :: "string \<times> CurrencyEntry \<Rightarrow> CurrencyBreakdown" where
  "toBreakdown p =
     (let cur = fst p; entry = snd p;
          grossAmountMajor = convertToMajorUnits (of_int (ce_grossAmountMinor entry)) cur
      in \<lparr>cb_currency = cur,
          cb_chargeCount = ce_chargeCount entry,
          cb_refundedCount = ce_refundedCount entry,
          cb_grossAmountMinor = ce_grossAmountMinor entry,
          cb_grossAmountMajor = grossAmountMajor,
          cb_averageTicketMajor =
            (if ce_chargeCount entry > 0
             then Some (toFixed2 (grossAmountMajor / of_nat (ce_chargeCount entry)))
             else None)\<rparr>)"

definition aggregateByCurrency :: "ChargeSummary list \<Rightarrow> CurrencyBreakdown list" where
  "aggregateByCurrency charges =
     sortDesc cb_grossAmountMajor (map toBreakdown (foldl currencyStep [] charges))"

definition mergeMetadataTotals :: "(string \<times> rat) list \<Rightarrow> (string \<times> rat) list \<Rightarrow> (string \<times> rat) list" where
  "mergeMetadataTotals base addition =
     foldl (\<lambda>merged (k, v).
              AList.update k ((case map_of merged k of None \<Rightarrow> 0 | Some t \<Rightarrow> t) + v) merged)
       base addition"

definition sumMajorAmount :: "ChargeSummary list \<Rightarrow> rat" where
  "sumMajorAmount charges =
     toFixed2 (foldl (\<lambda>acc charge. acc + convertToMajorUnits (of_int (amount charge)) (currency charge))
                 0 charges)"

record CustomerEntry =
  cu_chargeCount :: nat
  cu_grossAmountMinor :: int
  cu_lastChargeCreated :: int
  cu_lastChargeId :: string
  cu_charges :: "ChargeSummary list"
  cu_metadataTotals :: "(string \<times> rat) list"

record TopCustomer =
  top_customerId :: string
  top_chargeCount :: nat
  top_grossAmountMinor :: int
  top_grossAmountMajor :: rat
  top_lastChargeId :: string
  top_lastChargeCreated :: int
  top_currencyBreakdown :: "CurrencyBreakdown list"
  top_metadataTotals :: "(string \<times> rat) list"

record TopCustomersSummary =
  out_range :: DateRange
  out_totalCustomers :: nat
  out_topCustomers :: "TopCustomer list"
  out_insights :: "string list"

definition customerStep :: "(string \<times> CustomerEntry) list \<Rightarrow> ChargeSummary \<Rightarrow> (string \<times> CustomerEntry) list" where
  "customerStep m charge =
     (let cid = (case customerId charge of None \<Rightarrow> ''unknown'' | Some c \<Rightarrow> c)
      in case map_of m cid of
           None \<Rightarrow>
             AList.update cid
               \<lparr>cu_chargeCount = 1,
                cu_grossAmountMinor = amount charge,
                cu_lastChargeCreated = created charge,
                cu_lastChargeId = chargeId charge,
                cu_charges = [charge],
                cu_metadataTotals = metadataAmounts charge\<rparr> m
         | Some existing \<Rightarrow>
             (let newer = (created charge > cu_lastChargeCreated existing)
              in AList.update cid
                   \<lparr>cu_chargeCount = cu_chargeCount existing + 1,
                    cu_grossAmountMinor = cu_grossAmountMinor existing + amount charge,
                    cu_lastChargeCreated =
                      (if newer then created charge else cu_lastChargeCreated existing),
                    cu_lastChargeId = (if newer then chargeId charge else cu_lastChargeId existing),
                    cu_charges = cu_charges existing @ [charge],
                    cu_metadataTotals =
                      mergeMetadataTotals (cu_metadataTotals existing) (metadataAmounts charge)\<rparr> m))"

definition toTopCustomer :: "string \<times> CustomerEntry \<Rightarrow> TopCustomer" where
  "toTopCustomer p =
     (let cid = fst p; entry = snd p
      in \<lparr>top_customerId = cid,
          top_chargeCount = cu_chargeCount entry,
          top_grossAmountMinor = cu_grossAmountMinor entry,
          top_grossAmountMajor = sumMajorAmount (cu_charges entry),
          top_lastChargeId = cu_lastChargeId entry,
          top_lastChargeCreated = cu_lastChargeCreated entry,
          top_currencyBreakdown = aggregateByCurrency (cu_charges entry),
          top_metadataTotals = cu_metadataTotals entry\<rparr>)"

text \<open>
  \<open>formatDate(unixSeconds)\<close>: \<open>toISOString\<close> throws a \<open>RangeError\<close> on a time value
  outside the range of \<open>Date\<close>.
\<close>

definition formatDateUnix :: "int \<Rightarrow> error + string" where
  "formatDateUnix unixSeconds =
     (if \<bar>unixSeconds * 1000\<bar> > 8640000000000000
      then Inl (Error ''RangeError: Invalid time value'')
      else Inr (takeWhile (\<lambda>c. c \<noteq> CHR ''T'') (toISOString (unixSeconds * 1000))))"

text \<open>
  The two largest non-zero metadata totals, by absolute value, as \<open>key: amount\<close>.
\<close>

definition metadataHighlights :: "(string \<times> rat) list \<Rightarrow> string list" where
  "metadataHighlights totals =
     map (\<lambda>(k, v). k @ '': '' @ formatMajor v)
       (slice0 2 (sortDesc (\<lambda>(k, v). \<bar>v\<bar>) (filter (\<lambda>(k, v). v \<noteq> 0) totals)))"

definition generateTopCustomerInsights ::
  "string \<Rightarrow> string \<Rightarrow> nat \<Rightarrow> TopCustomer list \<Rightarrow> int \<Rightarrow> error + string list" where
  "generateTopCustomerInsights startDateArg endDateArg totalCustomers topCustomers limit =
     (if totalCustomers = 0
      then Inr [''No customer activity detected between '' @ startDateArg @ '' and '' @
                endDateArg @ ''.'']
      else
        (let displayedCount = length topCustomers;
             displayedGross = foldl (\<lambda>acc customer. acc + top_grossAmountMajor customer) 0 topCustomers;
             first = [natToString totalCustomers @ '' customers transacted between '' @
                      startDateArg @ '' and '' @ endDateArg @ ''; top '' @
                      natToString displayedCount @ '' accounted for '' @
                      formatMajor displayedGross @ ''.''];
             more = (if totalCustomers > displayedCount
                     then [''Only top '' @ natToString displayedCount @ '' of '' @
                           natToString totalCustomers @ '' customers shown (limit '' @
                           intToString limit @ '').'']
                     else [])
         in case topCustomers of
              [] \<Rightarrow> Inr (first @ more)
            | leader # _ \<Rightarrow>
                (case formatDateUnix (top_lastChargeCreated leader) of
                   Inl e \<Rightarrow> Inl e
                 | Inr lastChargeDate \<Rightarrow>
                     Inr (first @
                       [''Top customer '' @ top_customerId leader @ '' generated '' @
                        formatMajor (top_grossAmountMajor leader) @ '' across '' @
                        natToString (top_chargeCount leader) @ '' charges; last purchase on '' @
                        lastChargeDate @ ''.''] @
                       (case top_currencyBreakdown leader of
                          [] \<Rightarrow> []
                        | leaderCurrency # _ \<Rightarrow>
                            [top_customerId leader @ '' primarily paid in '' @
                             toUpperCase (cb_currency leaderCurrency) @ '' totaling '' @
                             formatMajor (cb_grossAmountMajor leaderCurrency) @ ''.'']) @
                       (case metadataHighlights (top_metadataTotals leader) of
                          [] \<Rightarrow> []
                        | hs \<Rightarrow> [''Key metadata for '' @ top_customerId leader @ '': '' @
                                 joinComma hs @ ''.'']) @
                       more))))"

definition buildTopCustomersSummary ::
  "string \<Rightarrow> string \<Rightarrow> ChargeSummary list \<Rightarrow> int \<Rightarrow> error + TopCustomersSummary" where
  "buildTopCustomersSummary startDateArg endDateArg charges limit =
     (let customerMap = foldl customerStep [] charges;
          customerSummaries =
            slice0 limit (sortDesc top_grossAmountMajor (map toTopCustomer customerMap))
      in case generateTopCustomerInsights startDateArg endDateArg (length customerMap)
                customerSummaries limit of
           Inl e \<Rightarrow> Inl e
         | Inr insights \<Rightarrow>
             Inr \<lparr>out_range = \<lparr>startDate = startDateArg, endDate = endDateArg\<rparr>,
                  out_totalCustomers = length customerMap,
                  out_topCustomers = customerSummaries,
                  out_insights = insights\<rparr>)"
section \<open>Revenue rollups of the PayPal analytics tools\<close>

definition isRefunded :: "string option \<Rightarrow> bool" where
  "isRefunded st =
     (case st of
        None \<Rightarrow> False
      | Some s \<Rightarrow>
          if s = [] then False
          else (let normalized = toLowerCase s
                in strIncludes normalized ''refund'' \<or> normalized = ''reversed'' \<or>
                   normalized = ''cancelled''))"

definition deriveCustomerId :: "CardInfoRecord \<Rightarrow> string" where
  "deriveCustomerId charge =
     (case customerEmail charge of
        Some e \<Rightarrow> e
      | None \<Rightarrow> (case customerPhone charge of Some p \<Rightarrow> p | None \<Rightarrow> ''unknown''))"

record PaypalCurrencyEntry =
  pce_transactionCount :: nat
  pce_refundedCount :: nat
  pce_grossAmountMinor :: int
  pce_grossAmountMajor :: rat

record PaypalCurrencyBreakdown =
  pcb_currency :: string
  pcb_transactionCount :: nat
  pcb_refundedCount :: nat
  pcb_grossAmountMinor :: int
  pcb_grossAmountMajor :: rat
  pcb_averageTicketMajor :: "rat option"

definition paypalCurrencyStep ::
  "(string \<times> PaypalCurrencyEntry) list \<Rightarrow> CardInfoRecord \<Rightarrow> (string \<times> PaypalCurrencyEntry) list" where
  "paypalCurrencyStep m charge =
     (let cur = toUpperCase (case recordCurrency charge of None \<Rightarrow> ''USD'' | Some c \<Rightarrow> c);
          entry = (case map_of m cur of
                     None \<Rightarrow> \<lparr>pce_transactionCount = 0, pce_refundedCount = 0,
                              pce_grossAmountMinor = 0, pce_grossAmountMajor = 0\<rparr>
                   | Some e \<Rightarrow> e)
      in AList.update cur
           \<lparr>pce_transactionCount = pce_transactionCount entry + 1,
            pce_refundedCount =
              pce_refundedCount entry + (if isRefunded (recordStatus charge) then 1 else 0),
            pce_grossAmountMinor = pce_grossAmountMinor entry + amountMinor charge,
            pce_grossAmountMajor = pce_grossAmountMajor entry + amountMajor charge\<rparr> m)"

definition toPaypalBreakdown :: "string \<times> PaypalCurrencyEntry \<Rightarrow> PaypalCurrencyBreakdown" where
  "toPaypalBreakdown p =
     (let cur = fst p; entry = snd p
      in \<lparr>pcb_currency = cur,
          pcb_transactionCount = pce_transactionCount entry,
          pcb_refundedCount = pce_refundedCount entry,
          pcb_grossAmountMinor = pce_grossAmountMinor entry,
          pcb_grossAmountMajor = toFixed2 (pce_grossAmountMajor entry),
          pcb_averageTicketMajor =
            (if pce_transactionCount entry > 0
             then Some (toFixed2 (pce_grossAmountMajor entry / of_nat (pce_transactionCount entry)))
             else None)\<rparr>)"

definition paypalAggregateByCurrency :: "CardInfoRecord list \<Rightarrow> PaypalCurrencyBreakdown list" where
  "paypalAggregateByCurrency charges =
     sortDesc pcb_grossAmountMajor (map toPaypalBreakdown (foldl paypalCurrencyStep [] charges))"

record PaypalCustomerEntry =
  pcu_transactionCount :: nat
  pcu_grossAmountMinor :: int
  pcu_grossAmountMajor :: rat
  pcu_lastTransactionId :: string
  pcu_lastTransactionCreated :: string
  pcu_charges :: "CardInfoRecord list"

record PaypalTopCustomer =
  ptop_customerId :: string
  ptop_transactionCount :: nat
  ptop_grossAmountMinor :: int
  ptop_grossAmountMajor :: rat
  ptop_lastTransactionId :: string
  ptop_lastTransactionCreated :: string
  ptop_currencyBreakdown :: "PaypalCurrencyBreakdown list"

record PaypalTopCustomersSummary =
  pout_range :: DateRange
  pout_totalCustomers :: nat
  pout_topCustomers :: "PaypalTopCustomer list"
  pout_insights :: "string list"

text \<open>
  \<open>new Date(a).getTime() > new Date(b).getTime()\<close>: false when either date is invalid.
  \<open>parseDateJS\<close> is the \<open>Date\<close> constructor on a string, \<open>None\<close> for an invalid date.
\<close>

definition laterThan :: "(string \<Rightarrow> int option) \<Rightarrow> string \<Rightarrow> string \<Rightarrow> bool" where
  "laterThan parseDateJS a b =
     (case (parseDateJS a, parseDateJS b) of (Some x, Some y) \<Rightarrow> x > y | _ \<Rightarrow> False)"

definition paypalCustomerStep ::
  "(string \<Rightarrow> int option) \<Rightarrow> (string \<times> PaypalCustomerEntry) list \<Rightarrow> CardInfoRecord \<Rightarrow>
   (string \<times> PaypalCustomerEntry) list" where
  "paypalCustomerStep parseDateJS m charge =
     (let cid = deriveCustomerId charge
      in case map_of m cid of
           None \<Rightarrow>
             AList.update cid
               \<lparr>pcu_transactionCount = 1,
                pcu_grossAmountMinor = amountMinor charge,
                pcu_grossAmountMajor = amountMajor charge,
                pcu_lastTransactionId = transactionId charge,
                pcu_lastTransactionCreated = createdAtUtc charge,
                pcu_charges = [charge]\<rparr> m
         | Some existing \<Rightarrow>
             (let newer = laterThan parseDateJS (createdAtUtc charge)
                            (pcu_lastTransactionCreated existing)
              in AList.update cid
                   \<lparr>pcu_transactionCount = pcu_transactionCount existing + 1,
                    pcu_grossAmountMinor = pcu_grossAmountMinor existing + amountMinor charge,
                    pcu_grossAmountMajor = pcu_grossAmountMajor existing + amountMajor charge,
                    pcu_lastTransactionId =
                      (if newer then transactionId charge else pcu_lastTransactionId existing),
                    pcu_lastTransactionCreated =
                      (if newer then createdAtUtc charge else pcu_lastTransactionCreated existing),
                    pcu_charges = pcu_charges existing @ [charge]\<rparr> m))"

definition toPaypalTopCustomer :: "string \<times> PaypalCustomerEntry \<Rightarrow> PaypalTopCustomer" where
  "toPaypalTopCustomer p =
     (let cid = fst p; entry = snd p
      in \<lparr>ptop_customerId = cid,
          ptop_transactionCount = pcu_transactionCount entry,
          ptop_grossAmountMinor = pcu_grossAmountMinor entry,
          ptop_grossAmountMajor = toFixed2 (pcu_grossAmountMajor entry),
          ptop_lastTransactionId = pcu_lastTransactionId entry,
          ptop_lastTransactionCreated = pcu_lastTransactionCreated entry,
          ptop_currencyBreakdown = paypalAggregateByCurrency (pcu_charges entry)\<rparr>)"

definition paypalFormatDate :: "(string \<Rightarrow> int option) \<Rightarrow> string \<Rightarrow> string" where
  "paypalFormatDate parseDateJS isoText =
     (case parseDateJS isoText of None \<Rightarrow> isoText | Some t \<Rightarrow> slice0 10 (toISOString t))"

definition paypalGenerateTopCustomerInsights ::
  "(string \<Rightarrow> int option) \<Rightarrow> string \<Rightarrow> string \<Rightarrow> nat \<Rightarrow> PaypalTopCustomer list \<Rightarrow> int \<Rightarrow>
   string list" where
  "paypalGenerateTopCustomerInsights parseDateJS startDateArg endDateArg totalCustomers
     topCustomers limit =
     (if totalCustomers = 0
      then [''No PayPal customer activity detected between '' @ startDateArg @ '' and '' @
            endDateArg @ ''.'']
      else
        (let displayedCount = length topCustomers;
             displayedGross = foldl (\<lambda>acc customer. acc + ptop_grossAmountMajor customer) 0 topCustomers
         in [natToString totalCustomers @ '' PayPal customers transacted between '' @
             startDateArg @ '' and '' @ endDateArg @ ''; top '' @ natToString displayedCount @
             '' accounted for '' @ formatMajor (toFixed2 displayedGross) @ ''.''] @
            (case topCustomers of
               [] \<Rightarrow> []
             | leader # _ \<Rightarrow>
                 [''Top customer '' @ ptop_customerId leader @ '' contributed '' @
                  formatMajor (ptop_grossAmountMajor leader) @ '' across '' @
                  natToString (ptop_transactionCount leader) @ '' transactions; last activity '' @
                  paypalFormatDate parseDateJS (ptop_lastTransactionCreated leader) @ ''.'']) @
            (if int totalCustomers > limit \<and> displayedCount > 0
             then [''Additional '' @ intToString (int totalCustomers - int displayedCount) @
                   '' customers generated the remainder of volume.'']
             else [])))"

definition paypalBuildTopCustomersSummary ::
  "(string \<Rightarrow> int option) \<Rightarrow> string \<Rightarrow> string \<Rightarrow> CardInfoRecord list \<Rightarrow> int \<Rightarrow>
   PaypalTopCustomersSummary" where
  "paypalBuildTopCustomersSummary parseDateJS startDateArg endDateArg charges limit =
     (let customerMap = foldl (paypalCustomerStep parseDateJS) [] charges;
          customerSummaries =
            slice0 limit (sortDesc ptop_grossAmountMajor (map toPaypalTopCustomer customerMap))
      in \<lparr>pout_range = \<lparr>startDate = startDateArg, endDate = endDateArg\<rparr>,
          pout_totalCustomers = length customerMap,
          pout_topCustomers = customerSummaries,
          pout_insights =
            paypalGenerateTopCustomerInsights parseDateJS startDateArg endDateArg
              (length customerMap) customerSummaries limit\<rparr>)"

text \<open>The key under which each module groups a charge.\<close>

definition stripeCurrencyKey :: "ChargeSummary \<Rightarrow> string" where
  "stripeCurrencyKey charge = toLowerCase (currency charge)"

definition paypalCurrencyKey :: "CardInfoRecord \<Rightarrow> string" where
  "paypalCurrencyKey charge =
     toUpperCase (case recordCurrency charge of None \<Rightarrow> ''USD'' | Some c \<Rightarrow> c)"

section \<open>Session attribution in the purchase-session query\<close>

text \<open>
  The attribution columns of the common table expression \<open>sessions_final\<close> of
  \<open>PURCHASE_SESSIONS_QUERY_TEMPLATE\<close>, the SQL text that the purchase-session reader
  sends to BigQuery. A SQL \<open>NULL\<close> is \<open>None\<close>. The input is the table \<open>events_base\<close>:
  one row per event of the window with its parameters extracted; the columns below are
  the ones the attribution reads. The time of an event, \<open>event_ts\<close>, is taken to be
  present in every row.
\<close>

record EventRow =
  event_ts :: int
  event_name :: "string option"
  user_pseudo_id :: "string option"
  ga_session_id :: "int option"
  page_location :: "string option"
  page_referrer :: "string option"
  source_start :: "string option"
  medium_start :: "string option"
  campaign_start :: "string option"

text \<open>
  What SQL leaves open is a parameter of the model: the row from which \<open>ANY_VALUE\<close>
  takes its value, and the row that \<open>ARRAY_AGG(... ORDER BY event_ts ASC)\<close> puts first
  among rows of the same earliest time.
\<close>

record Choice =
  anyValue :: "string option list \<Rightarrow> string option"
  firstOf :: "(int \<times> string) list \<Rightarrow> int \<times> string"

text \<open>
  \<open>GROUP BY user_pseudo_id, ga_session_id\<close>: the rows of one group have the same pair,
  \<open>NULL\<close>s included. A join \<open>ON\<close> the equality of both columns finds a row only for a
  pair without \<open>NULL\<close>.
\<close>

type_synonym SessionKey = "string option \<times> int option"

definition keyOf :: "EventRow \<Rightarrow> SessionKey" where
  "keyOf r = (user_pseudo_id r, ga_session_id r)"

definition groupOf :: "SessionKey \<Rightarrow> EventRow list \<Rightarrow> EventRow list" where
  "groupOf k rows = filter (\<lambda>r. keyOf r = k) rows"

definition joins :: "SessionKey \<Rightarrow> bool" where
  "joins k = (fst k \<noteq> None \<and> snd k \<noteq> None)"

text \<open>
  \<open>ARRAY_AGG(x IGNORE NULLS ORDER BY event_ts ASC)[OFFSET(0)]\<close> over the pairs of
  \<open>event_ts\<close> and \<open>x\<close> of a group: \<open>NULL\<close> when no \<open>x\<close> is left.
\<close>

fun ignoreNulls :: "(int \<times> string option) list \<Rightarrow> (int \<times> string) list" where
  "ignoreNulls [] = []"
| "ignoreNulls ((t, None) # xs) = ignoreNulls xs"
| "ignoreNulls ((t, Some v) # xs) = (t, v) # ignoreNulls xs"

definition earliest :: "(int \<times> string) list \<Rightarrow> (int \<times> string) list" where
  "earliest xs = filter (\<lambda>p. \<forall>q \<in> set xs. fst p \<le> fst q) xs"

definition firstByTime :: "Choice \<Rightarrow> (int \<times> string option) list \<Rightarrow> string option" where
  "firstByTime ch xs = (let ys = ignoreNulls xs in
     if ys = [] then None else Some (snd (firstOf ch (earliest ys))))"

text \<open>\<open>COALESCE\<close>: the first argument that is not \<open>NULL\<close>.\<close>

fun coalesce :: "'a option list \<Rightarrow> 'a option" where
  "coalesce [] = None"
| "coalesce (None # xs) = coalesce xs"
| "coalesce (Some x # xs) = Some x"

text \<open>
  \<open>REGEXP_EXTRACT(url, r'[?&]name=([^&#]*)')\<close>: the text after the leftmost
  \<open>?name=\<close> or \<open>&name=\<close>, up to the next \<open>&\<close> or \<open>#\<close>; \<open>NULL\<close> without a match.
\<close>

fun regexpExtractParam :: "string \<Rightarrow> string \<Rightarrow> string option" where
  "regexpExtractParam name [] = None"
| "regexpExtractParam name (c # s) =
     (if (c = CHR ''?'' \<or> c = CHR ''&'') \<and> startsWith s (name @ ''='')
      then Some (takeWhile (\<lambda>x. x \<noteq> CHR ''&'' \<and> x \<noteq> CHR ''#'') (drop (length name + 1) s))
      else regexpExtractParam name s)"

text \<open>\<open>REGEXP_EXTRACT(referrer, r'^https?://([^/:]+)')\<close>: the host of a referrer.\<close>

definition refHost :: "string \<Rightarrow> string option" where
  "refHost s =
     (let rest = (if startsWith s ''https://'' then Some (drop 8 s)
                  else if startsWith s ''http://'' then Some (drop 7 s) else None)
      in case rest of None \<Rightarrow> None
         | Some r \<Rightarrow> (let h = takeWhile (\<lambda>c. c \<noteq> CHR ''/'' \<and> c \<noteq> CHR '':'') r
                      in if h = [] then None else Some h))"

text \<open>\<open>REGEXP_CONTAINS(host, r'(^|\.)superalink\.com$')\<close>.\<close>

definition ownDomain :: "string \<Rightarrow> bool" where
  "ownDomain h = (h = ''superalink.com'' \<or> endsWith h ''.superalink.com'')"

text \<open>
  \<open>REGEXP_CONTAINS(referrer, r'(?i)://(www\.)?engine')\<close>, where \<open>engine\<close> is one
  of \<open>google.\<close>, \<open>bing.\<close> and so on, written in lower case.
\<close>

definition containsEngine :: "string \<Rightarrow> string \<Rightarrow> bool" where
  "containsEngine engine referrer =
     (strIncludes (toLowerCase referrer) (''://'' @ engine) \<or>
      strIncludes (toLowerCase referrer) (''://www.'' @ engine))"

text \<open>The \<open>WHERE\<close> clause of the subquery of \<open>first_ext_ref\<close>.\<close>

definition externalReferrer :: "EventRow \<Rightarrow> bool" where
  "externalReferrer r =
     (event_name r = Some ''page_view'' \<and>
      (case page_referrer r of None \<Rightarrow> False
       | Some referrer \<Rightarrow> referrer \<noteq> [] \<and>
           \<not> ownDomain (toLowerCase (case refHost referrer of None \<Rightarrow> [] | Some h \<Rightarrow> h))))"

text \<open>
  The common table expressions, each as the row it holds for a group (\<open>None\<close>: it holds
  no row for that group).
\<close>

record StartsRow =
  st_utm_source_start :: "string option"
  st_utm_medium_start :: "string option"
  st_utm_campaign_start :: "string option"

definition starts :: "Choice \<Rightarrow> EventRow list \<Rightarrow> SessionKey \<Rightarrow> StartsRow option" where
  "starts ch rows k =
     (let g = groupOf k (filter (\<lambda>r. event_name r = Some ''session_start'') rows)
      in if g = [] then None
         else Some \<lparr>st_utm_source_start = anyValue ch (map source_start g),
                    st_utm_medium_start = anyValue ch (map medium_start g),
                    st_utm_campaign_start = anyValue ch (map campaign_start g)\<rparr>)"

definition landing_url :: "Choice \<Rightarrow> EventRow list \<Rightarrow> SessionKey \<Rightarrow> string option" where
  "landing_url ch rows k =
     firstByTime ch
       (map (\<lambda>r. (event_ts r, if event_name r = Some ''page_view'' then page_location r else None))
          (groupOf k rows))"

record LandingRow =
  ul_utm_source_lp :: "string option"
  ul_utm_medium_lp :: "string option"
  ul_utm_campaign_lp :: "string option"

definition utm_from_landing :: "Choice \<Rightarrow> EventRow list \<Rightarrow> SessionKey \<Rightarrow> LandingRow option" where
  "utm_from_landing ch rows k =
     (if groupOf k rows = [] then None
      else Some \<lparr>ul_utm_source_lp = Option.bind (landing_url ch rows k) (regexpExtractParam ''utm_source''),
                 ul_utm_medium_lp = Option.bind (landing_url ch rows k) (regexpExtractParam ''utm_medium''),
                 ul_utm_campaign_lp =
                   Option.bind (landing_url ch rows k) (regexpExtractParam ''utm_campaign'')\<rparr>)"

definition externalReferrers :: "EventRow list \<Rightarrow> SessionKey \<Rightarrow> (int \<times> string option) list" where
  "externalReferrers rows k =
     map (\<lambda>r. (event_ts r, page_referrer r)) (groupOf k (filter externalReferrer rows))"

definition first_ext_ref :: "Choice \<Rightarrow> EventRow list \<Rightarrow> SessionKey \<Rightarrow> string option option" where
  "first_ext_ref ch rows k =
     (if externalReferrers rows k = [] then None
      else Some (firstByTime ch (externalReferrers rows k)))"

definition ref_medium_of :: "string option \<Rightarrow> string option" where
  "ref_medium_of first_referrer =
     (case first_referrer of None \<Rightarrow> None
      | Some f \<Rightarrow>
          if containsEngine ''google.'' f then Some ''organic''
          else if containsEngine ''bing.'' f then Some ''organic''
          else if containsEngine ''search.yahoo.'' f then Some ''organic''
          else if containsEngine ''duckduckgo.'' f then Some ''organic''
          else if containsEngine ''baidu.'' f then Some ''organic''
          else if containsEngine ''yandex.'' f then Some ''organic''
          else Some ''referral'')"

definition ref_source_of :: "string option \<Rightarrow> string option" where
  "ref_source_of first_referrer =
     (case first_referrer of None \<Rightarrow> None
      | Some f \<Rightarrow>
          if containsEngine ''google.'' f then Some ''google''
          else if containsEngine ''bing.'' f then Some ''bing''
          else if containsEngine ''search.yahoo.'' f then Some ''yahoo''
          else if containsEngine ''duckduckgo.'' f then Some ''duckduckgo''
          else if containsEngine ''baidu.'' f then Some ''baidu''
          else if containsEngine ''yandex.'' f then Some ''yandex''
          else map_option toLowerCase (refHost f))"

record RefRow =
  rd_first_referrer :: "string option"
  rd_ref_medium :: "string option"
  rd_ref_source :: "string option"

definition ref_derived :: "Choice \<Rightarrow> EventRow list \<Rightarrow> SessionKey \<Rightarrow> RefRow option" where
  "ref_derived ch rows k =
     (case first_ext_ref ch rows k of None \<Rightarrow> None
      | Some fr \<Rightarrow> Some \<lparr>rd_first_referrer = fr, rd_ref_medium = ref_medium_of fr,
                         rd_ref_source = ref_source_of fr\<rparr>)"

text \<open>
  \<open>sessions_final\<close>: one row for each group of \<open>events_base\<close>, with the rows of the other
  expressions joined to it (\<open>LEFT JOIN\<close>: their columns are \<open>NULL\<close> when no row joins).
  SQL gives the rows of the table no order; here they come in the order in which the
  groups first occur in \<open>events_base\<close>.
\<close>

record SessionRow =
  session_user_pseudo_id :: "string option"
  session_ga_session_id :: "int option"
  utm_source_start :: "string option"
  utm_medium_start :: "string option"
  utm_campaign_start :: "string option"
  utm_source_lp :: "string option"
  utm_medium_lp :: "string option"
  utm_campaign_lp :: "string option"
  ref_source :: "string option"
  ref_medium :: "string option"
  traffic_source_type :: string
  traffic_source :: "string option"
  traffic_medium :: "string option"
  traffic_campaign :: "string option"

definition leftJoin :: "SessionKey \<Rightarrow> 'a option \<Rightarrow> ('a \<Rightarrow> 'b option) \<Rightarrow> 'b option" where
  "leftJoin k row col = (if joins k then Option.bind row col else None)"

definition sessionRow :: "Choice \<Rightarrow> EventRow list \<Rightarrow> SessionKey \<Rightarrow> SessionRow" where
  "sessionRow ch rows k =
     (let st_source = leftJoin k (starts ch rows k) st_utm_source_start;
          st_medium = leftJoin k (starts ch rows k) st_utm_medium_start;
          st_campaign = leftJoin k (starts ch rows k) st_utm_campaign_start;
          ul_source = leftJoin k (utm_from_landing ch rows k) ul_utm_source_lp;
          ul_medium = leftJoin k (utm_from_landing ch rows k) ul_utm_medium_lp;
          ul_campaign = leftJoin k (utm_from_landing ch rows k) ul_utm_campaign_lp;
          rd_source = leftJoin k (ref_derived ch rows k) rd_ref_source;
          rd_medium = leftJoin k (ref_derived ch rows k) rd_ref_medium
      in \<lparr>session_user_pseudo_id = fst k,
          session_ga_session_id = snd k,
          utm_source_start = st_source,
          utm_medium_start = st_medium,
          utm_campaign_start = st_campaign,
          utm_source_lp = ul_source,
          utm_medium_lp = ul_medium,
          utm_campaign_lp = ul_campaign,
          ref_source = rd_source,
          ref_medium = rd_medium,
          traffic_source_type =
            (if st_source \<noteq> None \<or> st_medium \<noteq> None then ''session_start''
             else if ul_source \<noteq> None \<or> ul_medium \<noteq> None then ''first_pageview_utm''
             else if rd_source \<noteq> None then ''referrer''
             else ''direct''),
          traffic_source = coalesce [st_source, ul_source, rd_source, Some ''(direct)''],
          traffic_medium = coalesce [st_medium, ul_medium, rd_medium, Some ''(none)''],
          traffic_campaign = coalesce [st_campaign, ul_campaign, Some ''(not set)'']\<rparr>)"

definition sessions_final :: "Choice \<Rightarrow> EventRow list \<Rightarrow> SessionRow list" where
  "sessions_final ch rows = map (sessionRow ch rows) (remdups (map keyOf rows))"

section \<open>Calendar arithmetic\<close>

lemma replicate_numeral: "replicate (numeral k) x = x # replicate (pred_numeral k) x"
  by (simp add: numeral_eq_Suc)

lemmas cal_eval = replicate_numeral formatISODate_def slice0_def toISOString_def isoYear_def padStart0_def
  natToString.simps digitChar_def YearFromTime_def YearFromDay_def DayFromYear_def Day_def
  msPerDay_def TimeWithinDay_def MonthFromTime_def DayWithinYear_def InLeapYear_def
  DaysInYear_def DateFromTime_def monthStart_def Let_def

lemmas parse_eval = parseISODate_def ISO_DATE_REGEX_test_def Date_parse_def isDigit_def
  digitsToNat_def digitValue_def MakeDate_def MakeDay_def MakeTime_def DayFromYear_def
  DaysInYear_def monthStart_def msPerDay_def Let_def

lemma MonthFromTime_range: "0 \<le> MonthFromTime t \<and> MonthFromTime t \<le> 11"
  by (simp add: MonthFromTime_def Let_def)

text \<open>
  Rebuilding a day from the year, month and date of a time value gives the day back, and
  moving the date by \<open>n\<close> moves the day by \<open>n\<close>: the month index is within 0..11, so
  \<open>MakeDay\<close> adds the same month offset that \<open>DateFromTime\<close> subtracted.
\<close>

lemma MakeDay_of_time:
  "MakeDay (YearFromTime t) (MonthFromTime t) (DateFromTime t + n) = Day t + n"
proof -
  have r: "0 \<le> MonthFromTime t" "MonthFromTime t \<le> 11"
    using MonthFromTime_range by auto
  then have d: "MonthFromTime t div 12 = 0" and m: "MonthFromTime t mod 12 = MonthFromTime t"
    by auto
  show ?thesis
    unfolding MakeDay_def Let_def d m
    by (simp add: DateFromTime_def DayWithinYear_def InLeapYear_def)
qed

lemma addDays_ms: "addDays t n = t + n * msPerDay"
proof -
  have "addDays t n = (Day t + n) * msPerDay + TimeWithinDay t"
    by (simp add: addDays_def setUTCDate_def getUTCDate_def MakeDay_of_time MakeDate_def)
  also have "\<dots> = t + n * msPerDay"
    by (simp add: Day_def TimeWithinDay_def algebra_simps)
  finally show ?thesis .
qed

lemma YearFromDay_lower: "0 \<le> d \<Longrightarrow> 1969 \<le> YearFromDay d"
proof -
  assume "0 \<le> d"
  then have "0 \<le> (400 * d) div 146097" by simp
  then show ?thesis by (simp add: YearFromDay_def Let_def)
qed

lemma startOfUTCDate_day: "0 \<le> t \<Longrightarrow> startOfUTCDate t = Day t * msPerDay"
proof -
  assume t: "0 \<le> t"
  then have "0 \<le> Day t" by (simp add: Day_def msPerDay_def)
  then have y: "1969 \<le> YearFromTime t" by (simp add: YearFromTime_def YearFromDay_lower)
  have "MakeDay (YearFromTime t) (MonthFromTime t) (DateFromTime t + 0) = Day t + 0"
    by (rule MakeDay_of_time)
  with y show ?thesis
    by (simp add: startOfUTCDate_def Date_UTC_def getUTCFullYear_def getUTCMonth_def
        getUTCDate_def MakeDate_def MakeTime_def)
qed

section \<open>The date range resolver\<close>

lemma Date_parse_midnight:
  assumes "ISO_DATE_REGEX_test v"
  shows "Date_parse (v @ ''T00:00:00.000Z'') =
           (if validMonthDay v then Some (dateOfString v) else None)"
proof -
  from assms have len: "length v = 10" by (simp add: ISO_DATE_REGEX_test_def)
  have z2: "digitsToNat ''00'' = 0" and z3: "digitsToNat ''000'' = 0"
    by (simp_all add: digitsToNat_def digitValue_def)
  have d0: "isDigit CHR ''0''" by (simp add: isDigit_def)
  from assms len show ?thesis
    by (simp add: Date_parse_def ISO_DATE_REGEX_test_def validMonthDay_def dateOfString_def
        nth_append Let_def z2 z3 d0 MakeDate_def MakeTime_def)
qed

lemma parseISODate_cases:
  "parseISODate v f =
     (if wellFormedDate v then Inr (dateOfString v)
      else if ISO_DATE_REGEX_test v
        then Inl (Error (''Invalid '' @ f @ ''. Unable to parse date: '' @ v))
        else Inl (Error (''Invalid '' @ f @ ''. Expected format YYYY-MM-DD, received: '' @ v)))"
  by (simp add: parseISODate_def Date_parse_midnight wellFormedDate_def)

lemma wellFormedDate_nonempty: "wellFormedDate v \<Longrightarrow> v \<noteq> []"
  by (auto simp: wellFormedDate_def ISO_DATE_REGEX_test_def)

lemma computeDateRange_none:
  assumes "0 \<le> today"
  shows "computeDateRange None None today =
     Inr \<lparr>startDate = formatISODate (Day today * msPerDay - 6 * msPerDay),
          endDate = formatISODate (Day today * msPerDay)\<rparr>"
  using assms
  by (simp add: computeDateRange_def truthy_def Let_def startOfUTCDate_day addDays_ms)

lemma computeDateRange_start_only:
  assumes "0 \<le> today" "\<not> truthy ed" "parseISODate s ''startDate'' = Inr start"
    "start \<le> Day today * msPerDay"
  shows "computeDateRange (Some s) ed today =
     Inr \<lparr>startDate = formatISODate start,
          endDate = formatISODate (min (start + 6 * msPerDay) (Day today * msPerDay))\<rparr>"
proof -
  from assms(3) have "s \<noteq> []"
    by (auto simp: parseISODate_cases wellFormedDate_nonempty split: if_splits)
  then have ts: "truthy (Some s)" by (simp add: truthy_def)
  have m: "0 \<le> msPerDay" by (simp add: msPerDay_def)
  from ts assms m show ?thesis
    by (simp add: computeDateRange_def Let_def startOfUTCDate_day addDays_ms
        ensureNotFuture_def ensureChronology_def min_def)
qed

lemma today_2024_06_10: "toISOString 1717977600000 = ''2024-06-10T00:00:00.000Z''"
  by (simp add: cal_eval)

lemma format_2024_06_10: "formatISODate 1717977600000 = ''2024-06-10''"
  by (simp add: cal_eval)

lemma format_2024_06_04: "formatISODate 1717459200000 = ''2024-06-04''"
  by (simp add: cal_eval)

lemma format_2024_06_01: "formatISODate 1717200000000 = ''2024-06-01''"
  by (simp add: cal_eval)

lemma format_2024_06_07: "formatISODate 1717718400000 = ''2024-06-07''"
  by (simp add: cal_eval)

lemma format_2024_06_08: "formatISODate 1717804800000 = ''2024-06-08''"
  by (simp add: cal_eval)

lemma parse_2024_06_01: "parseISODate ''2024-06-01'' f = Inr 1717200000000"
  by (simp add: parse_eval)

lemma parse_2024_06_08: "parseISODate ''2024-06-08'' f = Inr 1717804800000"
  by (simp add: parse_eval)

lemma parse_2024_06_10: "parseISODate ''2024-06-10'' f = Inr 1717977600000"
  by (simp add: parse_eval)

text \<open>
  Claim C6. With today = 2024-06-10 (UTC midnight, the time value 1717977600000) the
  resolver given neither date returns 2024-06-04 .. 2024-06-10, and given only the start
  date 2024-06-01 it returns 2024-06-01 .. 2024-06-07. In general (today not before
  1970): given neither date, the end is the UTC day of today and the start is six days
  before it; given only a start date that parses and is not after today, the end is six
  days after the start, clamped to today.
\<close>

theorem computeDateRange_defaults:
  "toISOString 1717977600000 = ''2024-06-10T00:00:00.000Z'' \<and>
   computeDateRange None None 1717977600000 =
     Inr \<lparr>startDate = ''2024-06-04'', endDate = ''2024-06-10''\<rparr> \<and>
   computeDateRange (Some ''2024-06-01'') None 1717977600000 =
     Inr \<lparr>startDate = ''2024-06-01'', endDate = ''2024-06-07''\<rparr> \<and>
   (\<forall>today. 0 \<le> today \<longrightarrow>
      computeDateRange None None today =
        Inr \<lparr>startDate = formatISODate (Day today * msPerDay - 6 * msPerDay),
             endDate = formatISODate (Day today * msPerDay)\<rparr>) \<and>
   (\<forall>today s ed start.
      0 \<le> today \<and> \<not> truthy ed \<and> parseISODate s ''startDate'' = Inr start \<and>
      start \<le> Day today * msPerDay \<longrightarrow>
      computeDateRange (Some s) ed today =
        Inr \<lparr>startDate = formatISODate start,
             endDate = formatISODate (min (start + 6 * msPerDay) (Day today * msPerDay))\<rparr>)"
proof -
  have d: "Day 1717977600000 * msPerDay = 1717977600000"
    by (simp add: Day_def msPerDay_def)
  have a: "computeDateRange None None 1717977600000 =
     Inr \<lparr>startDate = ''2024-06-04'', endDate = ''2024-06-10''\<rparr>"
    using computeDateRange_none [of 1717977600000]
    by (simp add: d format_2024_06_04 format_2024_06_10) (simp add: msPerDay_def format_2024_06_04)
  have b: "computeDateRange (Some ''2024-06-01'') None 1717977600000 =
     Inr \<lparr>startDate = ''2024-06-01'', endDate = ''2024-06-07''\<rparr>"
    using computeDateRange_start_only [of 1717977600000 None "''2024-06-01''" 1717200000000]
    by (simp add: d parse_2024_06_01 truthy_def format_2024_06_01)
       (simp add: msPerDay_def format_2024_06_07)
  show ?thesis
    using a b today_2024_06_10 computeDateRange_none computeDateRange_start_only by blast
qed

theorem computeDateRange_defaults_witness:
  "(0::int) \<le> 1718000000000 \<and> \<not> truthy None \<and>
   parseISODate ''2024-06-08'' ''startDate'' = Inr 1717804800000 \<and>
   1717804800000 \<le> Day 1718000000000 * msPerDay \<and>
   computeDateRange (Some ''2024-06-08'') None 1718000000000 =
     Inr \<lparr>startDate = ''2024-06-08'', endDate = ''2024-06-10''\<rparr>"
proof -
  have h1: "(0::int) \<le> 1718000000000" by simp
  have h2: "\<not> truthy None" by (simp add: truthy_def)
  have h3: "parseISODate ''2024-06-08'' ''startDate'' = Inr 1717804800000"
    by (rule parse_2024_06_08)
  have d: "Day 1718000000000 * msPerDay = 1717977600000"
    by (simp add: Day_def msPerDay_def)
  have h4: "1717804800000 \<le> Day 1718000000000 * msPerDay" by (simp add: d)
  have m: "min (1717804800000 + 6 * msPerDay) (Day 1718000000000 * msPerDay) = 1717977600000"
    by (simp add: d) (simp add: msPerDay_def)
  from computeDateRange_defaults have
    "\<forall>today s ed start.
      0 \<le> today \<and> \<not> truthy ed \<and> parseISODate s ''startDate'' = Inr start \<and>
      start \<le> Day today * msPerDay \<longrightarrow>
      computeDateRange (Some s) ed today =
        Inr \<lparr>startDate = formatISODate start,
             endDate = formatISODate (min (start + 6 * msPerDay) (Day today * msPerDay))\<rparr>"
    by simp
  with h1 h2 h3 h4 have
    "computeDateRange (Some ''2024-06-08'') None 1718000000000 =
        Inr \<lparr>startDate = formatISODate 1717804800000,
             endDate = formatISODate (min (1717804800000 + 6 * msPerDay)
                (Day 1718000000000 * msPerDay))\<rparr>"
    by blast
  then have "computeDateRange (Some ''2024-06-08'') None 1718000000000 =
     Inr \<lparr>startDate = ''2024-06-08'', endDate = ''2024-06-10''\<rparr>"
    by (simp only: m format_2024_06_08 format_2024_06_10)
  with h1 h2 h3 h4 show ?thesis by blast
qed

lemma msPerDay_pos: "0 < msPerDay" by (simp add: msPerDay_def)

lemma computeDateRange_both:
  assumes "0 \<le> today" "truthy sd" "truthy ed"
  shows "computeDateRange sd ed today =
    (case parseISODate (the sd) ''startDate'' of Inl e \<Rightarrow> Inl e | Inr start \<Rightarrow>
     case parseISODate (the ed) ''endDate'' of Inl e \<Rightarrow> Inl e | Inr en \<Rightarrow>
       if en < start then Inl (Error ''endDate must be on or after startDate.'')
       else if start > Day today * msPerDay then Inl (Error ''startDate cannot be in the future.'')
       else if en > Day today * msPerDay then Inl (Error ''endDate cannot be in the future.'')
       else Inr \<lparr>startDate = formatISODate start, endDate = formatISODate en\<rparr>)"
  using assms
  by (simp add: computeDateRange_def Let_def startOfUTCDate_day ensureChronology_def
      ensureNotFuture_def split: sum.splits)

lemma computeDateRange_start:
  assumes "0 \<le> today" "truthy sd" "\<not> truthy ed"
  shows "computeDateRange sd ed today =
    (case parseISODate (the sd) ''startDate'' of Inl e \<Rightarrow> Inl e | Inr start \<Rightarrow>
       if start > Day today * msPerDay then Inl (Error ''startDate cannot be in the future.'')
       else Inr \<lparr>startDate = formatISODate start,
                 endDate = formatISODate (min (start + 6 * msPerDay) (Day today * msPerDay))\<rparr>)"
  using assms msPerDay_pos
  by (simp add: computeDateRange_def Let_def startOfUTCDate_day ensureChronology_def
      ensureNotFuture_def addDays_ms min_def split: sum.splits)

lemma computeDateRange_end:
  assumes "0 \<le> today" "\<not> truthy sd" "truthy ed"
  shows "computeDateRange sd ed today =
    (case parseISODate (the ed) ''endDate'' of Inl e \<Rightarrow> Inl e | Inr en \<Rightarrow>
       if en > Day today * msPerDay then Inl (Error ''endDate cannot be in the future.'')
       else Inr \<lparr>startDate = formatISODate (en - 6 * msPerDay), endDate = formatISODate en\<rparr>)"
  using assms
  by (simp add: computeDateRange_def Let_def startOfUTCDate_day 
      ensureNotFuture_def addDays_ms split: sum.splits)

lemma computeDateRange_neither:
  assumes "0 \<le> today" "\<not> truthy sd" "\<not> truthy ed"
  shows "computeDateRange sd ed today =
     Inr \<lparr>startDate = formatISODate (Day today * msPerDay - 6 * msPerDay),
          endDate = formatISODate (Day today * msPerDay)\<rparr>"
  using assms
  by (simp add: computeDateRange_def Let_def startOfUTCDate_day addDays_ms)

lemma wellFormed_2024_06_10: "wellFormedDate ''2024-06-10''"
  by (simp add: wellFormedDate_def validMonthDay_def parse_eval)

lemma dateOfString_2024_06_10: "dateOfString ''2024-06-10'' = 1717977600000"
  by (simp add: dateOfString_def parse_eval)

section \<open>The year of a day\<close>

lemma div_bounds:
  fixes x n :: int
  assumes "0 < n"
  shows "n * (x div n) \<le> x \<and> x < n * (x div n) + n"
proof -
  have "x = n * (x div n) + x mod n" by simp
  moreover have "0 \<le> x mod n" "x mod n < n" using assms by simp_all
  ultimately show ?thesis by linarith
qed

lemma DayFromYear_upper_est: "400 * DayFromYear (1970 + n) \<le> 146097 * n + 593"
proof -
  define a where "a = (n + 1) div 4"
  define b where "b = (n + 69) div 100"
  define c where "c = (n + 369) div 400"
  have "4 * a \<le> n + 1" "n + 69 < 100 * b + 100" "400 * c \<le> n + 369"
    using div_bounds [of 4 "n + 1"] div_bounds [of 100 "n + 69"] div_bounds [of 400 "n + 369"]
    by (simp_all add: a_def b_def c_def)
  moreover have "DayFromYear (1970 + n) = 365 * n + a - b + c"
    by (simp add: DayFromYear_def a_def b_def c_def add.commute)
  ultimately show ?thesis by linarith
qed

lemma DayFromYear_lower_est: "146097 * n - 506 \<le> 400 * DayFromYear (1970 + n)"
proof -
  define a where "a = (n + 1) div 4"
  define b where "b = (n + 69) div 100"
  define c where "c = (n + 369) div 400"
  have "n + 1 < 4 * a + 4" "100 * b \<le> n + 69" "n + 369 < 400 * c + 400"
    using div_bounds [of 4 "n + 1"] div_bounds [of 100 "n + 69"] div_bounds [of 400 "n + 369"]
    by (simp_all add: a_def b_def c_def)
  moreover have "DayFromYear (1970 + n) = 365 * n + a - b + c"
    by (simp add: DayFromYear_def a_def b_def c_def add.commute)
  ultimately show ?thesis by linarith
qed

text \<open>
  The estimate of \<open>YearFromDay\<close> is off by at most one year, so its one correction step
  finds the year whose days include \<open>d\<close>.
\<close>

lemma YearFromDay_bounds:
  "DayFromYear (YearFromDay d) \<le> d \<and> d < DayFromYear (YearFromDay d + 1)"
proof -
  define q where "q = (400 * d) div 146097"
  have q: "146097 * q \<le> 400 * d" "400 * d < 146097 * q + 146097"
    using div_bounds [of 146097 "400 * d"] by (simp_all add: q_def)
  have "400 * DayFromYear (1970 + (q - 1)) \<le> 146097 * q"
    using DayFromYear_upper_est [of "q - 1"] by (simp add: algebra_simps)
  then have "400 * DayFromYear (1970 + (q - 1)) \<le> 400 * d"
    using q(1) by (rule order_trans)
  then have lo: "DayFromYear (1970 + (q - 1)) \<le> d" by simp
  have "146097 * q + 146097 \<le> 400 * DayFromYear (1970 + (q + 2))"
    using DayFromYear_lower_est [of "q + 2"] by (simp add: algebra_simps)
  with q(2) have "400 * d < 400 * DayFromYear (1970 + (q + 2))"
    by (rule less_le_trans)
  then have hi: "d < DayFromYear (1970 + (q + 2))" by simp
  have y: "YearFromDay d =
     (if DayFromYear (1970 + q + 1) \<le> d then 1970 + q + 1
      else if d < DayFromYear (1970 + q) then 1970 + q - 1 else 1970 + q)"
    by (simp add: YearFromDay_def q_def Let_def)
  have e: "1970 + q - 1 = 1970 + (q - 1)" "1970 + q + 1 + 1 = 1970 + (q + 2)"
    "1970 + q - 1 + 1 = 1970 + q" by simp_all
  show ?thesis
    unfolding y using lo hi by (auto simp: e)
qed

lemma div_step:
  fixes x n :: int
  assumes "1 < n"
  shows "(x + 1) div n = x div n + (if (x + 1) mod n = 0 then 1 else 0)"
proof -
  have b: "n * (x div n) \<le> x" "x < n * (x div n) + n"
    using div_bounds [of n x] assms by simp_all
  show ?thesis
  proof (cases "(x + 1) mod n = 0")
    case True
    then have "x + 1 = n * ((x + 1) div n)" by (simp add: mod_eq_0_iff_dvd)
    moreover have "n * ((x + 1) div n) \<le> x + 1" "x + 1 < n * ((x + 1) div n) + n"
      using div_bounds [of n "x + 1"] assms by simp_all
    ultimately have "n * (x div n) < n * ((x + 1) div n)" "n * ((x + 1) div n) < n * (x div n + 2)"
      using b by (simp_all add: algebra_simps)
    then have "x div n < (x + 1) div n" "(x + 1) div n < x div n + 2"
      using assms by simp_all
    with True show ?thesis by simp
  next
    case False
    have "0 \<le> (x + 1) mod n" using assms by simp
    with False have p: "0 < (x + 1) mod n" by simp
    have "x + 1 = n * ((x + 1) div n) + (x + 1) mod n" by simp
    with p have "n * ((x + 1) div n) \<le> x" by linarith
    moreover have "x + 1 < n * ((x + 1) div n) + n"
      using div_bounds [of n "x + 1"] assms by simp
    ultimately have "n * ((x + 1) div n) < n * (x div n + 1)" "n * (x div n) < n * ((x + 1) div n + 1)"
      using b by (simp_all add: algebra_simps)
    then have "(x + 1) div n < x div n + 1" "x div n < (x + 1) div n + 1"
      using assms by simp_all
    with False show ?thesis by simp
  qed
qed

lemma DayFromYear_step: "DayFromYear (y + 1) = DayFromYear y + DaysInYear y"
proof -
  have m4: "(y - 1969 + 1) mod 4 = 0 \<longleftrightarrow> y mod 4 = 0"
  proof -
    have "y - 1969 + 1 = y + 4 * (- 492)" by simp
    then show ?thesis by (simp only: mod_mult_self2)
  qed
  have m100: "(y - 1901 + 1) mod 100 = 0 \<longleftrightarrow> y mod 100 = 0"
  proof -
    have "y - 1901 + 1 = y + 100 * (- 19)" by simp
    then show ?thesis by (simp only: mod_mult_self2)
  qed
  have m400: "(y - 1601 + 1) mod 400 = 0 \<longleftrightarrow> y mod 400 = 0"
  proof -
    have "y - 1601 + 1 = y + 400 * (- 4)" by simp
    then show ?thesis by (simp only: mod_mult_self2)
  qed
  have a: "(y - 1968) div 4 = (y - 1969) div 4 + (if y mod 4 = 0 then 1 else 0)"
    using div_step [of 4 "y - 1969"] m4 by simp
  have b: "(y - 1900) div 100 = (y - 1901) div 100 + (if y mod 100 = 0 then 1 else 0)"
    using div_step [of 100 "y - 1901"] m100 by simp
  have c: "(y - 1600) div 400 = (y - 1601) div 400 + (if y mod 400 = 0 then 1 else 0)"
    using div_step [of 400 "y - 1601"] m400 by simp
  have d1: "y mod 100 = 0" if "y mod 400 = 0"
    using that dvd_trans [of 100 400 y] by (simp add: mod_eq_0_iff_dvd)
  have d2: "y mod 4 = 0" if "y mod 100 = 0"
    using that dvd_trans [of 4 100 y] by (simp add: mod_eq_0_iff_dvd)
  have "DayFromYear (y + 1) =
      365 * (y - 1970) + 365 + (y - 1968) div 4 - (y - 1900) div 100 + (y - 1600) div 400"
    by (simp add: DayFromYear_def)
  also have "\<dots> = DayFromYear y + DaysInYear y"
    unfolding a b c DayFromYear_def DaysInYear_def using d1 d2 by auto
  finally show ?thesis .
qed

lemma DaysInYear_pos: "0 < DaysInYear y"
  by (simp add: DaysInYear_def)

lemma DayFromYear_add: "DayFromYear y \<le> DayFromYear (y + int n)"
proof (induction n)
  case 0
  show ?case by simp
next
  case (Suc n)
  have e: "y + int (Suc n) = y + int n + 1" by simp
  have "DayFromYear (y + int (Suc n)) = DayFromYear (y + int n) + DaysInYear (y + int n)"
    unfolding e by (rule DayFromYear_step)
  with Suc DaysInYear_pos [of "y + int n"] show ?case by linarith
qed

lemma DayFromYear_mono: "y \<le> z \<Longrightarrow> DayFromYear y \<le> DayFromYear z"
  using DayFromYear_add [of y "nat (z - y)"] by simp

lemma DayFromYear_0: "DayFromYear 0 = - 719528"
  by (simp add: DayFromYear_def)

lemma DayFromYear_10000: "DayFromYear 10000 = 2932897"
  by (simp add: DayFromYear_def)

lemma YearFromDay_range:
  assumes "- 719528 \<le> d" "d < 2932897"
  shows "0 \<le> YearFromDay d \<and> YearFromDay d \<le> 9999"
proof -
  note b = YearFromDay_bounds [of d]
  have "0 \<le> YearFromDay d"
  proof (rule ccontr)
    assume "\<not> 0 \<le> YearFromDay d"
    then have "YearFromDay d + 1 \<le> 0" by simp
    then have "DayFromYear (YearFromDay d + 1) \<le> DayFromYear 0" by (rule DayFromYear_mono)
    with b assms show False by (simp add: DayFromYear_0)
  qed
  moreover have "YearFromDay d \<le> 9999"
  proof (rule ccontr)
    assume "\<not> YearFromDay d \<le> 9999"
    then have "10000 \<le> YearFromDay d" by simp
    then have "DayFromYear 10000 \<le> DayFromYear (YearFromDay d)" by (rule DayFromYear_mono)
    with b assms show False by (simp add: DayFromYear_10000)
  qed
  ultimately show ?thesis by simp
qed

lemma DayWithinYear_range:
  "0 \<le> DayWithinYear t \<and> DayWithinYear t < DaysInYear (YearFromTime t)"
  using YearFromDay_bounds [of "Day t"] DayFromYear_step [of "YearFromTime t"]
  by (simp add: DayWithinYear_def YearFromTime_def)

lemma DateFromTime_range: "1 \<le> DateFromTime t \<and> DateFromTime t \<le> 31"
proof -
  note r = DayWithinYear_range [of t]
  have l: "DaysInYear (YearFromTime t) = (if InLeapYear t then 366 else 365)"
    by (simp add: InLeapYear_def DaysInYear_def)
  from r l show ?thesis
    by (cases "InLeapYear t") (auto simp: DateFromTime_def MonthFromTime_def monthStart_def Let_def)
qed

section \<open>Decimal digits\<close>

lemma digitChar_digit: "k < 10 \<Longrightarrow> isDigit (digitChar k) \<and> digitValue (digitChar k) = k"
proof -
  assume "k < 10"
  then have "k = 0 \<or> k = 1 \<or> k = 2 \<or> k = 3 \<or> k = 4 \<or> k = 5 \<or> k = 6 \<or> k = 7 \<or> k = 8 \<or> k = 9"
    by arith
  then show ?thesis
    by (elim disjE) (simp_all add: digitChar_def isDigit_def digitValue_def)
qed

lemma digitsToNat_snoc: "digitsToNat (xs @ [c]) = 10 * digitsToNat xs + digitValue c"
  by (simp add: digitsToNat_def)

lemma natToString_digits:
  "list_all isDigit (natToString n) \<and> digitsToNat (natToString n) = n"
proof (induction n rule: natToString.induct)
  case (1 n)
  show ?case
  proof (cases "n < 10")
    case True
    then show ?thesis
      using digitChar_digit [of n] by (simp add: natToString.simps [of n] digitsToNat_def)
  next
    case False
    have "n mod 10 < 10" by simp
    from digitChar_digit [OF this] "1.IH" [OF False] False show ?thesis
      by (simp add: natToString.simps [of n] digitsToNat_snoc)
  qed
qed

lemma natToString_length:
  "(n < 10 \<longrightarrow> length (natToString n) = 1) \<and> (n < 100 \<longrightarrow> length (natToString n) \<le> 2) \<and>
   (n < 1000 \<longrightarrow> length (natToString n) \<le> 3) \<and> (n < 10000 \<longrightarrow> length (natToString n) \<le> 4)"
proof -
  have a: "length (natToString n) = 1" if "n < 10" for n
    using that by (simp add: natToString.simps [of n])
  have b: "length (natToString n) \<le> 2" if "n < 100" for n
    using that a [of "n div 10"] by (simp add: natToString.simps [of n])
  have c: "length (natToString n) \<le> 3" if "n < 1000" for n
    using that b [of "n div 10"] by (simp add: natToString.simps [of n])
  have d: "length (natToString n) \<le> 4" if "n < 10000" for n
    using that c [of "n div 10"] by (simp add: natToString.simps [of n])
  from a b c d show ?thesis by blast
qed

lemma digitsToNat_zeros: "digitsToNat (replicate k (CHR ''0'') @ xs) = digitsToNat xs"
proof (induction k)
  case 0
  show ?case by simp
next
  case (Suc k)
  have "digitsToNat (CHR ''0'' # ys) = digitsToNat ys" for ys
    by (simp add: digitsToNat_def digitValue_def)
  with Suc show ?case by simp
qed

lemma padStart0_digits:
  assumes "length (natToString n) \<le> w"
  shows "length (padStart0 w n) = w \<and> list_all isDigit (padStart0 w n) \<and>
         digitsToNat (padStart0 w n) = n"
proof -
  have z: "isDigit (CHR ''0'')" by (simp add: isDigit_def)
  from assms natToString_digits [of n] z show ?thesis
    by (auto simp: padStart0_def digitsToNat_zeros list_all_iff)
qed

lemma digitsToNat_bound: "list_all isDigit xs \<Longrightarrow> digitsToNat xs < 10 ^ length xs"
proof (induction xs rule: rev_induct)
  case Nil
  show ?case by (simp add: digitsToNat_def)
next
  case (snoc c xs)
  then have "digitValue c \<le> 9" by (auto simp: isDigit_def digitValue_def)
  moreover from snoc have "digitsToNat xs < 10 ^ length xs" by simp
  ultimately show ?case by (simp add: digitsToNat_snoc)
qed

section \<open>Calendar dates as strings\<close>

lemma date_string_fields:
  assumes "length a = 4" "length b = 2" "length c = 2"
    "list_all isDigit a" "list_all isDigit b" "list_all isDigit c"
  shows "ISO_DATE_REGEX_test (a @ ''-'' @ b @ ''-'' @ c) \<and>
         take 4 (a @ ''-'' @ b @ ''-'' @ c) = a \<and>
         take 2 (drop 5 (a @ ''-'' @ b @ ''-'' @ c)) = b \<and>
         drop 8 (a @ ''-'' @ b @ ''-'' @ c) = c"
  using assms by (simp add: ISO_DATE_REGEX_test_def nth_append)

lemma Day_range:
  assumes "- 62167219200000 \<le> t" "t < 253402300800000"
  shows "- 719528 \<le> Day t \<and> Day t < 2932897"
proof -
  have "(- 62167219200000) div 86400000 \<le> t div (86400000::int)"
    using assms(1) by (intro zdiv_mono1) simp_all
  moreover have "t div (86400000::int) \<le> 253402300799999 div 86400000"
    using assms(2) by (intro zdiv_mono1) simp_all
  ultimately show ?thesis by (simp add: Day_def msPerDay_def)
qed

lemma padStart0_2:
  "n < 100 \<Longrightarrow> length (padStart0 2 n) = 2 \<and> list_all isDigit (padStart0 2 n) \<and>
     digitsToNat (padStart0 2 n) = n"
  using natToString_length [of n] by (intro padStart0_digits) simp

lemma padStart0_4:
  "n < 10000 \<Longrightarrow> length (padStart0 4 n) = 4 \<and> list_all isDigit (padStart0 4 n) \<and>
     digitsToNat (padStart0 4 n) = n"
  using natToString_length [of n] by (intro padStart0_digits) simp

lemma formatISODate_fields:
  assumes "0 \<le> YearFromTime t" "YearFromTime t \<le> 9999"
  shows "formatISODate t =
     padStart0 4 (nat (YearFromTime t)) @ ''-'' @ padStart0 2 (nat (MonthFromTime t + 1)) @ ''-'' @
     padStart0 2 (nat (DateFromTime t))"
proof -
  have "nat (YearFromTime t) < 10000" using assms by arith
  then have y: "length (padStart0 4 (nat (YearFromTime t))) = 4"
    using padStart0_4 by blast
  have "nat (MonthFromTime t + 1) < 100" using MonthFromTime_range [of t] by arith
  then have m: "length (padStart0 2 (nat (MonthFromTime t + 1))) = 2"
    using padStart0_2 by blast
  have "nat (DateFromTime t) < 100" using DateFromTime_range [of t] by arith
  then have d: "length (padStart0 2 (nat (DateFromTime t))) = 2"
    using padStart0_2 by blast
  from assms y m d show ?thesis
    by (simp add: formatISODate_def toISOString_def isoYear_def slice0_def Let_def)
qed

text \<open>
  For a time value in the years 0000 to 9999 the formatted date is a ten-character
  string \<open>YYYY-MM-DD\<close> holding the year, month and day of month of the time value, and
  reading it back gives the midnight of its day.
\<close>

lemma formatISODate_calendar:
  assumes "- 62167219200000 \<le> t" "t < 253402300800000"
  shows "wellFormedDate (formatISODate t) \<and>
         dateOfString (formatISODate t) = Day t * msPerDay \<and>
         int (digitsToNat (take 4 (formatISODate t))) = YearFromTime t \<and>
         int (digitsToNat (take 2 (drop 5 (formatISODate t)))) = MonthFromTime t + 1 \<and>
         int (digitsToNat (drop 8 (formatISODate t))) = DateFromTime t"
proof -
  define Y where "Y = nat (YearFromTime t)"
  define M where "M = nat (MonthFromTime t + 1)"
  define D where "D = nat (DateFromTime t)"
  have yr: "0 \<le> YearFromTime t" "YearFromTime t \<le> 9999"
    using YearFromDay_range [of "Day t"] Day_range [OF assms] by (simp_all add: YearFromTime_def)
  have Y: "int Y = YearFromTime t" "Y < 10000"
    using yr unfolding Y_def by arith+
  have M: "int M = MonthFromTime t + 1" "1 \<le> M" "M \<le> 12"
    using MonthFromTime_range [of t] unfolding M_def by arith+
  have D: "int D = DateFromTime t" "1 \<le> D" "D \<le> 31"
    using DateFromTime_range [of t] unfolding D_def by arith+
  have py: "length (padStart0 4 Y) = 4 \<and> list_all isDigit (padStart0 4 Y) \<and>
      digitsToNat (padStart0 4 Y) = Y"
    using Y by (intro padStart0_4) simp
  have pm: "length (padStart0 2 M) = 2 \<and> list_all isDigit (padStart0 2 M) \<and>
      digitsToNat (padStart0 2 M) = M"
    using M by (intro padStart0_2) simp
  have pd: "length (padStart0 2 D) = 2 \<and> list_all isDigit (padStart0 2 D) \<and>
      digitsToNat (padStart0 2 D) = D"
    using D by (intro padStart0_2) simp
  have f: "formatISODate t = padStart0 4 Y @ ''-'' @ padStart0 2 M @ ''-'' @ padStart0 2 D"
    unfolding Y_def M_def D_def by (rule formatISODate_fields [OF yr])
  have s: "ISO_DATE_REGEX_test (formatISODate t) \<and>
      take 4 (formatISODate t) = padStart0 4 Y \<and>
      take 2 (drop 5 (formatISODate t)) = padStart0 2 M \<and>
      drop 8 (formatISODate t) = padStart0 2 D"
    unfolding f using py pm pd by (intro date_string_fields) simp_all
  have v: "validMonthDay (formatISODate t)"
    using s pm pd M D by (simp add: validMonthDay_def Let_def)
  have "dateOfString (formatISODate t) =
      MakeDay (YearFromTime t) (MonthFromTime t) (DateFromTime t + 0) * msPerDay"
    using s py pm pd Y(1) M(1) D(1) by (simp add: dateOfString_def)
  then have r: "dateOfString (formatISODate t) = Day t * msPerDay"
    by (simp only: MakeDay_of_time) simp
  from s v r py pm pd Y(1) M(1) D(1) show ?thesis
    by (simp add: wellFormedDate_def)
qed

text \<open>
  A string the resolver accepts denotes the first day of its month plus the day number
  minus one, whether or not the month has that many days; the day it denotes lies in the
  year written in the string.
\<close>

lemma monthStart_range:
  assumes "0 \<le> m" "m \<le> 11"
  shows "0 \<le> monthStart leap m \<and> monthStart leap m \<le> (if leap then 335 else 334)"
  using assms by (simp add: monthStart_def Let_def)

lemma dateOfString_fields:
  assumes "wellFormedDate v"
  shows "dateOfString v =
     (DayFromYear (int (digitsToNat (take 4 v))) +
      monthStart (DaysInYear (int (digitsToNat (take 4 v))) = 366)
        (int (digitsToNat (take 2 (drop 5 v))) - 1) +
      int (digitsToNat (drop 8 v)) - 1) * msPerDay"
proof -
  let ?m = "int (digitsToNat (take 2 (drop 5 v))) - 1"
  from assms have "0 \<le> ?m" "?m \<le> 11"
    by (simp_all add: wellFormedDate_def validMonthDay_def Let_def)
  then have "?m div 12 = 0" "?m mod 12 = ?m" by simp_all
  then show ?thesis by (simp add: dateOfString_def MakeDay_def Let_def)
qed

lemma dateOfString_rollover:
  assumes "wellFormedDate v"
  shows "dateOfString v =
     dateOfString (take 8 v @ ''01'') + (int (digitsToNat (drop 8 v)) - 1) * msPerDay"
proof -
  from assms have len: "length v = 10" by (simp add: wellFormedDate_def ISO_DATE_REGEX_test_def)
  have one: "digitsToNat ''01'' = 1" by (simp add: digitsToNat_def digitValue_def)
  have a: "take 4 (take 8 v @ ''01'') = take 4 v"
    using len by simp
  have b: "take 2 (drop 5 (take 8 v @ ''01'')) = take 2 (drop 5 v)"
    using len by (simp add: drop_take)
  have c: "drop 8 (take 8 v @ ''01'') = ''01''"
    using len by simp
  show ?thesis
    unfolding dateOfString_def a b c one MakeDay_def Let_def
    by (simp add: algebra_simps)
qed

lemma dateOfString_range:
  assumes "wellFormedDate v"
  shows "- 62167219200000 \<le> dateOfString v \<and> dateOfString v < 253402300800000"
proof -
  let ?y = "int (digitsToNat (take 4 v))"
  let ?m = "int (digitsToNat (take 2 (drop 5 v))) - 1"
  let ?d = "int (digitsToNat (drop 8 v))"
  let ?leap = "DaysInYear ?y = 366"
  from assms have len: "length v = 10" and dig: "list_all isDigit (take 4 v)"
    by (simp_all add: wellFormedDate_def ISO_DATE_REGEX_test_def)
  from assms have m: "0 \<le> ?m" "?m \<le> 11" and d: "1 \<le> ?d" "?d \<le> 31"
    by (simp_all add: wellFormedDate_def validMonthDay_def Let_def)
  have "digitsToNat (take 4 v) < 10 ^ length (take 4 v)"
    using dig by (rule digitsToNat_bound)
  then have y: "0 \<le> ?y" "?y + 1 \<le> 10000" using len by simp_all
  have lo: "- 719528 \<le> DayFromYear ?y"
    using DayFromYear_mono [OF y(1)] by (simp add: DayFromYear_0)
  have "DayFromYear (?y + 1) \<le> 2932897"
    using DayFromYear_mono [OF y(2)] by (simp add: DayFromYear_10000)
  then have hi: "DayFromYear ?y + DaysInYear ?y \<le> 2932897"
    by (simp add: DayFromYear_step)
  have l: "DaysInYear ?y = (if ?leap then 366 else 365)"
    by (simp add: DaysInYear_def)
  note ms = monthStart_range [OF m, of ?leap]
  define k where "k = DayFromYear ?y + monthStart ?leap ?m + ?d - 1"
  have k: "- 719528 \<le> k" "k \<le> 2932896"
    using lo hi l ms d by (simp_all add: k_def split: if_splits)
  have e: "dateOfString v = k * 86400000"
    unfolding dateOfString_fields [OF assms] k_def by (simp add: msPerDay_def)
  from k show ?thesis unfolding e by simp
qed

section \<open>What the resolver returns\<close>

lemma Day_midnight: "Day (k * msPerDay) * msPerDay = k * msPerDay"
  by (simp add: Day_def msPerDay_def)

lemma Day_dateOfString: "Day (dateOfString v) * msPerDay = dateOfString v"
  unfolding dateOfString_def by (rule Day_midnight)

lemma Day_shift:
  assumes "Day x * msPerDay = x"
  shows "Day (x + n * msPerDay) * msPerDay = x + n * msPerDay"
proof -
  have "x + n * msPerDay = (Day x + n) * msPerDay"
    using assms by (simp add: algebra_simps)
  then show ?thesis by (simp only: Day_midnight)
qed

lemma Day_minus6:
  assumes "Day x * msPerDay = x"
  shows "Day (x - 6 * msPerDay) * msPerDay = x - 6 * msPerDay"
  using Day_shift [OF assms, of "- 6"] by simp

lemma Day_plus6:
  assumes "Day x * msPerDay = x"
  shows "Day (x + 6 * msPerDay) * msPerDay = x + 6 * msPerDay"
  using Day_shift [OF assms, of 6] by simp

lemma Day_today: "Day (Day today * msPerDay) * msPerDay = Day today * msPerDay"
  by (rule Day_midnight)

lemma computeDateRange_spec:
  assumes "0 \<le> today"
  shows "(isl (computeDateRange sd ed today) \<longleftrightarrow>
            (truthy sd \<and> \<not> wellFormedDate (the sd)) \<or>
            (truthy ed \<and> \<not> wellFormedDate (the ed)) \<or>
            (truthy sd \<and> truthy ed \<and> dateOfString (the ed) < dateOfString (the sd)) \<or>
            (truthy sd \<and> Day today * msPerDay < dateOfString (the sd)) \<or>
            (truthy ed \<and> Day today * msPerDay < dateOfString (the ed))) \<and>
         (\<not> isl (computeDateRange sd ed today) \<longrightarrow>
            (let e = (if truthy ed then dateOfString (the ed)
                      else if truthy sd
                        then min (dateOfString (the sd) + 6 * msPerDay) (Day today * msPerDay)
                        else Day today * msPerDay);
                 s = (if truthy sd then dateOfString (the sd) else e - 6 * msPerDay)
             in s \<le> e \<and> e \<le> Day today * msPerDay \<and>
                Day s * msPerDay = s \<and> Day e * msPerDay = e \<and>
                computeDateRange sd ed today =
                  Inr \<lparr>startDate = formatISODate s, endDate = formatISODate e\<rparr>)) \<and>
         (\<not> truthy sd \<and> truthy ed \<and> wellFormedDate (the ed) \<and>
          dateOfString (the ed) \<le> Day today * msPerDay \<longrightarrow>
            computeDateRange sd ed today =
              Inr \<lparr>startDate = formatISODate (dateOfString (the ed) - 6 * msPerDay),
                   endDate = formatISODate (dateOfString (the ed))\<rparr>)"
proof -
  have pos: "0 < msPerDay" by (rule msPerDay_pos)
  note mid = Day_dateOfString Day_today Day_minus6 Day_plus6
  consider (both) "truthy sd" "truthy ed" | (start) "truthy sd" "\<not> truthy ed"
    | (en) "\<not> truthy sd" "truthy ed" | (neither) "\<not> truthy sd" "\<not> truthy ed"
    by blast
  then show ?thesis
  proof cases
    case both
    show ?thesis
      unfolding computeDateRange_both [OF assms both]
      using both by (auto simp: parseISODate_cases Let_def mid)
  next
    case start
    show ?thesis
      unfolding computeDateRange_start [OF assms start]
      using start pos by (auto simp: parseISODate_cases Let_def min_def mid)
  next
    case en
    show ?thesis
      unfolding computeDateRange_end [OF assms en]
      using en pos by (auto simp: parseISODate_cases Let_def mid)
  next
    case neither
    show ?thesis
      unfolding computeDateRange_neither [OF assms neither]
      using neither pos by (auto simp: Let_def mid)
  qed
qed

lemma dateOfString_2024_02_31: "dateOfString ''2024-02-31'' = 1709337600000"
  by (simp add: dateOfString_def parse_eval)

lemma dateOfString_2024_03_02: "dateOfString ''2024-03-02'' = 1709337600000"
  by (simp add: dateOfString_def parse_eval)

lemma parse_2024_02_31: "parseISODate ''2024-02-31'' f = Inr 1709337600000"
  by (simp add: parse_eval)

lemma format_2024_03_02: "formatISODate 1709337600000 = ''2024-03-02''"
  by (simp add: cal_eval)

lemma format_2024_03_08: "formatISODate 1709856000000 = ''2024-03-08''"
  by (simp add: cal_eval)

lemma rollover_end_before_start:
  "computeDateRange (Some ''2024-02-31'') (Some ''2024-03-01'') 1717977600000 =
     Inl (Error ''endDate must be on or after startDate.'')"
  by (simp add: computeDateRange_def truthy_def ensureChronology_def parse_eval)

lemma rollover_start_only:
  "computeDateRange (Some ''2024-02-31'') None 1717977600000 =
     Inr \<lparr>startDate = ''2024-03-02'', endDate = ''2024-03-08''\<rparr>"
proof -
  have d: "Day 1717977600000 * msPerDay = 1717977600000"
    by (simp add: Day_def msPerDay_def)
  have m: "min (1709337600000 + 6 * msPerDay) 1717977600000 = 1709856000000"
    by (simp add: msPerDay_def)
  show ?thesis
    using computeDateRange_start_only [of 1717977600000 None "''2024-02-31''" 1709337600000]
    by (simp add: d parse_2024_02_31 truthy_def m format_2024_03_02 format_2024_03_08)
qed

text \<open>
  Outside the years 0000 to 9999 \<open>toISOString\<close> writes the year with a sign and six
  digits, and the first ten characters of that are not a date: six days before
  0000-01-03 comes out as \<open>-000001-12\<close>.
\<close>

lemma computeDateRange_before_year_0:
  "computeDateRange None (Some ''0000-01-03'') 1717977600000 =
     Inr \<lparr>startDate = ''-000001-12'', endDate = ''0000-01-03''\<rparr>"
proof -
  have t: "(0::int) \<le> 1717977600000" by simp
  have a: "\<not> truthy None" and b: "truthy (Some ''0000-01-03'')"
    by (simp_all add: truthy_def)
  have p: "parseISODate ''0000-01-03'' f = Inr (- 62167046400000)" for f
    by (simp add: parse_eval)
  have d: "Day 1717977600000 * msPerDay = 1717977600000"
    by (simp add: Day_def msPerDay_def)
  have m: "- 62167046400000 - 6 * msPerDay = - 62167564800000"
    by (simp add: msPerDay_def)
  have f1: "formatISODate (- 62167564800000) = ''-000001-12''"
    by (simp add: cal_eval)
  have f2: "formatISODate (- 62167046400000) = ''0000-01-03''"
    by (simp add: cal_eval)
  show ?thesis
    unfolding computeDateRange_end [OF t a b]
    by (simp add: p d m f1 f2)
qed

text \<open>
  Claim C7, as the code has it. A supplied (non-empty) date is accepted when it is a
  \<open>YYYY-MM-DD\<close> string with month 01..12 and day 01..31. It is read as the first day
  of its month plus the day number minus one, so a day number past the end of its month
  counts on into the next month (\<open>2024-02-31\<close> is read as \<open>2024-03-02\<close>); the date so
  read lies in the years 0000 to 9999. For today not before 1970, with today meaning the
  UTC midnight of the current day, the resolver raises exactly when a supplied date is not
  accepted, or both dates are supplied and the end as read is before the start as read, or
  a supplied date as read is after today. Otherwise it returns the formatted forms of two
  UTC midnights start \<le> end \<le> today: a supplied date is returned as read; given only
  a start, the end is the start plus six days, clamped to today; given only an end, the
  start is the end minus six days, with no clamping and no check of its own; given
  neither, the end is today and the start six days before. The formatted form of a time
  value in the years 0000 to 9999 is the string \<open>YYYY-MM-DD\<close> of its year, month and day
  of month, which is accepted and reads back as the midnight of that day.
\<close>

theorem computeDateRange_raises_iff:
  assumes "0 \<le> today"
  shows "(isl (computeDateRange sd ed today) \<longleftrightarrow>
            (truthy sd \<and> \<not> wellFormedDate (the sd)) \<or>
            (truthy ed \<and> \<not> wellFormedDate (the ed)) \<or>
            (truthy sd \<and> truthy ed \<and> dateOfString (the ed) < dateOfString (the sd)) \<or>
            (truthy sd \<and> Day today * msPerDay < dateOfString (the sd)) \<or>
            (truthy ed \<and> Day today * msPerDay < dateOfString (the ed))) \<and>
         (\<not> isl (computeDateRange sd ed today) \<longrightarrow>
            (let e = (if truthy ed then dateOfString (the ed)
                      else if truthy sd
                        then min (dateOfString (the sd) + 6 * msPerDay) (Day today * msPerDay)
                        else Day today * msPerDay);
                 s = (if truthy sd then dateOfString (the sd) else e - 6 * msPerDay)
             in s \<le> e \<and> e \<le> Day today * msPerDay \<and>
                Day s * msPerDay = s \<and> Day e * msPerDay = e \<and>
                computeDateRange sd ed today =
                  Inr \<lparr>startDate = formatISODate s, endDate = formatISODate e\<rparr>)) \<and>
         (\<not> truthy sd \<and> truthy ed \<and> wellFormedDate (the ed) \<and>
          dateOfString (the ed) \<le> Day today * msPerDay \<longrightarrow>
            computeDateRange sd ed today =
              Inr \<lparr>startDate = formatISODate (dateOfString (the ed) - 6 * msPerDay),
                   endDate = formatISODate (dateOfString (the ed))\<rparr>) \<and>
         (\<forall>v. wellFormedDate v \<longrightarrow>
            dateOfString v =
              dateOfString (take 8 v @ ''01'') + (int (digitsToNat (drop 8 v)) - 1) * msPerDay \<and>
            - 62167219200000 \<le> dateOfString v \<and> dateOfString v < 253402300800000) \<and>
         (\<forall>t. - 62167219200000 \<le> t \<and> t < 253402300800000 \<longrightarrow>
            wellFormedDate (formatISODate t) \<and>
            dateOfString (formatISODate t) = Day t * msPerDay \<and>
            int (digitsToNat (take 4 (formatISODate t))) = YearFromTime t \<and>
            int (digitsToNat (take 2 (drop 5 (formatISODate t)))) = MonthFromTime t + 1 \<and>
            int (digitsToNat (drop 8 (formatISODate t))) = DateFromTime t) \<and>
         dateOfString ''2024-02-31'' = dateOfString ''2024-03-02'' \<and>
         computeDateRange (Some ''2024-02-31'') (Some ''2024-03-01'') 1717977600000 =
           Inl (Error ''endDate must be on or after startDate.'') \<and>
         computeDateRange (Some ''2024-02-31'') None 1717977600000 =
           Inr \<lparr>startDate = ''2024-03-02'', endDate = ''2024-03-08''\<rparr>"
proof -
  note sp = computeDateRange_spec [OF assms, of sd ed]
  have r: "\<forall>v. wellFormedDate v \<longrightarrow>
            dateOfString v =
              dateOfString (take 8 v @ ''01'') + (int (digitsToNat (drop 8 v)) - 1) * msPerDay \<and>
            - 62167219200000 \<le> dateOfString v \<and> dateOfString v < 253402300800000"
    using dateOfString_rollover dateOfString_range by simp
  have f: "\<forall>t. - 62167219200000 \<le> t \<and> t < 253402300800000 \<longrightarrow>
            wellFormedDate (formatISODate t) \<and>
            dateOfString (formatISODate t) = Day t * msPerDay \<and>
            int (digitsToNat (take 4 (formatISODate t))) = YearFromTime t \<and>
            int (digitsToNat (take 2 (drop 5 (formatISODate t)))) = MonthFromTime t + 1 \<and>
            int (digitsToNat (drop 8 (formatISODate t))) = DateFromTime t"
    using formatISODate_calendar by simp
  have c: "dateOfString ''2024-02-31'' = dateOfString ''2024-03-02''"
    by (simp only: dateOfString_2024_02_31 dateOfString_2024_03_02)
  show ?thesis
    by (rule conjI [OF sp [THEN conjunct1] conjI [OF sp [THEN conjunct2, THEN conjunct1]
          conjI [OF sp [THEN conjunct2, THEN conjunct2] conjI [OF r conjI [OF f
          conjI [OF c conjI [OF rollover_end_before_start rollover_start_only]]]]]]])
qed

theorem computeDateRange_raises_iff_witness:
  "(0::int) \<le> 1717977600000 \<and> \<not> truthy None \<and> truthy (Some ''2024-06-10'') \<and>
   wellFormedDate ''2024-06-10'' \<and>
   dateOfString ''2024-06-10'' \<le> Day 1717977600000 * msPerDay \<and>
   computeDateRange None (Some ''2024-06-10'') 1717977600000 =
     Inr \<lparr>startDate = ''2024-06-04'', endDate = ''2024-06-10''\<rparr> \<and>
   wellFormedDate ''2024-02-31'' \<and>
   dateOfString ''2024-02-31'' = dateOfString ''2024-02-01'' + 30 * msPerDay \<and>
   (- 62167219200000::int) \<le> 1717459200000 \<and> (1717459200000::int) < 253402300800000 \<and>
   wellFormedDate (formatISODate 1717459200000) \<and>
   dateOfString (formatISODate 1717459200000) = 1717459200000"
proof -
  have h0: "(0::int) \<le> 1717977600000" by simp
  have h1: "\<not> truthy None" and h2: "truthy (Some ''2024-06-10'')"
    by (simp_all add: truthy_def)
  have h3: "wellFormedDate (the (Some ''2024-06-10''))"
    by (simp add: wellFormed_2024_06_10)
  have h4: "dateOfString (the (Some ''2024-06-10'')) \<le> Day 1717977600000 * msPerDay"
    by (simp add: dateOfString_2024_06_10 Day_def msPerDay_def)
  have m: "1717977600000 - 6 * msPerDay = 1717459200000"
    by (simp add: msPerDay_def)
  note th = computeDateRange_raises_iff [OF h0, of None "Some ''2024-06-10''"]
  note only_end = th [THEN conjunct2, THEN conjunct2, THEN conjunct1, THEN mp]
  note reading = th [THEN conjunct2, THEN conjunct2, THEN conjunct2, THEN conjunct1,
      THEN spec, THEN mp]
  note formatted = th [THEN conjunct2, THEN conjunct2, THEN conjunct2, THEN conjunct2,
      THEN conjunct1, THEN spec, THEN mp]
  have "computeDateRange None (Some ''2024-06-10'') 1717977600000 =
      Inr \<lparr>startDate = formatISODate (dateOfString (the (Some ''2024-06-10'')) - 6 * msPerDay),
           endDate = formatISODate (dateOfString (the (Some ''2024-06-10'')))\<rparr>"
    using h1 h2 h3 h4 by (intro only_end conjI)
  then have a: "computeDateRange None (Some ''2024-06-10'') 1717977600000 =
     Inr \<lparr>startDate = ''2024-06-04'', endDate = ''2024-06-10''\<rparr>"
    by (simp add: dateOfString_2024_06_10 m format_2024_06_04 format_2024_06_10)
  have w: "wellFormedDate ''2024-02-31''"
    by (simp add: wellFormedDate_def validMonthDay_def parse_eval)
  have d31: "int (digitsToNat (drop 8 ''2024-02-31'')) - 1 = 30"
    by (simp add: digitsToNat_def digitValue_def)
  have b: "dateOfString ''2024-02-31'' = dateOfString ''2024-02-01'' + 30 * msPerDay"
    using reading [OF w, THEN conjunct1] unfolding d31 by simp
  have r: "(- 62167219200000::int) \<le> 1717459200000 \<and> (1717459200000::int) < 253402300800000"
    by simp
  have dd: "Day 1717459200000 * msPerDay = 1717459200000"
    by (simp add: Day_def msPerDay_def)
  note fm = formatted [OF r]
  have c: "wellFormedDate (formatISODate 1717459200000)"
    by (rule fm [THEN conjunct1])
  have d: "dateOfString (formatISODate 1717459200000) = 1717459200000"
    using fm [THEN conjunct2, THEN conjunct1] by (simp only: dd)
  from h0 h1 h2 h3 h4 a w b r c d show ?thesis by simp
qed

text \<open>
  Claim C7 as stated fails: \<open>2024-01-32\<close> has the format \<open>YYYY-MM-DD\<close>, is the only
  date supplied and lies before today (2024-06-10), yet the resolver raises, by its second
  check in \<open>parseISODate\<close>.
\<close>

theorem computeDateRange_unparsable_counterexample:
  "ISO_DATE_REGEX_test ''2024-01-32'' \<and>
   dateOfString ''2024-01-32'' < 1717977600000 \<and>
   computeDateRange (Some ''2024-01-32'') None 1717977600000 =
     Inl (Error ''Invalid startDate. Unable to parse date: 2024-01-32'')"
  by (simp add: computeDateRange_def truthy_def dateOfString_def parse_eval)

section \<open>Pagination\<close>

lemma accumulatePages_spec:
  "accumulatePages f target perPage rows page = Inr (rows', calls) \<Longrightarrow>
     rows' = rows @ concat (map snd calls) \<and>
     map fst calls = map (\<lambda>i. page + int i) [0..<length calls] \<and>
     (\<forall>(p, b) \<in> set calls. f p = Inr b) \<and>
     (\<forall>b \<in> set (butlast (map snd calls)). b \<noteq> [] \<and> perPage \<le> int (length b)) \<and>
     (\<forall>k < length calls. int (length rows + length (concat (map snd (take k calls)))) < target) \<and>
     (target \<le> int (length rows') \<or>
      (calls \<noteq> [] \<and> (snd (last calls) = [] \<or> int (length (snd (last calls))) < perPage)))"
proof (induction f target perPage rows page arbitrary: rows' calls rule: accumulatePages.induct)
  case (1 f target perPage rows page)
  show ?case
  proof (cases "int (length rows) < target")
    case False
    with "1.prems" show ?thesis
      by (simp add: accumulatePages.simps [of f target perPage rows page])
  next
    case lt: True
    show ?thesis
    proof (cases "f page")
      case (Inl e)
      with lt "1.prems" show ?thesis
        by (simp add: accumulatePages.simps [of f target perPage rows page])
    next
      case (Inr batch)
      show ?thesis
      proof (cases "batch = [] \<or> int (length batch) < perPage")
        case True
        with lt Inr "1.prems" show ?thesis
          by (auto simp: accumulatePages.simps [of f target perPage rows page] split: if_splits)
      next
        case full: False
        with lt Inr "1.prems" obtain cs where
          rec: "accumulatePages f target perPage (rows @ batch) (page + 1) = Inr (rows', cs)"
          and calls: "calls = (page, batch) # cs"
          by (auto simp: accumulatePages.simps [of f target perPage rows page]
              split: sum.splits prod.splits)
        from full have ne: "batch \<noteq> []" and ge: "\<not> int (length batch) < perPage" by auto
        note ih = "1.IH" [OF lt Inr ne ge rec]
        have p1: "rows' = rows @ concat (map snd calls)"
          using ih calls by simp
        have p2: "map fst calls = map (\<lambda>i. page + int i) [0..<length calls]"
        proof -
          have "map (\<lambda>i. page + int i) [0..<Suc (length cs)] =
                page # map (\<lambda>i. page + 1 + int i) [0..<length cs]"
            by (simp add: map_upt_Suc del: upt_Suc)
          with ih calls show ?thesis by simp
        qed
        have p3: "\<forall>(p, b) \<in> set calls. f p = Inr b"
          using ih calls Inr by simp
        have p4: "\<forall>b \<in> set (butlast (map snd calls)). b \<noteq> [] \<and> perPage \<le> int (length b)"
          using ih calls ne ge by auto
        have p5: "\<forall>k < length calls.
            int (length rows + length (concat (map snd (take k calls)))) < target"
        proof (intro allI impI)
          fix k assume k: "k < length calls"
          show "int (length rows + length (concat (map snd (take k calls)))) < target"
          proof (cases k)
            case 0
            with lt show ?thesis by simp
          next
            case (Suc j)
            with k calls have "j < length cs" by simp
            with ih have "int (length (rows @ batch) + length (concat (map snd (take j cs)))) < target"
              by blast
            with Suc calls show ?thesis by (simp add: add.assoc)
          qed
        qed
        have p6: "target \<le> int (length rows') \<or>
            (calls \<noteq> [] \<and> (snd (last calls) = [] \<or> int (length (snd (last calls))) < perPage))"
          using ih calls by auto
        from p1 p2 p3 p4 p5 p6 show ?thesis by blast
      qed
    qed
  qed
qed

lemma accumulatePages_total:
  "\<forall>p. \<exists>b. f p = Inr b \<Longrightarrow> \<exists>r c. accumulatePages f target perPage rows page = Inr (r, c)"
proof (induction f target perPage rows page rule: accumulatePages.induct)
  case (1 f target perPage rows page)
  from "1.prems" obtain batch where b: "f page = Inr batch" by blast
  show ?case
  proof (cases "int (length rows) < target \<and> batch \<noteq> [] \<and> \<not> int (length batch) < perPage")
    case True
    then have "\<exists>r c. accumulatePages f target perPage (rows @ batch) (page + 1) = Inr (r, c)"
      using "1.IH" [of batch] b "1.prems" by blast
    with True b show ?thesis
      by (auto simp: accumulatePages.simps [of f target perPage rows page])
  next
    case False
    with b show ?thesis
      by (auto simp: accumulatePages.simps [of f target perPage rows page])
  qed
qed

lemma slice0_length: "0 \<le> n \<or> xs = [] \<Longrightarrow> int (length (slice0 n xs)) \<le> max 0 n"
  by (auto simp: slice0_def)

lemma executeTrace_spec:
  assumes "executeTrace fetcher ctx = Inr (result, calls)"
  shows "result = slice0 (ctxTarget ctx) (concat (map snd calls)) \<and>
     int (length result) \<le> max 0 (ctxTarget ctx) \<and>
     map fst calls = map (\<lambda>i. ctxPage ctx + int i) [0..<length calls] \<and>
     (\<forall>(p, b) \<in> set calls. pageFetcher fetcher ctx (ctxPerPage ctx) p = Inr b) \<and>
     (\<forall>b \<in> set (butlast (map snd calls)). b \<noteq> [] \<and> ctxPerPage ctx \<le> int (length b)) \<and>
     (\<forall>k < length calls. int (length (concat (map snd (take k calls)))) < ctxTarget ctx) \<and>
     (ctxTarget ctx \<le> int (length (concat (map snd calls))) \<or>
      (calls \<noteq> [] \<and> (snd (last calls) = [] \<or>
         int (length (snd (last calls))) < ctxPerPage ctx)))"
proof -
  from assms obtain rows where
    acc: "accumulatePages (pageFetcher fetcher ctx (ctxPerPage ctx)) (ctxTarget ctx) (ctxPerPage ctx)
            [] (ctxPage ctx) = Inr (rows, calls)"
    and res: "result = slice0 (ctxTarget ctx) rows"
    by (auto simp: executeTrace_def ctxPage_def ctxTarget_def ctxPerPage_def Let_def
        split: sum.splits prod.splits)
  note sp = accumulatePages_spec [OF acc]
  have rows: "rows = concat (map snd calls)" using sp by simp
  have "0 \<le> ctxTarget ctx \<or> rows = []"
  proof (cases calls)
    case Nil
    with rows show ?thesis by simp
  next
    case (Cons c cs)
    with sp have "int (length (concat (map snd (take 0 calls)))) < ctxTarget ctx"
      by (metis length_greater_0_conv list.distinct(1) add_0 list.size(3))
    then show ?thesis by simp
  qed
  then have len: "int (length result) \<le> max 0 (ctxTarget ctx)"
    unfolding res by (rule slice0_length)
  from sp rows res len show ?thesis by auto
qed

lemma example_trace:
  "executeTrace (fetchPurchaseSessions (tableQuery [r1, r2, r3]) project)
      \<lparr>tc_startDate = sd, tc_endDate = ed, tc_limit = Some 10, tc_page = Some 1,
       tc_pageSize = Some 2, tc_fetchAllPages = True, tc_truncateStrings = ts\<rparr> =
    (let t = (case ts of None \<Rightarrow> True | Some b \<Rightarrow> b) in
     Inr ([project t r1, project t r2, project t r3],
          [(1, [project t r1, project t r2]), (2, [project t r3])]))"
  by (simp add: executeTrace_def accumulatePages.simps pageFetcher_def fetchPurchaseSessions_def
      tableQuery_def MAX_ROWS_def DEFAULT_LIMIT_def DEFAULT_PAGE_def slice0_def Let_def)

lemma executeTrace_total:
  "\<forall>fetcher ctx. (\<forall>opts. \<exists>b. fetcher opts = Inr b) \<longrightarrow>
      (\<exists>result calls. executeTrace fetcher ctx = Inr (result, calls))"
proof (intro allI impI)
  fix fetcher :: "FetchOptions \<Rightarrow> error + 'a list" and ctx
  assume ok: "\<forall>opts. \<exists>b. fetcher opts = Inr b"
  then have "\<forall>p. \<exists>b. pageFetcher fetcher ctx (ctxPerPage ctx) p = Inr b"
    by (simp add: pageFetcher_def)
  from accumulatePages_total [OF this, of "ctxTarget ctx" "ctxPerPage ctx" "[]" "ctxPage ctx"]
  show "\<exists>result calls. executeTrace fetcher ctx = Inr (result, calls)"
    by (auto simp: executeTrace_def ctxPage_def ctxTarget_def ctxPerPage_def Let_def)
qed

lemma execute_spec:
  "\<forall>fetcher ctx result calls.
      tc_fetchAllPages ctx \<and> executeTrace fetcher ctx = Inr (result, calls) \<longrightarrow>
      execute fetcher ctx = Inr result \<and>
      result = slice0 (ctxTarget ctx) (concat (map snd calls)) \<and>
      int (length result) \<le> max 0 (ctxTarget ctx) \<and>
      map fst calls = map (\<lambda>i. ctxPage ctx + int i) [0..<length calls] \<and>
      (\<forall>(p, b) \<in> set calls. pageFetcher fetcher ctx (ctxPerPage ctx) p = Inr b) \<and>
      (\<forall>b \<in> set (butlast (map snd calls)). b \<noteq> [] \<and> ctxPerPage ctx \<le> int (length b)) \<and>
      (\<forall>k < length calls. int (length (concat (map snd (take k calls)))) < ctxTarget ctx) \<and>
      (ctxTarget ctx \<le> int (length (concat (map snd calls))) \<or>
       (calls \<noteq> [] \<and> (snd (last calls) = [] \<or>
          int (length (snd (last calls))) < ctxPerPage ctx)))"
proof (intro allI impI, elim conjE, rule conjI)
  fix fetcher :: "FetchOptions \<Rightarrow> error + 'a list" and ctx result calls
  assume a: "tc_fetchAllPages ctx" and e: "executeTrace fetcher ctx = Inr (result, calls)"
  from a e show "execute fetcher ctx = Inr result"
    by (simp add: execute_def)
  from executeTrace_spec [OF e]
  show "result = slice0 (ctxTarget ctx) (concat (map snd calls)) \<and>
      int (length result) \<le> max 0 (ctxTarget ctx) \<and>
      map fst calls = map (\<lambda>i. ctxPage ctx + int i) [0..<length calls] \<and>
      (\<forall>(p, b) \<in> set calls. pageFetcher fetcher ctx (ctxPerPage ctx) p = Inr b) \<and>
      (\<forall>b \<in> set (butlast (map snd calls)). b \<noteq> [] \<and> ctxPerPage ctx \<le> int (length b)) \<and>
      (\<forall>k < length calls. int (length (concat (map snd (take k calls)))) < ctxTarget ctx) \<and>
      (ctxTarget ctx \<le> int (length (concat (map snd calls))) \<or>
       (calls \<noteq> [] \<and> (snd (last calls) = [] \<or>
          int (length (snd (last calls))) < ctxPerPage ctx)))" .
qed

lemma example_three_rows:
  "\<forall>r1 r2 r3 project sd ed.
      executeTrace (fetchPurchaseSessions (tableQuery [r1, r2, r3]) project)
        \<lparr>tc_startDate = sd, tc_endDate = ed, tc_limit = Some 10, tc_page = Some 1,
         tc_pageSize = Some 2, tc_fetchAllPages = True, tc_truncateStrings = Some True\<rparr> =
      Inr ([project True r1, project True r2, project True r3],
           [(1, [project True r1, project True r2]), (2, [project True r3])])"
proof (intro allI)
  fix r1 r2 r3 :: 'a and project :: "bool \<Rightarrow> 'a \<Rightarrow> 'b" and sd ed
  show "executeTrace (fetchPurchaseSessions (tableQuery [r1, r2, r3]) project)
        \<lparr>tc_startDate = sd, tc_endDate = ed, tc_limit = Some 10, tc_page = Some 1,
         tc_pageSize = Some 2, tc_fetchAllPages = True, tc_truncateStrings = Some True\<rparr> =
      Inr ([project True r1, project True r2, project True r3],
           [(1, [project True r1, project True r2]), (2, [project True r3])])"
    using example_trace [of r1 r2 r3 project sd ed "Some True"] by simp
qed

text \<open>
  Claim C5. In multi-page mode the tool fetches consecutive pages of \<open>pageSize\<close> rows from
  the requested page on and appends them. It returns whenever no fetch fails. A page is
  fetched only while fewer rows than the target have been accumulated, every page but the
  last one fetched is non-empty and full, and at the end the target is reached or the last
  page was empty or short. The result is the accumulated rows cut to at most the target.
  With \<open>pageSize = 2\<close>, three available rows and \<open>limit = 10\<close> there are exactly two
  fetches (two rows, then one row) and the result has the three rows.
\<close>

theorem execute_accumulates_pages:
  "(\<forall>fetcher ctx. (\<forall>opts. \<exists>b. fetcher opts = Inr b) \<longrightarrow>
      (\<exists>result calls. executeTrace fetcher ctx = Inr (result, calls))) \<and>
   (\<forall>fetcher ctx result calls.
      tc_fetchAllPages ctx \<and> executeTrace fetcher ctx = Inr (result, calls) \<longrightarrow>
      execute fetcher ctx = Inr result \<and>
      result = slice0 (ctxTarget ctx) (concat (map snd calls)) \<and>
      int (length result) \<le> max 0 (ctxTarget ctx) \<and>
      map fst calls = map (\<lambda>i. ctxPage ctx + int i) [0..<length calls] \<and>
      (\<forall>(p, b) \<in> set calls. pageFetcher fetcher ctx (ctxPerPage ctx) p = Inr b) \<and>
      (\<forall>b \<in> set (butlast (map snd calls)). b \<noteq> [] \<and> ctxPerPage ctx \<le> int (length b)) \<and>
      (\<forall>k < length calls. int (length (concat (map snd (take k calls)))) < ctxTarget ctx) \<and>
      (ctxTarget ctx \<le> int (length (concat (map snd calls))) \<or>
       (calls \<noteq> [] \<and> (snd (last calls) = [] \<or>
          int (length (snd (last calls))) < ctxPerPage ctx)))) \<and>
   (\<forall>r1 r2 r3 project sd ed.
      executeTrace (fetchPurchaseSessions (tableQuery [r1, r2, r3]) project)
        \<lparr>tc_startDate = sd, tc_endDate = ed, tc_limit = Some 10, tc_page = Some 1,
         tc_pageSize = Some 2, tc_fetchAllPages = True, tc_truncateStrings = Some True\<rparr> =
      Inr ([project True r1, project True r2, project True r3],
           [(1, [project True r1, project True r2]), (2, [project True r3])]))"
  by (intro conjI executeTrace_total execute_spec example_three_rows)

theorem execute_accumulates_pages_witness:
  "tc_fetchAllPages \<lparr>tc_startDate = None, tc_endDate = None, tc_limit = Some 10,
      tc_page = Some 1, tc_pageSize = Some 2, tc_fetchAllPages = True,
      tc_truncateStrings = Some True\<rparr> \<and>
   executeTrace (fetchPurchaseSessions (tableQuery [1, 2, 3 :: nat]) (\<lambda>t r. r))
      \<lparr>tc_startDate = None, tc_endDate = None, tc_limit = Some 10,
       tc_page = Some 1, tc_pageSize = Some 2, tc_fetchAllPages = True,
       tc_truncateStrings = Some True\<rparr> = Inr ([1, 2, 3], [(1, [1, 2]), (2, [3])]) \<and>
   execute (fetchPurchaseSessions (tableQuery [1, 2, 3 :: nat]) (\<lambda>t r. r))
      \<lparr>tc_startDate = None, tc_endDate = None, tc_limit = Some 10,
       tc_page = Some 1, tc_pageSize = Some 2, tc_fetchAllPages = True,
       tc_truncateStrings = Some True\<rparr> = Inr [1, 2, 3]"
proof -
  let ?ctx = "\<lparr>tc_startDate = None, tc_endDate = None, tc_limit = Some 10,
      tc_page = Some 1, tc_pageSize = Some 2, tc_fetchAllPages = True,
      tc_truncateStrings = Some True\<rparr>"
  let ?f = "fetchPurchaseSessions (tableQuery [1, 2, 3 :: nat]) (\<lambda>t r. r)"
  have h: "tc_fetchAllPages ?ctx" by simp
  note t3 = execute_accumulates_pages [THEN conjunct2, THEN conjunct2, rule_format]
  note t2 = execute_accumulates_pages [THEN conjunct2, THEN conjunct1, rule_format]
  have t: "executeTrace ?f ?ctx = Inr ([1, 2, 3], [(1, [1, 2]), (2, [3])])"
    by (rule t3)
  have "execute ?f ?ctx = Inr [1, 2, 3]"
    using t2 [of ?ctx ?f "[1, 2, 3]" "[(1, [1, 2]), (2, [3])]"] h t by blast
  with h t show ?thesis by blast
qed

section \<open>Case conversion\<close>

lemma upperChar_lowerChar: "upperChar (lowerChar c) = upperChar c"
  by (auto simp: upperChar_def lowerChar_def)

lemma lowerChar_upperChar: "lowerChar (upperChar c) = lowerChar c"
  by (auto simp: upperChar_def lowerChar_def)

lemma lowerChar_idem: "lowerChar (lowerChar c) = lowerChar c"
  by (auto simp: lowerChar_def)

lemma upperChar_idem: "upperChar (upperChar c) = upperChar c"
  by (auto simp: upperChar_def)

lemma toLowerCase_toUpperCase: "toLowerCase (toUpperCase s) = toLowerCase s"
  by (simp add: toLowerCase_def toUpperCase_def lowerChar_upperChar)

lemma toUpperCase_toLowerCase: "toUpperCase (toLowerCase s) = toUpperCase s"
  by (simp add: toLowerCase_def toUpperCase_def upperChar_lowerChar)

lemma toLowerCase_idem: "toLowerCase (toLowerCase s) = toLowerCase s"
  by (simp add: toLowerCase_def lowerChar_idem)

lemma toUpperCase_idem: "toUpperCase (toUpperCase s) = toUpperCase s"
  by (simp add: toUpperCase_def upperChar_idem)

lemmas case_eval = toLowerCase_def toUpperCase_def lowerChar_def upperChar_def char_of_def
  bit_Suc_0_iff

section \<open>Minor and major units\<close>

lemma toFixed2_cents: "toFixed2 (of_int a / 100) = of_int a / 100"
proof -
  have f: "\<lfloor>(of_int b :: rat) + 1 / 2\<rfloor> = b" for b by linarith
  have "(- (of_int a / 100 :: rat)) * 100 = of_int (- a)" by simp
  then have n: "\<lfloor>(- (of_int a / 100 :: rat)) * 100 + 1 / 2\<rfloor> = - a"
    using f [of "- a"] by simp
  have "(of_int a / 100 :: rat) * 100 = of_int a" by simp
  then have p: "\<lfloor>(of_int a / 100 :: rat) * 100 + 1 / 2\<rfloor> = a"
    using f [of a] by simp
  show ?thesis
    unfolding toFixed2_def n p by simp
qed

lemma toFixed2_int: "toFixed2 (of_int a) = of_int a"
  using toFixed2_cents [of "a * 100"] by simp

lemma convertToMajorUnits_int:
  "convertToMajorUnits (of_int a) c =
     (if toLowerCase c \<in> set ZERO_DECIMAL_CURRENCIES then of_int a else of_int a / 100)"
  by (simp add: convertToMajorUnits_def toFixed2_cents toFixed2_int)

lemma usd_not_zero_decimal: "toLowerCase ''USD'' \<notin> set ZERO_DECIMAL_CURRENCIES"
  by (simp add: ZERO_DECIMAL_CURRENCIES_def case_eval)

lemma jpy_zero_decimal: "toLowerCase ''JPY'' \<in> set ZERO_DECIMAL_CURRENCIES"
  by (simp add: ZERO_DECIMAL_CURRENCIES_def case_eval)

text \<open>
  Claim C8. For every integer minor-unit amount and every currency code, in any casing,
  \<open>convertToMajorUnits\<close> divides by 100 unless the lower-cased code is in the zero-decimal
  set, in which case it divides by 1: 1050 minor units are 10.50 in USD and 1050 in JPY.
\<close>

theorem convertToMajorUnits_divisor:
  "convertToMajorUnits (of_int a) c =
     (if toLowerCase c \<in> set ZERO_DECIMAL_CURRENCIES then of_int a / 1 else of_int a / 100) \<and>
   convertToMajorUnits x (toUpperCase c) = convertToMajorUnits x c \<and>
   convertToMajorUnits x (toLowerCase c) = convertToMajorUnits x c \<and>
   convertToMajorUnits 1050 ''USD'' = 1050 / 100 \<and>
   convertToMajorUnits 1050 ''usd'' = 21 / 2 \<and>
   convertToMajorUnits 1050 ''JPY'' = 1050 \<and>
   convertToMajorUnits 1050 ''jpy'' = 1050"
proof -
  have a: "convertToMajorUnits (of_int a) c =
     (if toLowerCase c \<in> set ZERO_DECIMAL_CURRENCIES then of_int a / 1 else of_int a / 100)"
    by (simp add: convertToMajorUnits_int)
  have b: "convertToMajorUnits x (toUpperCase c) = convertToMajorUnits x c"
    by (simp add: convertToMajorUnits_def toLowerCase_toUpperCase)
  have c: "convertToMajorUnits x (toLowerCase c) = convertToMajorUnits x c"
    by (simp add: convertToMajorUnits_def toLowerCase_idem)
  have u: "convertToMajorUnits 1050 ''USD'' = 1050 / 100"
    using convertToMajorUnits_int [of 1050 "''USD''"] usd_not_zero_decimal by simp
  have j: "convertToMajorUnits 1050 ''JPY'' = 1050"
    using convertToMajorUnits_int [of 1050 "''JPY''"] jpy_zero_decimal by simp
  have ul: "convertToMajorUnits 1050 ''usd'' = 21 / 2"
    using convertToMajorUnits_int [of 1050 "''usd''"] usd_not_zero_decimal
    by (simp add: case_eval)
  have jl: "convertToMajorUnits 1050 ''jpy'' = 1050"
    using convertToMajorUnits_int [of 1050 "''jpy''"] jpy_zero_decimal
    by (simp add: case_eval)
  from a b c u j ul jl show ?thesis by blast
qed

theorem convertToMajorUnits_divisor_witness:
  "convertToMajorUnits 1999 ''KrW'' = 1999 \<and> convertToMajorUnits 1999 ''eUr'' = 1999 / 100"
proof -
  have k: "toLowerCase ''KrW'' \<in> set ZERO_DECIMAL_CURRENCIES"
    by (simp add: ZERO_DECIMAL_CURRENCIES_def case_eval)
  have e: "toLowerCase ''eUr'' \<notin> set ZERO_DECIMAL_CURRENCIES"
    by (simp add: ZERO_DECIMAL_CURRENCIES_def case_eval)
  from convertToMajorUnits_divisor [of 1999 "''KrW''"] k
  have 1: "convertToMajorUnits 1999 ''KrW'' = 1999" by simp
  from convertToMajorUnits_divisor [of 1999 "''eUr''"] e
  have 2: "convertToMajorUnits 1999 ''eUr'' = 1999 / 100" by simp
  from 1 2 show ?thesis by blast
qed

section \<open>The wallet ledger adapter\<close>

lemma trim_empty_or_not: "length (trim s) > 0 \<longleftrightarrow> trim s \<noteq> []"
  by simp

lemma toNullableString_nonempty: "toNullableString v = Some s \<Longrightarrow> s \<noteq> []"
  by (auto simp: toNullableString_def Let_def split: option.splits if_splits)

lemma toFixed2_nonneg: "0 \<le> x \<Longrightarrow> 0 \<le> toFixed2 x"
  by (simp add: toFixed2_def)

lemma round_nonneg: "0 \<le> (n :: rat) \<Longrightarrow> 0 \<le> \<lfloor>n + 1 / 2\<rfloor>"
  by simp

lemma normalizeAmount_nonneg: "0 \<le> fst (normalizeAmount a) \<and> 0 \<le> snd (normalizeAmount a)"
proof -
  have f1: "0 \<le> \<lfloor>n * 100 + 1 / 2\<rfloor>" if "0 \<le> n" for n :: rat
    using that by (intro round_nonneg) simp
  have m1: "0 \<le> toFixed2 (rat_of_int \<lfloor>n + 1 / 2\<rfloor>)" if "0 \<le> n" for n :: rat
    using that by (intro toFixed2_nonneg) simp
  have m2: "0 \<le> toFixed2 (rat_of_int \<lfloor>n * 100 + 1 / 2\<rfloor> / 100)" if "0 \<le> n" for n :: rat
    using f1 [OF that] by (intro toFixed2_nonneg) simp
  show ?thesis
    by (auto simp: normalizeAmount_def Let_def f1 m1 m2 not_less split: option.splits)
qed

lemma normalizeAmount_zero:
  "(case a of None \<Rightarrow> True
    | Some x \<Rightarrow> (case amount_value x of None \<Rightarrow> True
                 | Some v \<Rightarrow> (case parseFloat v of None \<Rightarrow> True | Some n \<Rightarrow> n < 0)))
   \<Longrightarrow> normalizeAmount a = (0, 0)"
  by (auto simp: normalizeAmount_def Let_def split: option.splits)

lemma mapPaypal_cases:
  "mapPaypalTransactionToCardInfo pd now d =
     (if \<not> isExpressCheckoutPayment d then Inr None
      else case toNullableString (infoOf d transaction_id) of
             None \<Rightarrow> Inr None
           | Some txId \<Rightarrow>
               (case orElse (toNullableString (infoOf d invoice_id))
                            (toNullableString (infoOf d custom_field)) of
                  None \<Rightarrow> Inr None
                | Some ordId \<Rightarrow> mapPaypalTransactionToCardInfo pd now d))"
  by (simp add: mapPaypalTransactionToCardInfo_def infoOf_def Let_def
      split: option.split)

lemma mapPaypal_Some:
  assumes "mapPaypalTransactionToCardInfo pd now d = Inr (Some r)"
  shows "isExpressCheckoutPayment d \<and>
         toNullableString (infoOf d transaction_id) = Some (transactionId r) \<and>
         orElse (toNullableString (infoOf d invoice_id))
                (toNullableString (infoOf d custom_field)) = Some (orderId r) \<and>
         (amountMinor r, amountMajor r) = normalizeAmount (infoOf d transaction_amount)"
proof -
  from assms have ex: "isExpressCheckoutPayment d"
    by (subst (asm) mapPaypal_cases) (simp split: if_splits)
  from assms ex obtain txId where tx: "toNullableString (infoOf d transaction_id) = Some txId"
    by (subst (asm) mapPaypal_cases) (auto split: option.splits)
  from assms ex tx obtain ordId where
    ord: "orElse (toNullableString (infoOf d invoice_id))
                (toNullableString (infoOf d custom_field)) = Some ordId"
    by (subst (asm) mapPaypal_cases) (auto split: option.splits)
  let ?date = "case infoOf d transaction_initiation_date of
                 None \<Rightarrow> Some now | Some x \<Rightarrow> if x = [] then Some now else pd x"
  from assms obtain t where t: "?date = Some t"
    using ex tx ord
    by (cases ?date)
       (simp_all add: mapPaypalTransactionToCardInfo_def infoOf_def Let_def)
  from assms ex tx ord t have
    "transactionId r = txId \<and> orderId r = ordId \<and>
     (amountMinor r, amountMajor r) = normalizeAmount (infoOf d transaction_amount)"
    by (auto simp add: mapPaypalTransactionToCardInfo_def infoOf_def Let_def)
  with ex tx ord show ?thesis by simp
qed

lemma mapPaypal_dropped:
  assumes "\<not> isExpressCheckoutPayment d \<or> toNullableString (infoOf d transaction_id) = None \<or>
           orElse (toNullableString (infoOf d invoice_id))
                (toNullableString (infoOf d custom_field)) = None"
  shows "mapPaypalTransactionToCardInfo pd now d = Inr None"
  using assms
  by (subst mapPaypal_cases) (auto split: option.splits)

lemma mapRecords_set:
  "mapRecords pd now ds = Inr rs \<Longrightarrow>
     \<forall>r \<in> set rs. \<exists>d \<in> set ds. mapPaypalTransactionToCardInfo pd now d = Inr (Some r)"
proof (induction ds arbitrary: rs)
  case Nil
  then show ?case by simp
next
  case (Cons d ds)
  then show ?case
    by (auto split: sum.splits option.splits)
qed

lemma orElse_Some_nonempty:
  "orElse (toNullableString a) (toNullableString b) = Some s \<Longrightarrow> s \<noteq> []"
  by (auto simp: orElse_def dest: toNullableString_nonempty split: option.splits)

lemma fetchPaypalCardInfo_records:
  assumes "fetchPaypalCardInfo fetchTx pd now start en = Inr records" and "r \<in> set records"
  shows "\<exists>txs d. fetchTx start en = Inr txs \<and> d \<in> set txs \<and>
           mapPaypalTransactionToCardInfo pd now d = Inr (Some r)"
proof -
  from assms(1) obtain txs where f: "fetchTx start en = Inr txs"
    and m: "mapRecords pd now txs = Inr records"
    by (auto simp: fetchPaypalCardInfo_def split: sum.splits)
  from mapRecords_set [OF m] assms(2) f show ?thesis by blast
qed

text \<open>
  Claim C10. Every record that \<open>fetchPaypalCardInfo\<close> returns comes from a fetched
  transaction that matches the express-checkout vocabulary; its \<open>transactionId\<close> and
  \<open>orderId\<close> are the trimmed, non-empty identifiers of that transaction (the types make
  them non-null), and its \<open>amountMinor\<close> and \<open>amountMajor\<close> are the normalized amount and
  are not negative. A transaction outside the vocabulary or lacking either identifier is
  dropped, and a missing, non-numeric or negative amount is normalized to 0 and 0.
\<close>

theorem fetchPaypalCardInfo_invariant:
  "(\<forall>fetchTx pd now start en records.
      fetchPaypalCardInfo fetchTx pd now start en = Inr records \<longrightarrow>
      (\<forall>r \<in> set records.
         transactionId r \<noteq> [] \<and> orderId r \<noteq> [] \<and> 0 \<le> amountMinor r \<and> 0 \<le> amountMajor r \<and>
         (\<exists>txs d. fetchTx start en = Inr txs \<and> d \<in> set txs \<and> isExpressCheckoutPayment d \<and>
            toNullableString (infoOf d transaction_id) = Some (transactionId r) \<and>
            orElse (toNullableString (infoOf d invoice_id))
                   (toNullableString (infoOf d custom_field)) = Some (orderId r) \<and>
            (amountMinor r, amountMajor r) = normalizeAmount (infoOf d transaction_amount)))) \<and>
   (\<forall>pd now d.
      \<not> isExpressCheckoutPayment d \<or> toNullableString (infoOf d transaction_id) = None \<or>
      orElse (toNullableString (infoOf d invoice_id))
             (toNullableString (infoOf d custom_field)) = None \<longrightarrow>
      mapPaypalTransactionToCardInfo pd now d = Inr None) \<and>
   (\<forall>a. (case a of None \<Rightarrow> True
         | Some x \<Rightarrow> (case amount_value x of None \<Rightarrow> True
                      | Some v \<Rightarrow> (case parseFloat v of None \<Rightarrow> True | Some n \<Rightarrow> n < 0))) \<longrightarrow>
        normalizeAmount a = (0, 0))"
proof (intro conjI allI impI ballI)
  fix fetchTx pd now start en records r
  assume f: "fetchPaypalCardInfo fetchTx pd now start en = Inr records" and r: "r \<in> set records"
  from fetchPaypalCardInfo_records [OF f r] obtain txs d where
    tx: "fetchTx start en = Inr txs" "d \<in> set txs"
    and m: "mapPaypalTransactionToCardInfo pd now d = Inr (Some r)"
    by blast
  note s = mapPaypal_Some [OF m]
  from s show "transactionId r \<noteq> []"
    using toNullableString_nonempty by blast
  from s show "orderId r \<noteq> []"
    using orElse_Some_nonempty by blast
  from s normalizeAmount_nonneg [of "infoOf d transaction_amount"]
  show "0 \<le> amountMinor r" by (metis fst_conv)
  from s normalizeAmount_nonneg [of "infoOf d transaction_amount"]
  show "0 \<le> amountMajor r" by (metis snd_conv)
  from s tx show "\<exists>txs d. fetchTx start en = Inr txs \<and> d \<in> set txs \<and> isExpressCheckoutPayment d \<and>
            toNullableString (infoOf d transaction_id) = Some (transactionId r) \<and>
            orElse (toNullableString (infoOf d invoice_id))
                   (toNullableString (infoOf d custom_field)) = Some (orderId r) \<and>
            (amountMinor r, amountMajor r) = normalizeAmount (infoOf d transaction_amount)"
    by blast
next
  fix pd now d
  assume "\<not> isExpressCheckoutPayment d \<or> toNullableString (infoOf d transaction_id) = None \<or>
      orElse (toNullableString (infoOf d invoice_id))
             (toNullableString (infoOf d custom_field)) = None"
  then show "mapPaypalTransactionToCardInfo pd now d = Inr None"
    by (rule mapPaypal_dropped)
next
  fix a :: "PaypalAmount option"
  assume "case a of None \<Rightarrow> True
         | Some x \<Rightarrow> (case amount_value x of None \<Rightarrow> True
                      | Some v \<Rightarrow> (case parseFloat v of None \<Rightarrow> True | Some n \<Rightarrow> n < 0))"
  then show "normalizeAmount a = (0, 0)"
    by (rule normalizeAmount_zero)
qed

lemmas str_eval = trim_def isSpace_def toNullableString_def toUpper_def orElse_def
  normalizePhoneObject_def normalizePhoneString_def startsWith_def isDigit_def digitsToNat_def digitValue_def

lemma parseFloat_minus_5: "parseFloat ''-5.00'' = Some (- 5)"
  by (simp add: parseFloat_def exponentPart_def scale10_def str_eval Let_def)

theorem fetchPaypalCardInfo_invariant_witness:
  "fetchPaypalCardInfo
     (\<lambda>start en. Inr [\<lparr>transaction_info = Some
         \<lparr>transaction_id = Some '' TX1 '', transaction_event_code = Some ''t0006'',
          transaction_event_code_description = None, transaction_status = Some ''S'',
          transaction_initiation_date = None,
          transaction_amount = Some \<lparr>currency_code = Some ''usd'', amount_value = Some ''-5.00''\<rparr>,
          invoice_id = None, custom_field = Some ''ORD-9''\<rparr>,
        payer_info = None, shipping_info = None\<rparr>])
     (\<lambda>s. None) 1717977600000 1717200000000 1717977600000 =
   Inr [\<lparr>provider = ''paypal'', orderId = ''ORD-9'', transactionId = ''TX1'',
         amountMinor = 0, amountMajor = 0, createdAtUtc = ''2024-06-10T00:00:00.000Z'',
         recordStatus = Some ''S'', recordCurrency = Some ''USD'', customerEmail = None,
         customerPhone = None, city = None, addressCountry = None, issueCountry = None,
         cardBrand = None, cardFunding = None, cardTokenization = None, cardLast4 = None,
         avsLine1 = None, avsZip = None, cvcStatus = None\<rparr>] \<and>
   transactionId \<lparr>provider = ''paypal'', orderId = ''ORD-9'', transactionId = ''TX1'',
         amountMinor = 0, amountMajor = 0, createdAtUtc = ''2024-06-10T00:00:00.000Z'',
         recordStatus = Some ''S'', recordCurrency = Some ''USD'', customerEmail = None,
         customerPhone = None, city = None, addressCountry = None, issueCountry = None,
         cardBrand = None, cardFunding = None, cardTokenization = None, cardLast4 = None,
         avsLine1 = None, avsZip = None, cvcStatus = None\<rparr> \<noteq> []"
proof -
  let ?tx = "\<lparr>transaction_info = Some
         \<lparr>transaction_id = Some '' TX1 '', transaction_event_code = Some ''t0006'',
          transaction_event_code_description = None, transaction_status = Some ''S'',
          transaction_initiation_date = None,
          transaction_amount = Some \<lparr>currency_code = Some ''usd'', amount_value = Some ''-5.00''\<rparr>,
          invoice_id = None, custom_field = Some ''ORD-9''\<rparr>,
        payer_info = None, shipping_info = None\<rparr>"
  let ?r = "\<lparr>provider = ''paypal'', orderId = ''ORD-9'', transactionId = ''TX1'',
         amountMinor = 0, amountMajor = 0, createdAtUtc = ''2024-06-10T00:00:00.000Z'',
         recordStatus = Some ''S'', recordCurrency = Some ''USD'', customerEmail = None,
         customerPhone = None, city = None, addressCountry = None, issueCountry = None,
         cardBrand = None, cardFunding = None, cardTokenization = None, cardLast4 = None,
         avsLine1 = None, avsZip = None, cvcStatus = None\<rparr>"
  have ex: "isExpressCheckoutPayment ?tx"
    by (simp add: isExpressCheckoutPayment_def EXPRESS_CHECKOUT_EVENT_CODES_def case_eval)
  have am: "normalizeAmount (Some \<lparr>currency_code = Some ''usd'', amount_value = Some ''-5.00''\<rparr>) = (0, 0)"
    by (simp add: normalizeAmount_def parseFloat_minus_5)
  have m: "mapPaypalTransactionToCardInfo (\<lambda>s. None) 1717977600000 ?tx = Inr (Some ?r)"
    unfolding mapPaypalTransactionToCardInfo_def Let_def
    by (simp add: ex am today_2024_06_10 str_eval case_eval)
  have e: "fetchPaypalCardInfo (\<lambda>start en. Inr [?tx]) (\<lambda>s. None) 1717977600000 1717200000000
             1717977600000 = Inr [?r]"
    by (simp add: fetchPaypalCardInfo_def m)
  note t = fetchPaypalCardInfo_invariant [THEN conjunct1, rule_format, OF e, of ?r]
  have "transactionId ?r \<noteq> []" using t by simp
  with e show ?thesis by blast
qed

section \<open>Fetch failures in the two ledger adapters\<close>

lemma getStripeCharges_returns:
  "\<exists>charges. getStripeCharges listCharges toNumber sd ed = Inr charges"
  by (simp add: getStripeCharges_def split: sum.split)

lemma getStripeCharges_fetch_failure:
  assumes "\<forall>s e. isl (listCharges s e)"
  shows "getStripeCharges listCharges toNumber sd ed = Inr []"
proof -
  have "isl (case listCharges s e of Inl err \<Rightarrow> Inl err
             | Inr raw \<Rightarrow> Inr (map (toChargeSummary toNumber)
                         (filter (\<lambda>charge. sc_status charge = ''succeeded'') raw)))" for s e
    using assms [rule_format, of s e] by (auto simp: isl_def)
  then have "isl (getStripeCharges_try listCharges toNumber sd ed)"
    by (simp add: getStripeCharges_try_def split: sum.split)
  then show ?thesis
    by (auto simp: getStripeCharges_def isl_def)
qed

lemma paypalChargeTool_returns:
  "\<exists>records. paypalChargeTool_execute fetchTx pd now sd ed = Inr records"
  by (simp add: paypalChargeTool_execute_def split: sum.split)

lemma paypalChargeTool_fetch_failure:
  assumes "\<forall>s e. isl (fetchTx s e)"
  shows "paypalChargeTool_execute fetchTx pd now sd ed = Inr []"
proof -
  have "isl (fetchPaypalCardInfo fetchTx pd now s e)" for s e
    using assms [rule_format, of s e] by (auto simp: fetchPaypalCardInfo_def isl_def)
  then have "isl (paypalChargeTool_try fetchTx pd now sd ed)"
    by (auto simp: paypalChargeTool_try_def split: sum.splits prod.splits)
  then show ?thesis
    by (auto simp: paypalChargeTool_execute_def isl_def)
qed

text \<open>
  Claim C1, as the code has it: there is no asymmetry between these two entry points.
  For every date range, a failing PayPal fetch is caught in \<open>paypalChargeTool.execute\<close>,
  which returns the empty result, and a failing Stripe fetch is caught inside
  \<open>getStripeCharges\<close>, which returns the empty list as well; neither ever raises.
\<close>

theorem ledger_fetch_failures_are_caught:
  "(\<forall>fetchTx pd now sd ed.
      (\<forall>s e. isl (fetchTx s e)) \<longrightarrow> paypalChargeTool_execute fetchTx pd now sd ed = Inr []) \<and>
   (\<forall>listCharges toNumber sd ed.
      (\<forall>s e. isl (listCharges s e)) \<longrightarrow> getStripeCharges listCharges toNumber sd ed = Inr []) \<and>
   (\<forall>fetchTx pd now sd ed. \<exists>records. paypalChargeTool_execute fetchTx pd now sd ed = Inr records) \<and>
   (\<forall>listCharges toNumber sd ed. \<exists>charges.
      getStripeCharges listCharges toNumber sd ed = Inr charges)"
proof (intro conjI allI impI)
  fix fetchTx :: "int \<Rightarrow> int \<Rightarrow> error + PaypalTransactionDetail list" and pd now sd ed
  assume "\<forall>s e. isl (fetchTx s e)"
  then show "paypalChargeTool_execute fetchTx pd now sd ed = Inr []"
    by (rule paypalChargeTool_fetch_failure)
next
  fix listCharges :: "int \<Rightarrow> int \<Rightarrow> error + StripeCharge list" and toNumber sd ed
  assume "\<forall>s e. isl (listCharges s e)"
  then show "getStripeCharges listCharges toNumber sd ed = Inr []"
    by (rule getStripeCharges_fetch_failure)
next
  fix fetchTx :: "int \<Rightarrow> int \<Rightarrow> error + PaypalTransactionDetail list" and pd now sd ed
  show "\<exists>records. paypalChargeTool_execute fetchTx pd now sd ed = Inr records"
    by (rule paypalChargeTool_returns)
next
  fix listCharges :: "int \<Rightarrow> int \<Rightarrow> error + StripeCharge list" and toNumber sd ed
  show "\<exists>charges. getStripeCharges listCharges toNumber sd ed = Inr charges"
    by (rule getStripeCharges_returns)
qed

lemmas date_utc_eval = Date_UTC_def MakeDate_def MakeDay_def MakeTime_def DayFromYear_def
  DaysInYear_def monthStart_def msPerDay_def Let_def

lemmas regex_eval = ISO_DATE_REGEX_test_def isDigit_def digitsToNat_def digitValue_def Let_def

lemma parseDateToUnix_2024_06_01: "parseDateToUnix ''2024-06-01'' ''startDate'' = Inr 1717200000"
proof -
  have "parseDateToUnix ''2024-06-01'' ''startDate'' = Inr (Date_UTC 2024 5 1 0 0 0 0 div 1000)"
    by (simp add: parseDateToUnix_def regex_eval)
  also have "Date_UTC 2024 5 1 0 0 0 0 = 1717200000000"
    by (simp add: date_utc_eval)
  finally show ?thesis by simp
qed

lemma parseDateToUnix_2024_06_07: "parseDateToUnix ''2024-06-07'' ''endDate'' = Inr 1717804799"
proof -
  have "parseDateToUnix ''2024-06-07'' ''endDate'' =
          Inr (Date_UTC 2024 5 7 23 59 59 999 div 1000)"
    by (simp add: parseDateToUnix_def regex_eval)
  also have "Date_UTC 2024 5 7 23 59 59 999 = 1717804799999"
    by (simp add: date_utc_eval)
  finally show ?thesis by simp
qed

text \<open>
  Claim C1 as stated fails: with well-formed dates and a Stripe client that throws, the
  error reaches the \<open>catch\<close> of \<open>getStripeCharges\<close> and the function returns the empty
  list instead of raising.
\<close>

theorem getStripeCharges_swallows_counterexample:
  "getStripeCharges_try (\<lambda>s e. Inl (Error ''StripeConnectionError'')) (\<lambda>v. None)
      ''2024-06-01'' ''2024-06-07'' = Inl (Error ''StripeConnectionError'') \<and>
   getStripeCharges (\<lambda>s e. Inl (Error ''StripeConnectionError'')) (\<lambda>v. None)
      ''2024-06-01'' ''2024-06-07'' = Inr []"
  by (simp add: getStripeCharges_def getStripeCharges_try_def
      parseDateToUnix_2024_06_01 parseDateToUnix_2024_06_07)

theorem ledger_fetch_failures_are_caught_witness:
  "isl (Inl (Error ''UnreachableService'') :: error + PaypalTransactionDetail list) \<and>
   paypalChargeTool_execute (\<lambda>s e. Inl (Error ''UnreachableService'')) (\<lambda>v. None) 0
      ''2024-06-01'' ''2024-06-07'' = Inr [] \<and>
   isl (Inl (Error ''UnreachableService'') :: error + StripeCharge list) \<and>
   getStripeCharges (\<lambda>s e. Inl (Error ''UnreachableService'')) (\<lambda>v. None)
      ''2024-06-01'' ''2024-06-07'' = Inr []"
proof -
  have p: "\<forall>s e :: int. isl (Inl (Error ''UnreachableService'') :: error + PaypalTransactionDetail list)"
    by simp
  have q: "\<forall>s e :: int. isl (Inl (Error ''UnreachableService'') :: error + StripeCharge list)"
    by simp
  note a = ledger_fetch_failures_are_caught [THEN conjunct1, THEN spec, THEN spec, THEN spec,
      THEN spec, THEN spec, THEN mp, OF p]
  note b = ledger_fetch_failures_are_caught [THEN conjunct2, THEN conjunct1, THEN spec,
      THEN spec, THEN spec, THEN spec, THEN mp, OF q]
  from a b show ?thesis by simp
qed

section \<open>Rollups: grouping in an insertion-ordered map\<close>

lemma foldl_update_map_of:
  assumes step: "\<And>m c. step m c =
      AList.update (k c) (f (case map_of m (k c) of None \<Rightarrow> e0 | Some e \<Rightarrow> e) c) m"
  shows "map_of (foldl step [] cs) key =
           (if key \<in> k ` set cs then Some (foldl f e0 (filter (\<lambda>c. k c = key) cs)) else None)"
proof (induction cs rule: rev_induct)
  case Nil
  show ?case by simp
next
  case (snoc c cs)
  let ?m = "foldl step [] cs"
  show ?case
  proof (cases "key = k c")
    case True
    have "map_of (step ?m c) key =
            Some (f (case map_of ?m (k c) of None \<Rightarrow> e0 | Some e \<Rightarrow> e) c)"
      by (simp add: step update_conv' True)
    also have "(case map_of ?m (k c) of None \<Rightarrow> e0 | Some e \<Rightarrow> e) =
                 foldl f e0 (filter (\<lambda>c'. k c' = k c) cs)"
    proof (cases "k c \<in> k ` set cs")
      case True
      then show ?thesis using snoc.IH True \<open>key = k c\<close> by simp
    next
      case False
      then have "\<forall>c' \<in> set cs. k c' \<noteq> k c" by (metis imageI)
      then have "filter (\<lambda>c'. k c' = k c) cs = []"
        by (simp add: filter_empty_conv)
      with False show ?thesis using snoc.IH \<open>key = k c\<close> by simp
    qed
    finally show ?thesis using True by simp
  next
    case False
    then have "map_of (step ?m c) key = map_of ?m key"
      by (simp add: step update_conv')
    with False snoc.IH show ?thesis by auto
  qed
qed

lemma foldl_update_distinct:
  assumes step: "\<And>m c. step m c =
      AList.update (k c) (f (case map_of m (k c) of None \<Rightarrow> e0 | Some e \<Rightarrow> e) c) m"
  shows "distinct (map fst (foldl step [] cs))"
  by (induction cs rule: rev_induct) (simp_all add: step distinct_update)

lemma foldl_update_keys:
  assumes step: "\<And>m c. step m c =
      AList.update (k c) (f (case map_of m (k c) of None \<Rightarrow> e0 | Some e \<Rightarrow> e) c) m"
  shows "fst ` set (foldl step [] cs) = k ` set cs"
proof -
  have "fst ` set (foldl step [] cs) = dom (map_of (foldl step [] cs))"
    by (simp add: dom_map_of_conv_image_fst)
  also have "\<dots> = k ` set cs"
    by (auto simp: dom_def foldl_update_map_of [of step k f e0, OF step] split: if_splits)
  finally show ?thesis .
qed

lemma foldl_update_entry:
  assumes step: "\<And>m c. step m c =
      AList.update (k c) (f (case map_of m (k c) of None \<Rightarrow> e0 | Some e \<Rightarrow> e) c) m"
    and "(key, e) \<in> set (foldl step [] cs)"
  shows "e = foldl f e0 (filter (\<lambda>c. k c = key) cs)"
proof -
  from assms(2) foldl_update_distinct [of step k f e0, OF step]
  have "map_of (foldl step [] cs) key = Some e" by simp
  then show ?thesis
    by (simp add: foldl_update_map_of [of step k f e0, OF step] split: if_splits)
qed

lemma distinct_map_insort_key:
  "distinct (map f (insort_key h x xs)) = distinct (map f (x # xs))"
  by (induction xs) (auto simp: set_insort_key)

lemma distinct_map_sort_key:
  "distinct (map f (sort_key h xs)) = distinct (map f xs)"
  by (induction xs) (simp_all add: distinct_map_insort_key)

lemma sortDesc_set: "set (sortDesc h xs) = set xs"
  by (simp add: sortDesc_def)

lemma sortDesc_distinct_map: "distinct (map f (sortDesc h xs)) = distinct (map f xs)"
  by (simp add: sortDesc_def distinct_map_sort_key)


section \<open>Currency rollup\<close>

lemma currencyStep_update:
  "currencyStep m c =
     AList.update (stripeCurrencyKey c)
       ((\<lambda>e c. \<lparr>ce_chargeCount = ce_chargeCount e + 1,
                 ce_refundedCount = ce_refundedCount e + (if refunded c then 1 else 0),
                 ce_grossAmountMinor = ce_grossAmountMinor e + amount c\<rparr>)
          (case map_of m (stripeCurrencyKey c) of
             None \<Rightarrow> \<lparr>ce_chargeCount = 0, ce_refundedCount = 0, ce_grossAmountMinor = 0\<rparr>
           | Some e \<Rightarrow> e) c) m"
  by (simp add: currencyStep_def stripeCurrencyKey_def Let_def)

lemma currency_fold:
  "foldl (\<lambda>e c. \<lparr>ce_chargeCount = ce_chargeCount e + 1,
                 ce_refundedCount = ce_refundedCount e + (if refunded c then 1 else 0),
                 ce_grossAmountMinor = ce_grossAmountMinor e + amount c\<rparr>) e xs =
     \<lparr>ce_chargeCount = ce_chargeCount e + length xs,
      ce_refundedCount = ce_refundedCount e + length (filter refunded xs),
      ce_grossAmountMinor = ce_grossAmountMinor e + sum_list (map amount xs)\<rparr>"
  by (induction xs arbitrary: e) simp_all

lemma stripe_keys:
  "map cb_currency (map toBreakdown m) = map fst m"
  by (simp add: toBreakdown_def Let_def comp_def)

lemma stripe_grouping:
  "distinct (map cb_currency (aggregateByCurrency charges)) \<and>
   set (map cb_currency (aggregateByCurrency charges)) = stripeCurrencyKey ` set charges \<and>
   (\<forall>b \<in> set (aggregateByCurrency charges).
      cb_currency b = toLowerCase (cb_currency b) \<and>
      cb_chargeCount b =
        length (filter (\<lambda>c. stripeCurrencyKey c = cb_currency b) charges) \<and>
      cb_refundedCount b =
        length (filter refunded (filter (\<lambda>c. stripeCurrencyKey c = cb_currency b) charges)) \<and>
      cb_grossAmountMinor b =
        sum_list (map amount (filter (\<lambda>c. stripeCurrencyKey c = cb_currency b) charges)))"
proof (intro conjI ballI)
  let ?m = "foldl currencyStep [] charges"
  note st = currencyStep_update
  show "distinct (map cb_currency (aggregateByCurrency charges))"
    unfolding aggregateByCurrency_def sortDesc_distinct_map stripe_keys
    by (rule foldl_update_distinct [OF st])
  have "set (map cb_currency (aggregateByCurrency charges)) = fst ` set ?m"
    unfolding aggregateByCurrency_def
    by (simp only: set_map sortDesc_set) (simp add: image_image toBreakdown_def Let_def)
  then show keys: "set (map cb_currency (aggregateByCurrency charges)) = stripeCurrencyKey ` set charges"
    by (simp only: foldl_update_keys [OF st])
  fix b assume b: "b \<in> set (aggregateByCurrency charges)"
  then obtain key e where m: "(key, e) \<in> set ?m" and be: "b = toBreakdown (key, e)"
    by (auto simp: aggregateByCurrency_def sortDesc_set)
  from be have cur: "cb_currency b = key" by (simp add: toBreakdown_def Let_def)
  from b keys have "cb_currency b \<in> stripeCurrencyKey ` set charges" by force
  then show "cb_currency b = toLowerCase (cb_currency b)"
    by (auto simp: stripeCurrencyKey_def toLowerCase_idem)
  note e = foldl_update_entry [OF st m, unfolded currency_fold]
  from e be cur show "cb_chargeCount b =
        length (filter (\<lambda>c. stripeCurrencyKey c = cb_currency b) charges)"
    by (simp add: toBreakdown_def Let_def)
  from e be cur show "cb_refundedCount b =
        length (filter refunded (filter (\<lambda>c. stripeCurrencyKey c = cb_currency b) charges))"
    by (simp add: toBreakdown_def Let_def)
  from e be cur show "cb_grossAmountMinor b =
        sum_list (map amount (filter (\<lambda>c. stripeCurrencyKey c = cb_currency b) charges))"
    by (simp add: toBreakdown_def Let_def)
qed

lemma paypalCurrencyStep_update:
  "paypalCurrencyStep m c =
     AList.update (paypalCurrencyKey c)
       ((\<lambda>e c. \<lparr>pce_transactionCount = pce_transactionCount e + 1,
                 pce_refundedCount =
                   pce_refundedCount e + (if isRefunded (recordStatus c) then 1 else 0),
                 pce_grossAmountMinor = pce_grossAmountMinor e + amountMinor c,
                 pce_grossAmountMajor = pce_grossAmountMajor e + amountMajor c\<rparr>)
          (case map_of m (paypalCurrencyKey c) of
             None \<Rightarrow> \<lparr>pce_transactionCount = 0, pce_refundedCount = 0,
                      pce_grossAmountMinor = 0, pce_grossAmountMajor = 0\<rparr>
           | Some e \<Rightarrow> e) c) m"
  by (simp add: paypalCurrencyStep_def paypalCurrencyKey_def Let_def)

lemma paypal_currency_fold:
  "foldl (\<lambda>e c. \<lparr>pce_transactionCount = pce_transactionCount e + 1,
                 pce_refundedCount =
                   pce_refundedCount e + (if isRefunded (recordStatus c) then 1 else 0),
                 pce_grossAmountMinor = pce_grossAmountMinor e + amountMinor c,
                 pce_grossAmountMajor = pce_grossAmountMajor e + amountMajor c\<rparr>) e xs =
     \<lparr>pce_transactionCount = pce_transactionCount e + length xs,
      pce_refundedCount =
        pce_refundedCount e + length (filter (\<lambda>c. isRefunded (recordStatus c)) xs),
      pce_grossAmountMinor = pce_grossAmountMinor e + sum_list (map amountMinor xs),
      pce_grossAmountMajor = pce_grossAmountMajor e + sum_list (map amountMajor xs)\<rparr>"
  by (induction xs arbitrary: e) simp_all

lemma paypal_keys:
  "map pcb_currency (map toPaypalBreakdown m) = map fst m"
  by (simp add: toPaypalBreakdown_def Let_def comp_def)

lemma paypal_grouping:
  "distinct (map pcb_currency (paypalAggregateByCurrency charges)) \<and>
   set (map pcb_currency (paypalAggregateByCurrency charges)) = paypalCurrencyKey ` set charges \<and>
   (\<forall>b \<in> set (paypalAggregateByCurrency charges).
      pcb_currency b = toUpperCase (pcb_currency b) \<and>
      pcb_transactionCount b =
        length (filter (\<lambda>c. paypalCurrencyKey c = pcb_currency b) charges) \<and>
      pcb_grossAmountMinor b =
        sum_list (map amountMinor (filter (\<lambda>c. paypalCurrencyKey c = pcb_currency b) charges)))"
proof (intro conjI ballI)
  let ?m = "foldl paypalCurrencyStep [] charges"
  note st = paypalCurrencyStep_update
  show "distinct (map pcb_currency (paypalAggregateByCurrency charges))"
    unfolding paypalAggregateByCurrency_def sortDesc_distinct_map paypal_keys
    by (rule foldl_update_distinct [OF st])
  have "set (map pcb_currency (paypalAggregateByCurrency charges)) = fst ` set ?m"
    unfolding paypalAggregateByCurrency_def
    by (simp only: set_map sortDesc_set) (simp add: image_image toPaypalBreakdown_def Let_def)
  then show keys: "set (map pcb_currency (paypalAggregateByCurrency charges)) =
      paypalCurrencyKey ` set charges"
    by (simp only: foldl_update_keys [OF st])
  fix b assume b: "b \<in> set (paypalAggregateByCurrency charges)"
  then obtain key e where m: "(key, e) \<in> set ?m" and be: "b = toPaypalBreakdown (key, e)"
    by (auto simp: paypalAggregateByCurrency_def sortDesc_set)
  from be have cur: "pcb_currency b = key" by (simp add: toPaypalBreakdown_def Let_def)
  from b keys have "pcb_currency b \<in> paypalCurrencyKey ` set charges" by force
  then show "pcb_currency b = toUpperCase (pcb_currency b)"
    by (auto simp: paypalCurrencyKey_def toUpperCase_idem)
  note e = foldl_update_entry [OF st m, unfolded paypal_currency_fold]
  from e be cur show "pcb_transactionCount b =
        length (filter (\<lambda>c. paypalCurrencyKey c = pcb_currency b) charges)"
    by (simp add: toPaypalBreakdown_def Let_def)
  from e be cur show "pcb_grossAmountMinor b =
        sum_list (map amountMinor (filter (\<lambda>c. paypalCurrencyKey c = pcb_currency b) charges))"
    by (simp add: toPaypalBreakdown_def Let_def)
qed

lemma same_case_iff: "toUpperCase a = toUpperCase b \<longleftrightarrow> toLowerCase a = toLowerCase b"
  by (metis toLowerCase_toUpperCase toUpperCase_toLowerCase)

lemma distinct_map_unique:
  "distinct (map f xs) \<Longrightarrow> x \<in> set xs \<Longrightarrow> y \<in> set xs \<Longrightarrow> f x = f y \<Longrightarrow> x = y"
  by (metis distinct_map inj_onD)

lemma stripe_merged:
  assumes "c1 \<in> set charges" "c2 \<in> set charges"
    "toUpperCase (currency c1) = toUpperCase (currency c2)"
  shows "\<exists>!b. b \<in> set (aggregateByCurrency charges) \<and>
           cb_currency b = toLowerCase (currency c1) \<and>
           cb_currency b = toLowerCase (currency c2)"
proof -
  from assms(3) have eq: "toLowerCase (currency c1) = toLowerCase (currency c2)"
    by (simp add: same_case_iff)
  note g = stripe_grouping [of charges]
  from assms(1) have "stripeCurrencyKey c1 \<in> set (map cb_currency (aggregateByCurrency charges))"
    using g by blast
  then obtain b where b: "b \<in> set (aggregateByCurrency charges)"
    and k: "cb_currency b = toLowerCase (currency c1)"
    by (auto simp: stripeCurrencyKey_def)
  show ?thesis
  proof (rule ex1I [of _ b])
    from b k eq show "b \<in> set (aggregateByCurrency charges) \<and>
      cb_currency b = toLowerCase (currency c1) \<and> cb_currency b = toLowerCase (currency c2)"
      by simp
  next
    fix b'
    assume "b' \<in> set (aggregateByCurrency charges) \<and>
      cb_currency b' = toLowerCase (currency c1) \<and> cb_currency b' = toLowerCase (currency c2)"
    with b k g show "b' = b"
      by (metis distinct_map_unique)
  qed
qed

lemma paypal_merged:
  assumes "c1 \<in> set charges" "c2 \<in> set charges"
    "recordCurrency c1 = Some x" "recordCurrency c2 = Some y" "toLowerCase x = toLowerCase y"
  shows "\<exists>!b. b \<in> set (paypalAggregateByCurrency charges) \<and>
           pcb_currency b = toUpperCase x \<and> pcb_currency b = toUpperCase y"
proof -
  from assms(5) have eq: "toUpperCase x = toUpperCase y"
    by (simp add: same_case_iff)
  note g = paypal_grouping [of charges]
  from assms(1) have
    "paypalCurrencyKey c1 \<in> set (map pcb_currency (paypalAggregateByCurrency charges))"
    using g by blast
  with assms(3) obtain b where b: "b \<in> set (paypalAggregateByCurrency charges)"
    and k: "pcb_currency b = toUpperCase x"
    by (auto simp: paypalCurrencyKey_def)
  show ?thesis
  proof (rule ex1I [of _ b])
    from b k eq show "b \<in> set (paypalAggregateByCurrency charges) \<and>
      pcb_currency b = toUpperCase x \<and> pcb_currency b = toUpperCase y"
      by simp
  next
    fix b'
    assume "b' \<in> set (paypalAggregateByCurrency charges) \<and>
      pcb_currency b' = toUpperCase x \<and> pcb_currency b' = toUpperCase y"
    with b k g show "b' = b"
      by (metis distinct_map_unique)
  qed
qed

text \<open>
  Claim C4, as the code has it. Both instantiations of \<open>aggregateByCurrency\<close> group
  case-insensitively: the currency keys of the breakdown are distinct, they are the
  normalized codes of the charges, and each group counts and sums exactly the charges with
  its normalized code, so charges whose codes differ only in case share one group. The
  PayPal instantiation normalizes to upper case (\<open>USD\<close> for a missing code); the Stripe
  instantiation normalizes to lower case, and its keys are the lower-cased codes.
\<close>

theorem currency_rollup_grouping:
  "(distinct (map cb_currency (aggregateByCurrency charges)) \<and>
    set (map cb_currency (aggregateByCurrency charges)) = stripeCurrencyKey ` set charges \<and>
    (\<forall>b \<in> set (aggregateByCurrency charges).
       cb_currency b = toLowerCase (cb_currency b) \<and>
       cb_chargeCount b =
         length (filter (\<lambda>c. stripeCurrencyKey c = cb_currency b) charges) \<and>
       cb_refundedCount b =
         length (filter refunded (filter (\<lambda>c. stripeCurrencyKey c = cb_currency b) charges)) \<and>
       cb_grossAmountMinor b =
         sum_list (map amount (filter (\<lambda>c. stripeCurrencyKey c = cb_currency b) charges)))) \<and>
   (distinct (map pcb_currency (paypalAggregateByCurrency records)) \<and>
    set (map pcb_currency (paypalAggregateByCurrency records)) = paypalCurrencyKey ` set records \<and>
    (\<forall>b \<in> set (paypalAggregateByCurrency records).
       pcb_currency b = toUpperCase (pcb_currency b) \<and>
       pcb_transactionCount b =
         length (filter (\<lambda>c. paypalCurrencyKey c = pcb_currency b) records) \<and>
       pcb_grossAmountMinor b =
         sum_list (map amountMinor (filter (\<lambda>c. paypalCurrencyKey c = pcb_currency b) records)))) \<and>
   (c1 \<in> set charges \<and> c2 \<in> set charges \<and>
    toUpperCase (currency c1) = toUpperCase (currency c2) \<longrightarrow>
      (\<exists>!b. b \<in> set (aggregateByCurrency charges) \<and>
            cb_currency b = toLowerCase (currency c1) \<and>
            cb_currency b = toLowerCase (currency c2))) \<and>
   (r1 \<in> set records \<and> r2 \<in> set records \<and> recordCurrency r1 = Some x \<and>
    recordCurrency r2 = Some y \<and> toLowerCase x = toLowerCase y \<longrightarrow>
      (\<exists>!b. b \<in> set (paypalAggregateByCurrency records) \<and>
            pcb_currency b = toUpperCase x \<and> pcb_currency b = toUpperCase y))"
proof -
  note a = stripe_grouping [of charges]
  note b = paypal_grouping [of records]
  have c: "c1 \<in> set charges \<and> c2 \<in> set charges \<and>
    toUpperCase (currency c1) = toUpperCase (currency c2) \<longrightarrow>
      (\<exists>!b. b \<in> set (aggregateByCurrency charges) \<and>
            cb_currency b = toLowerCase (currency c1) \<and>
            cb_currency b = toLowerCase (currency c2))"
  proof (intro impI, elim conjE)
    assume "c1 \<in> set charges" "c2 \<in> set charges"
      "toUpperCase (currency c1) = toUpperCase (currency c2)"
    then show "\<exists>!b. b \<in> set (aggregateByCurrency charges) \<and>
            cb_currency b = toLowerCase (currency c1) \<and>
            cb_currency b = toLowerCase (currency c2)"
      by (rule stripe_merged)
  qed
  have d: "r1 \<in> set records \<and> r2 \<in> set records \<and> recordCurrency r1 = Some x \<and>
    recordCurrency r2 = Some y \<and> toLowerCase x = toLowerCase y \<longrightarrow>
      (\<exists>!b. b \<in> set (paypalAggregateByCurrency records) \<and>
            pcb_currency b = toUpperCase x \<and> pcb_currency b = toUpperCase y)"
  proof (intro impI, elim conjE)
    assume "r1 \<in> set records" "r2 \<in> set records" "recordCurrency r1 = Some x"
      "recordCurrency r2 = Some y" "toLowerCase x = toLowerCase y"
    then show "\<exists>!b. b \<in> set (paypalAggregateByCurrency records) \<and>
            pcb_currency b = toUpperCase x \<and> pcb_currency b = toUpperCase y"
      by (rule paypal_merged)
  qed
  show ?thesis
    by (rule conjI [OF a conjI [OF b conjI [OF c d]]])
qed

text \<open>
  Claim C4 as stated fails for the Stripe instantiation: a charge in \<open>usd\<close> is grouped
  under the key \<open>usd\<close>, which is not the upper-cased code \<open>USD\<close>.
\<close>

theorem stripe_currency_key_counterexample:
  "map cb_currency (aggregateByCurrency
      [\<lparr>chargeId = ''ch_1'', amount = 1050, currency = ''usd'', status = Some ''succeeded'',
        description = None, customerId = None, created = 1717200000, refunded = False,
        receiptUrl = None, card = None, metadata = [], metadataAmounts = []\<rparr>]) = [''usd''] \<and>
   toUpperCase ''usd'' = ''USD'' \<and> ''usd'' \<noteq> ''USD''"
  by (simp add: aggregateByCurrency_def sortDesc_def currencyStep_def toBreakdown_def Let_def
      case_eval)

theorem currency_rollup_grouping_witness:
  "set (map cb_currency (aggregateByCurrency
      [\<lparr>chargeId = ''ch_1'', amount = 1050, currency = ''usd'', status = Some ''succeeded'',
        description = None, customerId = None, created = 1717200000, refunded = False,
        receiptUrl = None, card = None, metadata = [], metadataAmounts = []\<rparr>,
       \<lparr>chargeId = ''ch_2'', amount = 200, currency = ''USD'', status = Some ''succeeded'',
        description = None, customerId = None, created = 1717200001, refunded = True,
        receiptUrl = None, card = None, metadata = [], metadataAmounts = []\<rparr>])) = {''usd''}"
proof -
  let ?cs = "[\<lparr>chargeId = ''ch_1'', amount = 1050, currency = ''usd'', status = Some ''succeeded'',
        description = None, customerId = None, created = 1717200000, refunded = False,
        receiptUrl = None, card = None, metadata = [], metadataAmounts = []\<rparr>,
       \<lparr>chargeId = ''ch_2'', amount = 200, currency = ''USD'', status = Some ''succeeded'',
        description = None, customerId = None, created = 1717200001, refunded = True,
        receiptUrl = None, card = None, metadata = [], metadataAmounts = []\<rparr>]"
  have "set (map cb_currency (aggregateByCurrency ?cs)) = stripeCurrencyKey ` set ?cs"
    by (rule currency_rollup_grouping [of ?cs, THEN conjunct1, THEN conjunct2, THEN conjunct1])
  also have "\<dots> = {''usd''}"
    by (simp add: stripeCurrencyKey_def case_eval)
  finally show ?thesis .
qed

section \<open>Top customers of an empty charge set\<close>

text \<open>
  Claim C9. For an empty charge set both top-customers rollups return no customers
  (\<open>totalCustomers = 0\<close>, \<open>topCustomers = []\<close>) and exactly one insight, the sentence
  that states there was no activity; the currency rollups of an empty set are empty lists.
\<close>

theorem top_customers_of_no_charges:
  "buildTopCustomersSummary sd ed [] limit =
     Inr \<lparr>out_range = \<lparr>startDate = sd, endDate = ed\<rparr>, out_totalCustomers = 0,
          out_topCustomers = [],
          out_insights = [''No customer activity detected between '' @ sd @ '' and '' @ ed @ ''.'']\<rparr> \<and>
   paypalBuildTopCustomersSummary pd sd ed [] limit =
     \<lparr>pout_range = \<lparr>startDate = sd, endDate = ed\<rparr>, pout_totalCustomers = 0,
      pout_topCustomers = [],
      pout_insights = [''No PayPal customer activity detected between '' @ sd @ '' and '' @ ed @ ''.'']\<rparr> \<and>
   aggregateByCurrency [] = [] \<and> paypalAggregateByCurrency [] = []"
  by (simp add: buildTopCustomersSummary_def paypalBuildTopCustomersSummary_def
      generateTopCustomerInsights_def paypalGenerateTopCustomerInsights_def
      aggregateByCurrency_def paypalAggregateByCurrency_def sortDesc_def slice0_def Let_def)

theorem top_customers_of_no_charges_witness:
  "buildTopCustomersSummary ''2024-06-01'' ''2024-06-07'' [] 5 =
     Inr \<lparr>out_range = \<lparr>startDate = ''2024-06-01'', endDate = ''2024-06-07''\<rparr>,
          out_totalCustomers = 0, out_topCustomers = [],
          out_insights = [''No customer activity detected between 2024-06-01 and 2024-06-07.'']\<rparr>"
  using top_customers_of_no_charges [of "''2024-06-01''" "''2024-06-07''" 5] by simp

section \<open>Session attribution\<close>

lemma sessionRow_key:
  "(session_user_pseudo_id (sessionRow ch rows k), session_ga_session_id (sessionRow ch rows k)) = k"
  by (simp add: sessionRow_def Let_def)

lemma filter_map_remdups:
  assumes "k \<in> set ks" "\<And>j. key (f j) = j"
  shows "filter (\<lambda>s. key s = k) (map f (remdups ks)) = [f k]"
proof -
  have d: "distinct (remdups ks)" and m: "k \<in> set (remdups ks)" using assms(1) by simp_all
  have "filter (\<lambda>s. key s = k) (map f xs) = [f k]" if "distinct xs" "k \<in> set xs" for xs
    using that
  proof (induction xs)
    case Nil
    then show ?case by simp
  next
    case (Cons x xs)
    show ?case
    proof (cases "x = k")
      case True
      with Cons.prems have "k \<notin> set xs" by simp
      then have "filter (\<lambda>s. key s = k) (map f xs) = []"
        by (auto simp: filter_empty_conv assms(2))
      with True show ?thesis by (simp add: assms(2))
    next
      case False
      with Cons show ?thesis by (simp add: assms(2))
    qed
  qed
  from this [OF d m] show ?thesis .
qed

lemma one_row_per_session:
  assumes "k \<in> set (map keyOf rows)"
  shows "filter (\<lambda>s. (session_user_pseudo_id s, session_ga_session_id s) = k)
           (sessions_final ch rows) = [sessionRow ch rows k]"
  unfolding sessions_final_def
  by (rule filter_map_remdups [OF assms]) (rule sessionRow_key)

lemma anyValue_const:
  assumes "\<forall>xs. xs \<noteq> [] \<longrightarrow> anyValue ch xs \<in> set xs" "g \<noteq> []" "\<forall>r \<in> set g. col r = v"
  shows "anyValue ch (map col g) = v"
proof -
  from assms(2) have "map col g \<noteq> []" by simp
  with assms(1) have "anyValue ch (map col g) \<in> set (map col g)" by blast
  with assms(3) show ?thesis by auto
qed

lemma starts_agree:
  assumes any: "\<forall>xs. xs \<noteq> [] \<longrightarrow> anyValue ch xs \<in> set xs"
    and ex: "\<exists>r \<in> set rows. keyOf r = k \<and> event_name r = Some ''session_start''"
    and same: "\<forall>r \<in> set rows. keyOf r = k \<and> event_name r = Some ''session_start'' \<longrightarrow>
                 source_start r = src \<and> medium_start r = med \<and> campaign_start r = cmp"
  shows "starts ch rows k =
     Some \<lparr>st_utm_source_start = src, st_utm_medium_start = med, st_utm_campaign_start = cmp\<rparr>"
proof -
  let ?g = "groupOf k (filter (\<lambda>r. event_name r = Some ''session_start'') rows)"
  from ex have ne: "?g \<noteq> []" by (auto simp: groupOf_def filter_empty_conv)
  have a: "\<forall>r \<in> set ?g. source_start r = src" and b: "\<forall>r \<in> set ?g. medium_start r = med"
    and c: "\<forall>r \<in> set ?g. campaign_start r = cmp"
    using same by (auto simp: groupOf_def)
  show ?thesis
    using ne by (simp add: starts_def Let_def anyValue_const [OF any ne a]
        anyValue_const [OF any ne b] anyValue_const [OF any ne c])
qed

lemma sessionRow_session_start:
  assumes any: "\<forall>xs. xs \<noteq> [] \<longrightarrow> anyValue ch xs \<in> set xs"
    and k: "joins k"
    and ex: "\<exists>r \<in> set rows. keyOf r = k \<and> event_name r = Some ''session_start''"
    and same: "\<forall>r \<in> set rows. keyOf r = k \<and> event_name r = Some ''session_start'' \<longrightarrow>
                 source_start r = src \<and> medium_start r = med \<and> campaign_start r = cmp"
    and carries: "src \<noteq> None \<or> med \<noteq> None"
  shows "traffic_source_type (sessionRow ch rows k) = ''session_start'' \<and>
     utm_source_start (sessionRow ch rows k) = src \<and>
     utm_medium_start (sessionRow ch rows k) = med \<and>
     utm_campaign_start (sessionRow ch rows k) = cmp \<and>
     traffic_source (sessionRow ch rows k) =
       coalesce [src, utm_source_lp (sessionRow ch rows k), ref_source (sessionRow ch rows k),
         Some ''(direct)''] \<and>
     traffic_medium (sessionRow ch rows k) =
       coalesce [med, utm_medium_lp (sessionRow ch rows k), ref_medium (sessionRow ch rows k),
         Some ''(none)''] \<and>
     traffic_campaign (sessionRow ch rows k) =
       coalesce [cmp, utm_campaign_lp (sessionRow ch rows k), Some ''(not set)'']"
  using k carries
  by (auto simp: sessionRow_def Let_def leftJoin_def starts_agree [OF any ex same])


lemma sessionRow_columns:
  "utm_source_start (sessionRow ch rows k) = leftJoin k (starts ch rows k) st_utm_source_start"
  "utm_medium_start (sessionRow ch rows k) = leftJoin k (starts ch rows k) st_utm_medium_start"
  "utm_campaign_start (sessionRow ch rows k) = leftJoin k (starts ch rows k) st_utm_campaign_start"
  "utm_source_lp (sessionRow ch rows k) = leftJoin k (utm_from_landing ch rows k) ul_utm_source_lp"
  "utm_medium_lp (sessionRow ch rows k) = leftJoin k (utm_from_landing ch rows k) ul_utm_medium_lp"
  "utm_campaign_lp (sessionRow ch rows k) =
     leftJoin k (utm_from_landing ch rows k) ul_utm_campaign_lp"
  "ref_source (sessionRow ch rows k) = leftJoin k (ref_derived ch rows k) rd_ref_source"
  "ref_medium (sessionRow ch rows k) = leftJoin k (ref_derived ch rows k) rd_ref_medium"
  by (simp_all add: sessionRow_def Let_def)

lemma sessionRow_verdict:
  "traffic_source_type (sessionRow ch rows k) =
     (if utm_source_start (sessionRow ch rows k) \<noteq> None \<or>
         utm_medium_start (sessionRow ch rows k) \<noteq> None then ''session_start''
      else if utm_source_lp (sessionRow ch rows k) \<noteq> None \<or>
         utm_medium_lp (sessionRow ch rows k) \<noteq> None then ''first_pageview_utm''
      else if ref_source (sessionRow ch rows k) \<noteq> None then ''referrer''
      else ''direct'')"
  "traffic_source (sessionRow ch rows k) =
     coalesce [utm_source_start (sessionRow ch rows k), utm_source_lp (sessionRow ch rows k),
       ref_source (sessionRow ch rows k), Some ''(direct)'']"
  "traffic_medium (sessionRow ch rows k) =
     coalesce [utm_medium_start (sessionRow ch rows k), utm_medium_lp (sessionRow ch rows k),
       ref_medium (sessionRow ch rows k), Some ''(none)'']"
  "traffic_campaign (sessionRow ch rows k) =
     coalesce [utm_campaign_start (sessionRow ch rows k), utm_campaign_lp (sessionRow ch rows k),
       Some ''(not set)'']"
  by (simp_all add: sessionRow_def Let_def)

text \<open>
  Claim C2, as the code has it. Take a session with a visitor id and a session id whose
  \<open>session_start\<close> events (there is at least one) carry the same source, medium and
  campaign parameters, a source or a medium among them. The session table holds exactly
  one row for the session; its source type is \<open>session_start\<close>; each of source, medium
  and campaign that the \<open>session_start\<close> event carries is the verdict's, verbatim,
  whatever the landing URL says; a field that the \<open>session_start\<close> event does not carry
  is the landing URL's \<open>utm\<close> parameter, failing that (source and medium only) the one
  of the referrer classification, failing that \<open>(direct)\<close>, \<open>(none)\<close>,
  \<open>(not set)\<close>.
\<close>

theorem session_start_precedence:
  assumes "\<forall>xs. xs \<noteq> [] \<longrightarrow> anyValue ch xs \<in> set xs"
    and "joins k"
    and "\<exists>r \<in> set rows. keyOf r = k \<and> event_name r = Some ''session_start''"
    and "\<forall>r \<in> set rows. keyOf r = k \<and> event_name r = Some ''session_start'' \<longrightarrow>
           source_start r = src \<and> medium_start r = med \<and> campaign_start r = cmp"
    and "src \<noteq> None \<or> med \<noteq> None"
  shows "filter (\<lambda>s. (session_user_pseudo_id s, session_ga_session_id s) = k)
           (sessions_final ch rows) = [sessionRow ch rows k] \<and>
         traffic_source_type (sessionRow ch rows k) = ''session_start'' \<and>
         (\<forall>v. src = Some v \<longrightarrow> traffic_source (sessionRow ch rows k) = Some v) \<and>
         (\<forall>v. med = Some v \<longrightarrow> traffic_medium (sessionRow ch rows k) = Some v) \<and>
         (\<forall>v. cmp = Some v \<longrightarrow> traffic_campaign (sessionRow ch rows k) = Some v) \<and>
         traffic_source (sessionRow ch rows k) =
           coalesce [src, utm_source_lp (sessionRow ch rows k), ref_source (sessionRow ch rows k),
             Some ''(direct)''] \<and>
         traffic_medium (sessionRow ch rows k) =
           coalesce [med, utm_medium_lp (sessionRow ch rows k), ref_medium (sessionRow ch rows k),
             Some ''(none)''] \<and>
         traffic_campaign (sessionRow ch rows k) =
           coalesce [cmp, utm_campaign_lp (sessionRow ch rows k), Some ''(not set)'']"
proof -
  from assms(3) have "k \<in> set (map keyOf rows)" by auto
  note one = one_row_per_session [OF this, of ch]
  note row = sessionRow_session_start [OF assms]
  from one row show ?thesis by simp
qed

theorem session_start_precedence_witness:
  "joins (Some ''u1'', Some 7) \<and>
   (let rows =
      [\<lparr>event_ts = 1, event_name = Some ''session_start'', user_pseudo_id = Some ''u1'',
        ga_session_id = Some 7, page_location = None, page_referrer = None,
        source_start = Some ''newsletter'', medium_start = Some ''email'',
        campaign_start = Some ''spring''\<rparr>,
       \<lparr>event_ts = 2, event_name = Some ''page_view'', user_pseudo_id = Some ''u1'',
        ga_session_id = Some 7,
        page_location = Some ''https://superalink.com/?utm_source=google&utm_medium=cpc&utm_campaign=sale'',
        page_referrer = None, source_start = None, medium_start = None,
        campaign_start = None\<rparr>];
      row = sessionRow \<lparr>anyValue = hd, firstOf = hd\<rparr> rows (Some ''u1'', Some 7)
    in sessions_final \<lparr>anyValue = hd, firstOf = hd\<rparr> rows = [row] \<and>
       utm_source_lp row = Some ''google'' \<and> utm_medium_lp row = Some ''cpc'' \<and>
       utm_campaign_lp row = Some ''sale'' \<and>
       traffic_source_type row = ''session_start'' \<and>
       traffic_source row = Some ''newsletter'' \<and> traffic_medium row = Some ''email'' \<and>
       traffic_campaign row = Some ''spring'')"
proof -
  let ?ch = "\<lparr>anyValue = hd, firstOf = hd\<rparr> :: Choice"
  let ?k = "(Some ''u1'', Some 7) :: SessionKey"
  let ?rows = "[\<lparr>event_ts = 1, event_name = Some ''session_start'', user_pseudo_id = Some ''u1'',
        ga_session_id = Some 7, page_location = None, page_referrer = None,
        source_start = Some ''newsletter'', medium_start = Some ''email'',
        campaign_start = Some ''spring''\<rparr>,
       \<lparr>event_ts = 2, event_name = Some ''page_view'', user_pseudo_id = Some ''u1'',
        ga_session_id = Some 7,
        page_location = Some ''https://superalink.com/?utm_source=google&utm_medium=cpc&utm_campaign=sale'',
        page_referrer = None, source_start = None, medium_start = None,
        campaign_start = None\<rparr>]"
  have h1: "\<forall>xs. xs \<noteq> [] \<longrightarrow> anyValue ?ch xs \<in> set xs" by simp
  have h2: "joins ?k" by (simp add: joins_def)
  have h3: "\<exists>r \<in> set ?rows. keyOf r = ?k \<and> event_name r = Some ''session_start''"
    by (simp add: keyOf_def)
  have h4: "\<forall>r \<in> set ?rows. keyOf r = ?k \<and> event_name r = Some ''session_start'' \<longrightarrow>
      source_start r = Some ''newsletter'' \<and> medium_start r = Some ''email'' \<and>
      campaign_start r = Some ''spring''"
    by (simp add: keyOf_def)
  have h5: "Some ''newsletter'' \<noteq> None \<or> Some ''email'' \<noteq> None" by simp
  note th = session_start_precedence [OF h1 h2 h3 h4 h5]
  have lu: "landing_url ?ch ?rows ?k =
      Some ''https://superalink.com/?utm_source=google&utm_medium=cpc&utm_campaign=sale''"
    by (simp add: landing_url_def groupOf_def keyOf_def firstByTime_def earliest_def)
  have p: "regexpExtractParam ''utm_source''
        ''https://superalink.com/?utm_source=google&utm_medium=cpc&utm_campaign=sale'' =
      Some ''google''"
    "regexpExtractParam ''utm_medium''
        ''https://superalink.com/?utm_source=google&utm_medium=cpc&utm_campaign=sale'' =
      Some ''cpc''"
    "regexpExtractParam ''utm_campaign''
        ''https://superalink.com/?utm_source=google&utm_medium=cpc&utm_campaign=sale'' =
      Some ''sale''"
    by (simp_all add: startsWith_def)
  have lp: "utm_source_lp (sessionRow ?ch ?rows ?k) = Some ''google'' \<and>
      utm_medium_lp (sessionRow ?ch ?rows ?k) = Some ''cpc'' \<and>
      utm_campaign_lp (sessionRow ?ch ?rows ?k) = Some ''sale''"
    unfolding sessionRow_columns
    by (simp add: leftJoin_def h2 utm_from_landing_def groupOf_def keyOf_def lu p
        del: regexpExtractParam.simps)
  have all: "sessions_final ?ch ?rows = [sessionRow ?ch ?rows ?k]"
    by (simp add: sessions_final_def keyOf_def)
  from th h1 h2 lp all show ?thesis by (simp add: Let_def)
qed

text \<open>
  Claim C2 as stated fails: the \<open>session_start\<close> event of this session carries a source
  and no medium or campaign; the verdict has source type \<open>session_start\<close> and that
  source, but its medium and campaign are the \<open>utm\<close> parameters of the landing URL.
\<close>

theorem session_start_mixed_counterexample:
  "(let rows =
      [\<lparr>event_ts = 1, event_name = Some ''session_start'', user_pseudo_id = Some ''u1'',
        ga_session_id = Some 7, page_location = None, page_referrer = None,
        source_start = Some ''newsletter'', medium_start = None, campaign_start = None\<rparr>,
       \<lparr>event_ts = 2, event_name = Some ''page_view'', user_pseudo_id = Some ''u1'',
        ga_session_id = Some 7,
        page_location = Some ''https://superalink.com/?utm_source=google&utm_medium=cpc&utm_campaign=sale'',
        page_referrer = None, source_start = None, medium_start = None,
        campaign_start = None\<rparr>];
      row = sessionRow \<lparr>anyValue = hd, firstOf = hd\<rparr> rows (Some ''u1'', Some 7)
    in sessions_final \<lparr>anyValue = hd, firstOf = hd\<rparr> rows = [row] \<and>
       traffic_source_type row = ''session_start'' \<and>
       traffic_source row = Some ''newsletter'' \<and> traffic_medium row = Some ''cpc'' \<and>
       traffic_campaign row = Some ''sale'')"
proof -
  let ?ch = "\<lparr>anyValue = hd, firstOf = hd\<rparr> :: Choice"
  let ?k = "(Some ''u1'', Some 7) :: SessionKey"
  let ?rows = "[\<lparr>event_ts = 1, event_name = Some ''session_start'', user_pseudo_id = Some ''u1'',
        ga_session_id = Some 7, page_location = None, page_referrer = None,
        source_start = Some ''newsletter'', medium_start = None, campaign_start = None\<rparr>,
       \<lparr>event_ts = 2, event_name = Some ''page_view'', user_pseudo_id = Some ''u1'',
        ga_session_id = Some 7,
        page_location = Some ''https://superalink.com/?utm_source=google&utm_medium=cpc&utm_campaign=sale'',
        page_referrer = None, source_start = None, medium_start = None,
        campaign_start = None\<rparr>]"
  let ?row = "sessionRow ?ch ?rows ?k"
  have h2: "joins ?k" by (simp add: joins_def)
  have all: "sessions_final ?ch ?rows = [?row]"
    by (simp add: sessions_final_def keyOf_def)
  have st: "starts ?ch ?rows ?k =
      Some \<lparr>st_utm_source_start = Some ''newsletter'', st_utm_medium_start = None,
            st_utm_campaign_start = None\<rparr>"
    by (simp add: starts_def groupOf_def keyOf_def)
  have lu: "landing_url ?ch ?rows ?k =
      Some ''https://superalink.com/?utm_source=google&utm_medium=cpc&utm_campaign=sale''"
    by (simp add: landing_url_def groupOf_def keyOf_def firstByTime_def earliest_def)
  have p: "regexpExtractParam ''utm_source''
        ''https://superalink.com/?utm_source=google&utm_medium=cpc&utm_campaign=sale'' =
      Some ''google''"
    "regexpExtractParam ''utm_medium''
        ''https://superalink.com/?utm_source=google&utm_medium=cpc&utm_campaign=sale'' =
      Some ''cpc''"
    "regexpExtractParam ''utm_campaign''
        ''https://superalink.com/?utm_source=google&utm_medium=cpc&utm_campaign=sale'' =
      Some ''sale''"
    by (simp_all add: startsWith_def)
  have c: "utm_source_start ?row = Some ''newsletter''" "utm_medium_start ?row = None"
    "utm_campaign_start ?row = None" "utm_source_lp ?row = Some ''google''"
    "utm_medium_lp ?row = Some ''cpc''" "utm_campaign_lp ?row = Some ''sale''"
    unfolding sessionRow_columns
    by (simp_all add: leftJoin_def h2 st utm_from_landing_def groupOf_def keyOf_def lu p
        del: regexpExtractParam.simps)
  have v: "traffic_source_type ?row = ''session_start'' \<and>
       traffic_source ?row = Some ''newsletter'' \<and> traffic_medium ?row = Some ''cpc'' \<and>
       traffic_campaign ?row = Some ''sale''"
    unfolding sessionRow_verdict c by simp
  from all v show ?thesis by (simp add: Let_def)
qed

section \<open>Referrer classification\<close>

lemma earliest_nonempty: "xs \<noteq> [] \<Longrightarrow> earliest xs \<noteq> []"
proof -
  assume ne: "xs \<noteq> []"
  let ?m = "Min (fst ` set xs)"
  have "?m \<in> fst ` set xs" using ne by (intro Min_in) simp_all
  then obtain p where p: "p \<in> set xs" "fst p = ?m" by auto
  have "\<forall>q \<in> set xs. ?m \<le> fst q" by simp
  with p have "p \<in> set (earliest xs)" by (simp add: earliest_def)
  then show ?thesis by auto
qed

lemma ignoreNulls_all_Some:
  "\<forall>r \<in> set g. col r \<noteq> None \<Longrightarrow>
     ignoreNulls (map (\<lambda>r. (ts r, col r)) g) = map (\<lambda>r. (ts r, the (col r))) g"
  by (induction g) auto

lemma externalReferrer_Some: "externalReferrer r \<Longrightarrow> page_referrer r \<noteq> None"
  by (auto simp: externalReferrer_def split: option.splits)

lemma first_external_referrer:
  assumes first: "\<forall>xs. xs \<noteq> [] \<longrightarrow> firstOf ch xs \<in> set xs"
    and ne: "groupOf k (filter externalReferrer rows) \<noteq> []"
  shows "\<exists>r \<in> set (groupOf k (filter externalReferrer rows)). \<exists>f.
           page_referrer r = Some f \<and>
           (\<forall>r' \<in> set (groupOf k (filter externalReferrer rows)). event_ts r \<le> event_ts r') \<and>
           first_ext_ref ch rows k = Some (Some f)"
proof -
  let ?g = "groupOf k (filter externalReferrer rows)"
  let ?ys = "map (\<lambda>r. (event_ts r, the (page_referrer r))) ?g"
  have some: "\<forall>r \<in> set ?g. page_referrer r \<noteq> None"
    by (auto simp: groupOf_def externalReferrer_Some)
  have ys: "ignoreNulls (externalReferrers rows k) = ?ys"
    unfolding externalReferrers_def by (rule ignoreNulls_all_Some [OF some])
  from ne have yne: "?ys \<noteq> []" by simp
  then have "earliest ?ys \<noteq> []" by (rule earliest_nonempty)
  with first have "firstOf ch (earliest ?ys) \<in> set (earliest ?ys)" by blast
  then have m: "firstOf ch (earliest ?ys) \<in> set ?ys"
    and least: "\<forall>q \<in> set ?ys. fst (firstOf ch (earliest ?ys)) \<le> fst q"
    by (simp_all add: earliest_def)
  from m obtain r where r: "r \<in> set ?g"
    and e: "firstOf ch (earliest ?ys) = (event_ts r, the (page_referrer r))"
    by auto
  from some r obtain f where f: "page_referrer r = Some f" by auto
  have l: "\<forall>r' \<in> set ?g. event_ts r \<le> event_ts r'"
    using least e by auto
  have "externalReferrers rows k \<noteq> []" using ne by (simp add: externalReferrers_def)
  then have "first_ext_ref ch rows k = Some (Some f)"
    using yne e f by (simp add: first_ext_ref_def firstByTime_def ys Let_def)
  with r f l show ?thesis by blast
qed

lemma no_external_referrer:
  assumes "groupOf k (filter externalReferrer rows) = []"
  shows "first_ext_ref ch rows k = None"
  using assms by (simp add: first_ext_ref_def externalReferrers_def)

lemma sessionRow_by_referrer:
  assumes "joins k"
    and "utm_source_start (sessionRow ch rows k) = None"
    and "utm_medium_start (sessionRow ch rows k) = None"
    and "utm_campaign_start (sessionRow ch rows k) = None"
    and "utm_source_lp (sessionRow ch rows k) = None"
    and "utm_medium_lp (sessionRow ch rows k) = None"
    and "utm_campaign_lp (sessionRow ch rows k) = None"
  shows "traffic_campaign (sessionRow ch rows k) = Some ''(not set)''"
    and "first_ext_ref ch rows k = None \<Longrightarrow>
        traffic_source_type (sessionRow ch rows k) = ''direct'' \<and>
        traffic_source (sessionRow ch rows k) = Some ''(direct)'' \<and>
        traffic_medium (sessionRow ch rows k) = Some ''(none)''"
    and "first_ext_ref ch rows k = Some fr \<Longrightarrow>
        traffic_source_type (sessionRow ch rows k) =
          (if ref_source_of fr \<noteq> None then ''referrer'' else ''direct'') \<and>
        traffic_source (sessionRow ch rows k) = coalesce [ref_source_of fr, Some ''(direct)''] \<and>
        traffic_medium (sessionRow ch rows k) = coalesce [ref_medium_of fr, Some ''(none)'']"
proof -
  have rs: "ref_source (sessionRow ch rows k) =
      (case first_ext_ref ch rows k of None \<Rightarrow> None | Some fr \<Rightarrow> ref_source_of fr)"
    using assms(1)
    by (simp add: sessionRow_columns leftJoin_def ref_derived_def split: option.splits)
  have rm: "ref_medium (sessionRow ch rows k) =
      (case first_ext_ref ch rows k of None \<Rightarrow> None | Some fr \<Rightarrow> ref_medium_of fr)"
    using assms(1)
    by (simp add: sessionRow_columns leftJoin_def ref_derived_def split: option.splits)
  show "traffic_campaign (sessionRow ch rows k) = Some ''(not set)''"
    unfolding sessionRow_verdict assms(2-7) by simp
  show "first_ext_ref ch rows k = None \<Longrightarrow>
        traffic_source_type (sessionRow ch rows k) = ''direct'' \<and>
        traffic_source (sessionRow ch rows k) = Some ''(direct)'' \<and>
        traffic_medium (sessionRow ch rows k) = Some ''(none)''"
    unfolding sessionRow_verdict assms(2-7) rs rm by simp
  show "first_ext_ref ch rows k = Some fr \<Longrightarrow>
        traffic_source_type (sessionRow ch rows k) =
          (if ref_source_of fr \<noteq> None then ''referrer'' else ''direct'') \<and>
        traffic_source (sessionRow ch rows k) = coalesce [ref_source_of fr, Some ''(direct)''] \<and>
        traffic_medium (sessionRow ch rows k) = coalesce [ref_medium_of fr, Some ''(none)'']"
    unfolding sessionRow_verdict assms(2-7) rs rm by simp
qed

lemma verdict_cases:
  assumes "ty = (if rs \<noteq> None then ''referrer'' else ''direct'') \<and>
      src = coalesce [rs, Some ''(direct)''] \<and> md = coalesce [rm, Some ''(none)'']"
    and "rs = (if g then Some ''google'' else if b then Some ''bing''
               else if y then Some ''yahoo'' else if d then Some ''duckduckgo''
               else if bd then Some ''baidu'' else if yx then Some ''yandex''
               else map_option toLowerCase hst)"
    and "rm = (if g then Some ''organic'' else if b then Some ''organic''
               else if y then Some ''organic'' else if d then Some ''organic''
               else if bd then Some ''organic'' else if yx then Some ''organic''
               else Some ''referral'')"
  shows "(g \<longrightarrow> ty = ''referrer'' \<and> src = Some ''google'' \<and> md = Some ''organic'') \<and>
         (\<not> g \<and> b \<longrightarrow> ty = ''referrer'' \<and> src = Some ''bing'' \<and> md = Some ''organic'') \<and>
         (\<not> g \<and> \<not> b \<and> y \<longrightarrow>
            ty = ''referrer'' \<and> src = Some ''yahoo'' \<and> md = Some ''organic'') \<and>
         (\<not> g \<and> \<not> b \<and> \<not> y \<and> d \<longrightarrow>
            ty = ''referrer'' \<and> src = Some ''duckduckgo'' \<and> md = Some ''organic'') \<and>
         (\<not> g \<and> \<not> b \<and> \<not> y \<and> \<not> d \<and> bd \<longrightarrow>
            ty = ''referrer'' \<and> src = Some ''baidu'' \<and> md = Some ''organic'') \<and>
         (\<not> g \<and> \<not> b \<and> \<not> y \<and> \<not> d \<and> \<not> bd \<and> yx \<longrightarrow>
            ty = ''referrer'' \<and> src = Some ''yandex'' \<and> md = Some ''organic'') \<and>
         (\<forall>h. \<not> g \<and> \<not> b \<and> \<not> y \<and> \<not> d \<and> \<not> bd \<and> \<not> yx \<and> hst = Some h \<longrightarrow>
            ty = ''referrer'' \<and> src = Some (toLowerCase h) \<and> md = Some ''referral'')"
  using assms(1) unfolding assms(2,3) by simp

text \<open>
  Claim C3, as the code has it. Take a session with a visitor id and a session id whose row
  has no source, medium or campaign from \<open>session_start\<close> and none from the landing URL.
  Its external referrers are the \<open>page_view\<close> events of the session with a non-empty
  referrer whose host, in lower case, is neither \<open>superalink.com\<close> nor ends with
  \<open>.superalink.com\<close> (the host is what follows \<open>http://\<close> or \<open>https://\<close> up to the
  next \<open>/\<close> or \<open>:\<close>; a referrer without one counts as external). With no external
  referrer the verdict is direct, \<open>(direct)\<close>, \<open>(none)\<close>, \<open>(not set)\<close>. Otherwise
  the referrer \<open>f\<close> that the query takes (\<open>first_ext_ref\<close>) is that of an external
  referrer of earliest time, and the verdict is read off it: the campaign is
  \<open>(not set)\<close>; if \<open>f\<close>, case ignored, contains \<open>://\<close> followed by an
  optional \<open>www.\<close> and then \<open>google.\<close>, the verdict is of type referrer with source
  google and medium organic, and likewise, each tried only when the ones before it fail,
  for \<open>bing.\<close>, \<open>search.yahoo.\<close> (source yahoo), \<open>duckduckgo.\<close>, \<open>baidu.\<close> and
  \<open>yandex.\<close>; if none is contained and \<open>f\<close> has a host, the verdict is of type referrer
  with medium referral and the host in lower case as its source.
\<close>

theorem referrer_classification:
  assumes "\<forall>xs. xs \<noteq> [] \<longrightarrow> firstOf ch xs \<in> set xs"
    and "joins k"
    and "utm_source_start (sessionRow ch rows k) = None"
    and "utm_medium_start (sessionRow ch rows k) = None"
    and "utm_campaign_start (sessionRow ch rows k) = None"
    and "utm_source_lp (sessionRow ch rows k) = None"
    and "utm_medium_lp (sessionRow ch rows k) = None"
    and "utm_campaign_lp (sessionRow ch rows k) = None"
  shows "(groupOf k (filter externalReferrer rows) = [] \<longrightarrow>
            traffic_source_type (sessionRow ch rows k) = ''direct'' \<and>
            traffic_source (sessionRow ch rows k) = Some ''(direct)'' \<and>
            traffic_medium (sessionRow ch rows k) = Some ''(none)'' \<and>
            traffic_campaign (sessionRow ch rows k) = Some ''(not set)'') \<and>
         (groupOf k (filter externalReferrer rows) \<noteq> [] \<longrightarrow>
            (\<exists>r \<in> set (groupOf k (filter externalReferrer rows)). \<exists>f.
               page_referrer r = Some f \<and>
               (\<forall>r' \<in> set (groupOf k (filter externalReferrer rows)). event_ts r \<le> event_ts r') \<and>
               first_ext_ref ch rows k = Some (Some f) \<and>
               traffic_campaign (sessionRow ch rows k) = Some ''(not set)'' \<and>
               (containsEngine ''google.'' f \<longrightarrow>
                  traffic_source_type (sessionRow ch rows k) = ''referrer'' \<and>
                  traffic_source (sessionRow ch rows k) = Some ''google'' \<and>
                  traffic_medium (sessionRow ch rows k) = Some ''organic'') \<and>
               (\<not> containsEngine ''google.'' f \<and> containsEngine ''bing.'' f \<longrightarrow>
                  traffic_source_type (sessionRow ch rows k) = ''referrer'' \<and>
                  traffic_source (sessionRow ch rows k) = Some ''bing'' \<and>
                  traffic_medium (sessionRow ch rows k) = Some ''organic'') \<and>
               (\<not> containsEngine ''google.'' f \<and> \<not> containsEngine ''bing.'' f \<and>
                containsEngine ''search.yahoo.'' f \<longrightarrow>
                  traffic_source_type (sessionRow ch rows k) = ''referrer'' \<and>
                  traffic_source (sessionRow ch rows k) = Some ''yahoo'' \<and>
                  traffic_medium (sessionRow ch rows k) = Some ''organic'') \<and>
               (\<not> containsEngine ''google.'' f \<and> \<not> containsEngine ''bing.'' f \<and>
                \<not> containsEngine ''search.yahoo.'' f \<and> containsEngine ''duckduckgo.'' f \<longrightarrow>
                  traffic_source_type (sessionRow ch rows k) = ''referrer'' \<and>
                  traffic_source (sessionRow ch rows k) = Some ''duckduckgo'' \<and>
                  traffic_medium (sessionRow ch rows k) = Some ''organic'') \<and>
               (\<not> containsEngine ''google.'' f \<and> \<not> containsEngine ''bing.'' f \<and>
                \<not> containsEngine ''search.yahoo.'' f \<and> \<not> containsEngine ''duckduckgo.'' f \<and>
                containsEngine ''baidu.'' f \<longrightarrow>
                  traffic_source_type (sessionRow ch rows k) = ''referrer'' \<and>
                  traffic_source (sessionRow ch rows k) = Some ''baidu'' \<and>
                  traffic_medium (sessionRow ch rows k) = Some ''organic'') \<and>
               (\<not> containsEngine ''google.'' f \<and> \<not> containsEngine ''bing.'' f \<and>
                \<not> containsEngine ''search.yahoo.'' f \<and> \<not> containsEngine ''duckduckgo.'' f \<and>
                \<not> containsEngine ''baidu.'' f \<and> containsEngine ''yandex.'' f \<longrightarrow>
                  traffic_source_type (sessionRow ch rows k) = ''referrer'' \<and>
                  traffic_source (sessionRow ch rows k) = Some ''yandex'' \<and>
                  traffic_medium (sessionRow ch rows k) = Some ''organic'') \<and>
               (\<forall>h. \<not> containsEngine ''google.'' f \<and> \<not> containsEngine ''bing.'' f \<and>
                \<not> containsEngine ''search.yahoo.'' f \<and> \<not> containsEngine ''duckduckgo.'' f \<and>
                \<not> containsEngine ''baidu.'' f \<and> \<not> containsEngine ''yandex.'' f \<and>
                refHost f = Some h \<longrightarrow>
                  traffic_source_type (sessionRow ch rows k) = ''referrer'' \<and>
                  traffic_source (sessionRow ch rows k) = Some (toLowerCase h) \<and>
                  traffic_medium (sessionRow ch rows k) = Some ''referral'')))"
proof (rule conjI)
  note row = sessionRow_by_referrer [OF assms(2-8)]
  show "groupOf k (filter externalReferrer rows) = [] \<longrightarrow>
            traffic_source_type (sessionRow ch rows k) = ''direct'' \<and>
            traffic_source (sessionRow ch rows k) = Some ''(direct)'' \<and>
            traffic_medium (sessionRow ch rows k) = Some ''(none)'' \<and>
            traffic_campaign (sessionRow ch rows k) = Some ''(not set)''"
    using row(1) row(2) [OF no_external_referrer [of k rows ch]] by simp
next
  note row = sessionRow_by_referrer [OF assms(2-8)]
  let ?g = "groupOf k (filter externalReferrer rows)"
  let ?row = "sessionRow ch rows k"
  let ?verdict = "\<lambda>f.
               (containsEngine ''google.'' f \<longrightarrow>
                  traffic_source_type ?row = ''referrer'' \<and>
                  traffic_source ?row = Some ''google'' \<and>
                  traffic_medium ?row = Some ''organic'') \<and>
               (\<not> containsEngine ''google.'' f \<and> containsEngine ''bing.'' f \<longrightarrow>
                  traffic_source_type ?row = ''referrer'' \<and>
                  traffic_source ?row = Some ''bing'' \<and>
                  traffic_medium ?row = Some ''organic'') \<and>
               (\<not> containsEngine ''google.'' f \<and> \<not> containsEngine ''bing.'' f \<and>
                containsEngine ''search.yahoo.'' f \<longrightarrow>
                  traffic_source_type ?row = ''referrer'' \<and>
                  traffic_source ?row = Some ''yahoo'' \<and>
                  traffic_medium ?row = Some ''organic'') \<and>
               (\<not> containsEngine ''google.'' f \<and> \<not> containsEngine ''bing.'' f \<and>
                \<not> containsEngine ''search.yahoo.'' f \<and> containsEngine ''duckduckgo.'' f \<longrightarrow>
                  traffic_source_type ?row = ''referrer'' \<and>
                  traffic_source ?row = Some ''duckduckgo'' \<and>
                  traffic_medium ?row = Some ''organic'') \<and>
               (\<not> containsEngine ''google.'' f \<and> \<not> containsEngine ''bing.'' f \<and>
                \<not> containsEngine ''search.yahoo.'' f \<and> \<not> containsEngine ''duckduckgo.'' f \<and>
                containsEngine ''baidu.'' f \<longrightarrow>
                  traffic_source_type ?row = ''referrer'' \<and>
                  traffic_source ?row = Some ''baidu'' \<and>
                  traffic_medium ?row = Some ''organic'') \<and>
               (\<not> containsEngine ''google.'' f \<and> \<not> containsEngine ''bing.'' f \<and>
                \<not> containsEngine ''search.yahoo.'' f \<and> \<not> containsEngine ''duckduckgo.'' f \<and>
                \<not> containsEngine ''baidu.'' f \<and> containsEngine ''yandex.'' f \<longrightarrow>
                  traffic_source_type ?row = ''referrer'' \<and>
                  traffic_source ?row = Some ''yandex'' \<and>
                  traffic_medium ?row = Some ''organic'') \<and>
               (\<forall>h. \<not> containsEngine ''google.'' f \<and> \<not> containsEngine ''bing.'' f \<and>
                \<not> containsEngine ''search.yahoo.'' f \<and> \<not> containsEngine ''duckduckgo.'' f \<and>
                \<not> containsEngine ''baidu.'' f \<and> \<not> containsEngine ''yandex.'' f \<and>
                refHost f = Some h \<longrightarrow>
                  traffic_source_type ?row = ''referrer'' \<and>
                  traffic_source ?row = Some (toLowerCase h) \<and>
                  traffic_medium ?row = Some ''referral'')"
  have v: "?verdict f" if e: "first_ext_ref ch rows k = Some (Some f)" for f
    by (rule verdict_cases [OF row(3) [OF e]]) (simp_all add: ref_source_of_def ref_medium_of_def)
  show "?g \<noteq> [] \<longrightarrow>
      (\<exists>r \<in> set ?g. \<exists>f. page_referrer r = Some f \<and>
         (\<forall>r' \<in> set ?g. event_ts r \<le> event_ts r') \<and>
         first_ext_ref ch rows k = Some (Some f) \<and>
         traffic_campaign ?row = Some ''(not set)'' \<and> ?verdict f)"
  proof
    assume "?g \<noteq> []"
    from first_external_referrer [OF assms(1) this] obtain r f where
      r: "r \<in> set ?g" and f: "page_referrer r = Some f"
      and l: "\<forall>r' \<in> set ?g. event_ts r \<le> event_ts r'"
      and e: "first_ext_ref ch rows k = Some (Some f)"
      by blast
    have "page_referrer r = Some f \<and>
         (\<forall>r' \<in> set ?g. event_ts r \<le> event_ts r') \<and>
         first_ext_ref ch rows k = Some (Some f) \<and>
         traffic_campaign ?row = Some ''(not set)'' \<and> ?verdict f"
      by (rule conjI [OF f conjI [OF l conjI [OF e conjI [OF row(1) v [OF e]]]]])
    then have "\<exists>f. page_referrer r = Some f \<and>
         (\<forall>r' \<in> set ?g. event_ts r \<le> event_ts r') \<and>
         first_ext_ref ch rows k = Some (Some f) \<and>
         traffic_campaign ?row = Some ''(not set)'' \<and> ?verdict f"
      by (rule exI [where x = f])
    from this r show "\<exists>r \<in> set ?g. \<exists>f. page_referrer r = Some f \<and>
         (\<forall>r' \<in> set ?g. event_ts r \<le> event_ts r') \<and>
         first_ext_ref ch rows k = Some (Some f) \<and>
         traffic_campaign ?row = Some ''(not set)'' \<and> ?verdict f"
      by (rule bexI)
  qed
qed

theorem referrer_classification_witness:
  "joins (Some ''u1'', Some 7) \<and>
   (let rows =
      [\<lparr>event_ts = 1, event_name = Some ''page_view'', user_pseudo_id = Some ''u1'',
        ga_session_id = Some 7, page_location = Some ''https://superalink.com/'',
        page_referrer = Some ''https://www.superalink.com/pricing'',
        source_start = None, medium_start = None, campaign_start = None\<rparr>,
       \<lparr>event_ts = 2, event_name = Some ''page_view'', user_pseudo_id = Some ''u1'',
        ga_session_id = Some 7, page_location = Some ''https://superalink.com/a'',
        page_referrer = Some ''https://www.Google.com/search?q=x'',
        source_start = None, medium_start = None, campaign_start = None\<rparr>];
      row = sessionRow \<lparr>anyValue = hd, firstOf = hd\<rparr> rows (Some ''u1'', Some 7)
    in utm_source_start row = None \<and> utm_medium_start row = None \<and>
       utm_campaign_start row = None \<and> utm_source_lp row = None \<and>
       utm_medium_lp row = None \<and> utm_campaign_lp row = None \<and>
       groupOf (Some ''u1'', Some 7) (filter externalReferrer rows) = [rows ! 1] \<and>
       containsEngine ''google.'' ''https://www.Google.com/search?q=x'' \<and>
       traffic_source_type row = ''referrer'' \<and> traffic_source row = Some ''google'' \<and>
       traffic_medium row = Some ''organic'' \<and> traffic_campaign row = Some ''(not set)'')"
proof -
  let ?ch = "\<lparr>anyValue = hd, firstOf = hd\<rparr> :: Choice"
  let ?k = "(Some ''u1'', Some 7) :: SessionKey"
  let ?r1 = "\<lparr>event_ts = 1, event_name = Some ''page_view'', user_pseudo_id = Some ''u1'',
        ga_session_id = Some 7, page_location = Some ''https://superalink.com/'',
        page_referrer = Some ''https://www.superalink.com/pricing'',
        source_start = None, medium_start = None, campaign_start = None\<rparr>"
  let ?r2 = "\<lparr>event_ts = 2, event_name = Some ''page_view'', user_pseudo_id = Some ''u1'',
        ga_session_id = Some 7, page_location = Some ''https://superalink.com/a'',
        page_referrer = Some ''https://www.Google.com/search?q=x'',
        source_start = None, medium_start = None, campaign_start = None\<rparr>"
  let ?rows = "[?r1, ?r2]"
  let ?row = "sessionRow ?ch ?rows ?k"
  have h1: "\<forall>xs. xs \<noteq> [] \<longrightarrow> firstOf ?ch xs \<in> set xs" by simp
  have h2: "joins ?k" by (simp add: joins_def)
  have st: "starts ?ch ?rows ?k = None"
    by (simp add: starts_def groupOf_def)
  have lu: "landing_url ?ch ?rows ?k = Some ''https://superalink.com/''"
    by (simp add: landing_url_def groupOf_def keyOf_def firstByTime_def earliest_def)
  have p: "regexpExtractParam ''utm_source'' ''https://superalink.com/'' = None"
    "regexpExtractParam ''utm_medium'' ''https://superalink.com/'' = None"
    "regexpExtractParam ''utm_campaign'' ''https://superalink.com/'' = None"
    by simp_all
  have c: "utm_source_start ?row = None" "utm_medium_start ?row = None"
    "utm_campaign_start ?row = None" "utm_source_lp ?row = None"
    "utm_medium_lp ?row = None" "utm_campaign_lp ?row = None"
    unfolding sessionRow_columns
    by (simp_all add: leftJoin_def st utm_from_landing_def lu p)
  have e1: "\<not> externalReferrer ?r1"
    by (simp add: externalReferrer_def refHost_def ownDomain_def startsWith_def endsWith_def
        case_eval)
  have e2: "externalReferrer ?r2"
    by (simp add: externalReferrer_def refHost_def ownDomain_def startsWith_def endsWith_def
        case_eval)
  have g: "groupOf ?k (filter externalReferrer ?rows) = [?r2]"
    by (simp add: e1 e2 groupOf_def keyOf_def)
  have ce: "containsEngine ''google.'' ''https://www.Google.com/search?q=x''"
    by (simp add: containsEngine_def startsWith_def case_eval)
  note th = referrer_classification [OF h1 h2 c, THEN conjunct2, unfolded g]
  then obtain f where f: "page_referrer ?r2 = Some f"
    and nc: "traffic_campaign ?row = Some ''(not set)''"
    and ge: "containsEngine ''google.'' f \<longrightarrow>
         traffic_source_type ?row = ''referrer'' \<and> traffic_source ?row = Some ''google'' \<and>
         traffic_medium ?row = Some ''organic''"
    by auto
  from f have "f = ''https://www.Google.com/search?q=x''" by simp
  with ge ce have v: "traffic_source_type ?row = ''referrer'' \<and> traffic_source ?row = Some ''google'' \<and>
         traffic_medium ?row = Some ''organic''"
    by simp
  from h1 h2 c g ce v nc show ?thesis by (simp add: Let_def)
qed

text \<open>
  Claim C3 as stated fails: the host \<open>mail.google.com\<close> of the only referrer of this
  session contains the name \<open>google\<close>, yet the verdict is a referral with the host as
  its source, because the referrer does not contain \<open>://google.\<close> or \<open>://www.google.\<close>.
\<close>

theorem referrer_host_substring_counterexample:
  "(let rows =
      [\<lparr>event_ts = 1, event_name = Some ''page_view'', user_pseudo_id = Some ''u1'',
        ga_session_id = Some 7, page_location = Some ''https://superalink.com/'',
        page_referrer = Some ''https://mail.google.com/mail/u/0/'',
        source_start = None, medium_start = None, campaign_start = None\<rparr>];
      row = sessionRow \<lparr>anyValue = hd, firstOf = hd\<rparr> rows (Some ''u1'', Some 7)
    in sessions_final \<lparr>anyValue = hd, firstOf = hd\<rparr> rows = [row] \<and>
       refHost ''https://mail.google.com/mail/u/0/'' = Some ''mail.google.com'' \<and>
       strIncludes ''mail.google.com'' ''google'' \<and>
       utm_source_start row = None \<and> utm_medium_start row = None \<and>
       utm_campaign_start row = None \<and> utm_source_lp row = None \<and>
       utm_medium_lp row = None \<and> utm_campaign_lp row = None \<and>
       traffic_source_type row = ''referrer'' \<and>
       traffic_source row = Some ''mail.google.com'' \<and>
       traffic_medium row = Some ''referral'')"
proof -
  let ?ch = "\<lparr>anyValue = hd, firstOf = hd\<rparr> :: Choice"
  let ?k = "(Some ''u1'', Some 7) :: SessionKey"
  let ?r = "\<lparr>event_ts = 1, event_name = Some ''page_view'', user_pseudo_id = Some ''u1'',
        ga_session_id = Some 7, page_location = Some ''https://superalink.com/'',
        page_referrer = Some ''https://mail.google.com/mail/u/0/'',
        source_start = None, medium_start = None, campaign_start = None\<rparr>"
  let ?row = "sessionRow ?ch [?r] ?k"
  have h2: "joins ?k" by (simp add: joins_def)
  have all: "sessions_final ?ch [?r] = [?row]"
    by (simp add: sessions_final_def keyOf_def)
  have st: "starts ?ch [?r] ?k = None"
    by (simp add: starts_def groupOf_def)
  have lu: "landing_url ?ch [?r] ?k = Some ''https://superalink.com/''"
    by (simp add: landing_url_def groupOf_def keyOf_def firstByTime_def earliest_def)
  have p: "regexpExtractParam ''utm_source'' ''https://superalink.com/'' = None"
    "regexpExtractParam ''utm_medium'' ''https://superalink.com/'' = None"
    "regexpExtractParam ''utm_campaign'' ''https://superalink.com/'' = None"
    by simp_all
  have c: "utm_source_start ?row = None" "utm_medium_start ?row = None"
    "utm_campaign_start ?row = None" "utm_source_lp ?row = None"
    "utm_medium_lp ?row = None" "utm_campaign_lp ?row = None"
    unfolding sessionRow_columns
    by (simp_all add: leftJoin_def st utm_from_landing_def lu p)
  have host: "refHost ''https://mail.google.com/mail/u/0/'' = Some ''mail.google.com''"
    by (simp add: refHost_def startsWith_def)
  have low: "toLowerCase ''mail.google.com'' = ''mail.google.com''"
    "toLowerCase ''https://mail.google.com/mail/u/0/'' = ''https://mail.google.com/mail/u/0/''"
    by (simp_all add: toLowerCase_def lowerChar_def)
  have sub: "strIncludes ''mail.google.com'' ''google''"
    by (simp add: startsWith_def)
  have ext: "externalReferrer ?r"
    by (simp add: externalReferrer_def host low ownDomain_def endsWith_def)
  have fr: "first_ext_ref ?ch [?r] ?k = Some (Some ''https://mail.google.com/mail/u/0/'')"
    by (simp add: first_ext_ref_def externalReferrers_def groupOf_def keyOf_def ext
        firstByTime_def earliest_def)
  have rs: "ref_source_of (Some ''https://mail.google.com/mail/u/0/'') = Some ''mail.google.com''"
    by (simp add: ref_source_of_def containsEngine_def low startsWith_def host)
  have rm: "ref_medium_of (Some ''https://mail.google.com/mail/u/0/'') = Some ''referral''"
    by (simp add: ref_medium_of_def containsEngine_def low startsWith_def)
  have v: "traffic_source_type ?row = ''referrer'' \<and>
      traffic_source ?row = Some ''mail.google.com'' \<and>
      traffic_medium ?row = Some ''referral''"
    using sessionRow_by_referrer(3) [OF h2 c fr] by (simp add: rs rm)
  from all host sub c v show ?thesis by (simp add: Let_def)
qed

end
